(* ===== verification/Prelude.thy ===== *)
theory Prelude
  imports Main "HOL-Library.Word" "HOL-Library.Char_ord" "HOL-Library.List_Lexorder"
    "HOL-Library.Code_Target_Nat"
begin

section \<open>Prelude: types, generic lemmas and the shared interfaces\<close>

text \<open>
  This theory holds what every component of the development shares:
  \<^item> the name \<open>u32\<close> for the 32-bit unsigned integers of the Go code;
  \<^item> the sequencing of fallible, state-changing calls (\<open>bindE\<close>), the shape of a Go
    function that returns \<open>(value, error)\<close> and returns early when the error is not nil;
  \<^item> generic lemmas about lists (first occurrences, filters, counting);
  \<^item> the interface \<open>inv_machine\<close> of a component whose operations keep an invariant.
\<close>

type_synonym u32 = "32 word"

named_theorems go_simps
  \<open>evaluation rules of the standard-library functions the source uses\<close>

named_theorems esm_simps
  \<open>evaluation rules of the error-and-state sequencing\<close>


subsection \<open>Sequencing of fallible calls\<close>

text \<open>
  A Go method \<open>func (s *S) f(...) (A, error)\<close> that changes the state of its receiver is a
  function from the state to its result and the new state; the result is \<open>Inl\<close> of the error or
  \<open>Inr\<close> of the value. \<open>if err != nil { return err }\<close> is \<open>bindE\<close>.
\<close>

type_synonym ('e, 's, 'a) esm = "'s \<Rightarrow> ('e + 'a) \<times> 's"

definition returnE :: "'a \<Rightarrow> ('e, 's, 'a) esm" where
  "returnE x = (\<lambda>s. (Inr x, s))"

definition failE :: "'e \<Rightarrow> ('e, 's, 'a) esm" where
  "failE e = (\<lambda>s. (Inl e, s))"

definition bindE :: "('e, 's, 'a) esm \<Rightarrow> ('a \<Rightarrow> ('e, 's, 'b) esm) \<Rightarrow> ('e, 's, 'b) esm" where
  "bindE m k = (\<lambda>s. case m s of (Inl e, s') \<Rightarrow> (Inl e, s') | (Inr x, s') \<Rightarrow> k x s')"

text \<open>\<open>x, err := f()\<close> where the caller looks at the error itself or drops it.\<close>

definition tryE :: "('e, 's, 'a) esm \<Rightarrow> ('f, 's, 'e + 'a) esm" where
  "tryE m = (\<lambda>s. case m s of (r, s') \<Rightarrow> (Inr r, s'))"

fun is_ok :: "'e + 'a \<Rightarrow> bool" where
  "is_ok (Inl e) = False"
| "is_ok (Inr x) = True"

lemma returnE_apply [simp, esm_simps]: "returnE x s = (Inr x, s)"
  by (simp add: returnE_def)

lemma failE_apply [simp, esm_simps]: "failE e s = (Inl e, s)"
  by (simp add: failE_def)

lemma bindE_Inl [esm_simps]: "m s = (Inl e, s') \<Longrightarrow> bindE m k s = (Inl e, s')"
  by (simp add: bindE_def)

lemma bindE_Inr [esm_simps]: "m s = (Inr x, s') \<Longrightarrow> bindE m k s = k x s'"
  by (simp add: bindE_def)

lemma tryE_apply: "tryE m s = (Inr (fst (m s)), snd (m s))"
  by (simp add: tryE_def split: prod.splits)

lemma bindE_assoc: "bindE (bindE m k) h = bindE m (\<lambda>x. bindE (k x) h)"
  by (rule ext) (simp add: bindE_def split: prod.splits sum.splits)

lemma bindE_cases:
  assumes "bindE m k s = (r, s')"
  obtains (err) e where "m s = (Inl e, s')" and "r = Inl e"
  | (ok) x t where "m s = (Inr x, t)" and "k x t = (r, s')"
  using assms by (auto simp: bindE_def split: prod.splits sum.splits)

text \<open>
  A relation between the states before and after, kept by both parts, is kept by the sequence.
\<close>

definition preserves :: "('s \<Rightarrow> bool) \<Rightarrow> ('e, 's, 'a) esm \<Rightarrow> bool" where
  "preserves I m \<longleftrightarrow> (\<forall>s. I s \<longrightarrow> I (snd (m s)))"

lemma preservesI [intro?]: "(\<And>s. I s \<Longrightarrow> I (snd (m s))) \<Longrightarrow> preserves I m"
  by (simp add: preserves_def)

lemma preservesD: "preserves I m \<Longrightarrow> I s \<Longrightarrow> I (snd (m s))"
  by (simp add: preserves_def)

lemma preserves_returnE [intro]: "preserves I (returnE x)"
  by (simp add: preserves_def)

lemma preserves_failE [intro]: "preserves I (failE e)"
  by (simp add: preserves_def)

lemma preserves_bindE [intro]:
  "preserves I m \<Longrightarrow> (\<And>x. preserves I (k x)) \<Longrightarrow> preserves I (bindE m k)"
  by (auto simp: preserves_def bindE_def split: prod.splits sum.splits)

lemma preserves_tryE [intro]: "preserves I m \<Longrightarrow> preserves I (tryE m)"
  by (auto simp: preserves_def tryE_apply)


subsection \<open>Lists\<close>

text \<open>Index of the first element that satisfies a predicate; the loops \<open>for i, x := range xs\<close>
  of the source that return at the first match.\<close>

fun find_index :: "('a \<Rightarrow> bool) \<Rightarrow> 'a list \<Rightarrow> nat option" where
  "find_index P [] = None"
| "find_index P (x # xs) = (if P x then Some 0 else map_option Suc (find_index P xs))"

lemma find_index_None_iff: "find_index P xs = None \<longleftrightarrow> (\<forall>x\<in>set xs. \<not> P x)"
  by (induction xs) auto

lemma find_index_Some:
  "find_index P xs = Some i \<Longrightarrow> i < length xs \<and> P (xs ! i) \<and> (\<forall>j<i. \<not> P (xs ! j))"
proof (induction xs arbitrary: i)
  case Nil
  then show ?case by simp
next
  case (Cons x xs)
  show ?case
  proof (cases "P x")
    case True
    with Cons.prems show ?thesis by simp
  next
    case False
    with Cons.prems obtain k where k: "find_index P xs = Some k" and i: "i = Suc k"
      by auto
    from Cons.IH [OF k] False i show ?thesis
      by (auto simp: less_Suc_eq_0_disj)
  qed
qed

lemma find_index_SomeD:
  assumes "find_index P xs = Some i"
  shows "i < length xs" and "P (xs ! i)"
  using find_index_Some [OF assms] by auto

lemma filter_list_update_neq:
  "i < length xs \<Longrightarrow> \<not> P (xs ! i) \<Longrightarrow> \<not> P y \<Longrightarrow> filter P (xs[i := y]) = filter P xs"
proof (induction xs arbitrary: i)
  case Nil
  then show ?case by simp
next
  case (Cons x xs)
  then show ?case by (cases i) auto
qed

lemma filter_take_drop_Suc:
  "i < length xs \<Longrightarrow> \<not> P (xs ! i) \<Longrightarrow>
     filter P (take i xs @ drop (Suc i) xs) = filter P xs"
proof (induction xs arbitrary: i)
  case Nil
  then show ?case by simp
next
  case (Cons x xs)
  then show ?case by (cases i) auto
qed

lemma distinct_map_filter: "distinct (map f xs) \<Longrightarrow> distinct (map f (filter P xs))"
  by (induction xs) auto

lemma set_filter_subset: "set (filter P xs) \<subseteq> set xs"
  by auto


subsection \<open>Components that keep an invariant\<close>

text \<open>
  Every component with state is a set of operations on a state type. The interface asks for one
  law: each operation keeps the invariant. The client lemma is that every sequence of operations
  does, from any state that satisfies it.
\<close>

locale inv_machine =
  fixes step :: "'o \<Rightarrow> 's \<Rightarrow> 's"
    and inv :: "'s \<Rightarrow> bool"
  assumes inv_step: "inv s \<Longrightarrow> inv (step op s)"
begin

lemma inv_run: "inv s \<Longrightarrow> inv (fold step ops s)"
  by (induction ops arbitrary: s) (auto intro: inv_step)

lemma inv_prefix: "inv s \<Longrightarrow> inv (fold step (take n ops) s)"
  by (rule inv_run)

end

end
