(* ===== verification/Go_Strings.thy ===== *)
theory Go_Strings
  imports Prelude "HOL-Library.Sublist"
begin

section \<open>The parts of the Go standard library for strings\<close>

text \<open>
  Go strings are byte sequences; here they are \<open>string\<close>, a list of 8-bit characters.
  The functions of the packages \<open>strings\<close>, \<open>strconv\<close> and \<open>encoding/hex\<close>
  that the source calls are defined here, for the arguments it calls them with, and with the laws
  the components need.
\<close>


subsection \<open>Trimming\<close>

text \<open>
  \<open>strings.TrimSpace\<close> removes leading and trailing code points with the Unicode property
  White\_Space. Their UTF-8 encodings are listed; a byte string starts (ends) with such a code
  point exactly when one of the encodings is a prefix (suffix) of it.
\<close>

definition space_runes :: "string list" where
  "space_runes =
     [[CHR 0x09], [CHR 0x0A], [CHR 0x0B], [CHR 0x0C], [CHR 0x0D], [CHR 0x20],
      [CHR 0xC2, CHR 0x85], [CHR 0xC2, CHR 0xA0], [CHR 0xE1, CHR 0x9A, CHR 0x80],
      [CHR 0xE2, CHR 0x80, CHR 0x80], [CHR 0xE2, CHR 0x80, CHR 0x81], [CHR 0xE2, CHR 0x80, CHR 0x82],
      [CHR 0xE2, CHR 0x80, CHR 0x83], [CHR 0xE2, CHR 0x80, CHR 0x84], [CHR 0xE2, CHR 0x80, CHR 0x85],
      [CHR 0xE2, CHR 0x80, CHR 0x86], [CHR 0xE2, CHR 0x80, CHR 0x87], [CHR 0xE2, CHR 0x80, CHR 0x88],
      [CHR 0xE2, CHR 0x80, CHR 0x89], [CHR 0xE2, CHR 0x80, CHR 0x8A], [CHR 0xE2, CHR 0x80, CHR 0xA8],
      [CHR 0xE2, CHR 0x80, CHR 0xA9], [CHR 0xE2, CHR 0x80, CHR 0xAF], [CHR 0xE2, CHR 0x81, CHR 0x9F],
      [CHR 0xE3, CHR 0x80, CHR 0x80]]"

definition leading :: "string list \<Rightarrow> string \<Rightarrow> string option" where
  "leading ws s = List.find (\<lambda>w. w \<noteq> [] \<and> prefix w s) ws"

lemma leading_Some: "leading ws s = Some w \<Longrightarrow> w \<noteq> [] \<and> prefix w s"
  unfolding leading_def by (auto simp: find_Some_iff)

lemma leading_None: "leading ws s = None \<longleftrightarrow> (\<forall>w\<in>set ws. w \<noteq> [] \<longrightarrow> \<not> prefix w s)"
  unfolding leading_def by (auto simp: find_None_iff)

function trim_by :: "string list \<Rightarrow> string \<Rightarrow> string" where
  "trim_by ws s = (case leading ws s of None \<Rightarrow> s | Some w \<Rightarrow> trim_by ws (drop (length w) s))"
  by pat_completeness auto
termination
proof (relation "measure (\<lambda>(ws, s). length s)")
  show "wf (measure (\<lambda>(ws :: string list, s :: string). length s))" by simp
next
  fix ws s w
  assume "leading ws s = Some w"
  then have "w \<noteq> []" and "prefix w s" by (auto dest: leading_Some)
  then show "((ws, drop (length w) s), ws, s) \<in> measure (\<lambda>(ws, s). length s)"
    by (auto simp: prefix_def)
qed

declare trim_by.simps [simp del]

definition trim_space :: "string \<Rightarrow> string" where
  "trim_space s = rev (trim_by (map rev space_runes) (rev (trim_by space_runes s)))"

definition trimmed :: "string \<Rightarrow> bool" where
  "trimmed s \<longleftrightarrow> leading space_runes s = None \<and> leading (map rev space_runes) (rev s) = None"

lemma trim_by_id: "leading ws s = None \<Longrightarrow> trim_by ws s = s"
  by (subst trim_by.simps) simp

lemma trim_by_leading: "leading ws (trim_by ws s) = None"
proof (induction ws s rule: trim_by.induct)
  case (1 ws s)
  show ?case
  proof (cases "leading ws s")
    case None
    then show ?thesis by (simp add: trim_by_id)
  next
    case (Some w)
    with 1 have "leading ws (trim_by ws (drop (length w) s)) = None" by simp
    with Some show ?thesis by (simp add: trim_by.simps [of ws s])
  qed
qed

lemma trim_by_suffix: "suffix (trim_by ws s) s"
proof (induction ws s rule: trim_by.induct)
  case (1 ws s)
  show ?case
  proof (cases "leading ws s")
    case None
    then show ?thesis by (simp add: trim_by_id)
  next
    case (Some w)
    with 1 have "suffix (trim_by ws (drop (length w) s)) (drop (length w) s)" by simp
    then have "suffix (trim_by ws (drop (length w) s)) s"
      by (rule suffix_order.trans) (rule suffix_drop)
    with Some show ?thesis by (simp add: trim_by.simps [of ws s])
  qed
qed

lemma leading_prefix_None:
  "prefix s t \<Longrightarrow> leading ws t = None \<Longrightarrow> leading ws s = None"
  unfolding leading_None by (blast intro: prefix_order.trans)

lemma trimmed_trim_space: "trimmed (trim_space s)"
proof -
  define t where "t = trim_by space_runes s"
  define r where "r = trim_by (map rev space_runes) (rev t)"
  have r: "leading (map rev space_runes) r = None"
    by (simp add: r_def trim_by_leading)
  have "suffix r (rev t)" by (simp add: r_def trim_by_suffix)
  then have "prefix (rev r) t" by (simp add: suffix_to_prefix)
  moreover have "leading space_runes t = None" by (simp add: t_def trim_by_leading)
  ultimately have "leading space_runes (rev r) = None" by (rule leading_prefix_None)
  with r show ?thesis by (simp add: trimmed_def trim_space_def r_def t_def)
qed

lemma trim_space_id: "trimmed s \<Longrightarrow> trim_space s = s"
  by (simp add: trimmed_def trim_space_def trim_by_id)

lemma trim_space_idem [simp]: "trim_space (trim_space s) = trim_space s"
  by (rule trim_space_id [OF trimmed_trim_space])

lemma trim_space_Nil [simp]: "trim_space [] = []"
proof -
  have "trimmed []" by (auto simp: trimmed_def leading_None)
  then show ?thesis by (rule trim_space_id)
qed

lemma set_trim_space: "set (trim_space s) \<subseteq> set s"
proof -
  have "set (trim_space s) \<subseteq> set (rev (trim_by space_runes s))"
    unfolding trim_space_def by (metis set_rev set_mono_suffix trim_by_suffix)
  also have "\<dots> \<subseteq> set s"
    using set_mono_suffix [OF trim_by_suffix] by (simp only: set_rev)
  finally show ?thesis .
qed


subsection \<open>Splitting, joining, replacing\<close>

text \<open>\<open>strings.Split(s, sep)\<close> for a one-byte separator.\<close>

fun split_on :: "char \<Rightarrow> string \<Rightarrow> string list" where
  "split_on c [] = [[]]"
| "split_on c (x # xs) =
     (if x = c then [] # split_on c xs
      else (case split_on c xs of [] \<Rightarrow> [[x]] | y # ys \<Rightarrow> (x # y) # ys))"

text \<open>\<open>strings.Join(xs, sep)\<close>.\<close>

fun join_str :: "string \<Rightarrow> string list \<Rightarrow> string" where
  "join_str sep [] = []"
| "join_str sep [x] = x"
| "join_str sep (x # y # ys) = x @ sep @ join_str sep (y # ys)"

lemma split_on_nonempty [simp]: "split_on c s \<noteq> []"
  by (induction s) (auto split: list.splits)

lemma split_on_no_sep: "c \<notin> set s \<Longrightarrow> split_on c s = [s]"
  by (induction s) auto

lemma split_on_append_sep: "c \<notin> set x \<Longrightarrow> split_on c (x @ c # s) = x # split_on c s"
  by (induction x) auto

lemma split_on_join:
  "xs \<noteq> [] \<Longrightarrow> (\<forall>x\<in>set xs. c \<notin> set x) \<Longrightarrow> split_on c (join_str [c] xs) = xs"
  by (induction "[c]" xs rule: join_str.induct) (auto simp: split_on_no_sep split_on_append_sep)

lemma join_split_on: "join_str [c] (split_on c s) = s"
proof (induction s)
  case Nil
  then show ?case by simp
next
  case (Cons x xs)
  obtain y ys where "split_on c xs = y # ys" by (cases "split_on c xs") auto
  with Cons show ?case by (cases ys) auto
qed

lemma split_on_parts: "y \<in> set (split_on c s) \<Longrightarrow> c \<notin> set y"
proof (induction s arbitrary: y)
  case Nil
  then show ?case by simp
next
  case (Cons x xs)
  obtain z zs where "split_on c xs = z # zs" by (cases "split_on c xs") auto
  with Cons show ?case by (auto split: if_splits)
qed

text \<open>\<open>strings.TrimPrefix\<close>, the part before the first separator (\<open>strings.SplitN(s, sep, 2)[0]\<close>), and
  \<open>strings.ReplaceAll\<close> with a non-empty old string.\<close>

definition trim_prefix :: "string \<Rightarrow> string \<Rightarrow> string" where
  "trim_prefix s p = (if prefix p s then drop (length p) s else s)"

definition before_sep :: "char \<Rightarrow> string \<Rightarrow> string" where
  "before_sep c s = takeWhile (\<lambda>x. x \<noteq> c) s"

function replace_all :: "string \<Rightarrow> string \<Rightarrow> string \<Rightarrow> string" where
  "replace_all old new [] = []"
| "replace_all old new (c # cs) =
     (if old \<noteq> [] \<and> prefix old (c # cs)
      then new @ replace_all old new (drop (length old - 1) cs)
      else c # replace_all old new cs)"
  by pat_completeness auto
termination by (relation "measure (\<lambda>(old, new, s). length s)") auto

lemma trim_prefix_append [simp]: "trim_prefix (p @ s) p = s"
  by (simp add: trim_prefix_def)

lemma replace_char_concat:
  "replace_all [q] new s = concat (map (\<lambda>c. if c = q then new else [c]) s)"
  by (induction "[q]" new s rule: replace_all.induct) auto

lemma replace_all_absent:
  "(\<And>u v. s \<noteq> u @ old @ v) \<Longrightarrow> replace_all old new s = s"
proof (induction old new s rule: replace_all.induct)
  case (1 old new)
  then show ?case by simp
next
  case (2 old new c cs)
  have "\<not> prefix old (c # cs)"
    using 2(3) [of "[]"] by (auto simp: prefix_def)
  moreover have "replace_all old new cs = cs" if "\<not> (old \<noteq> [] \<and> prefix old (c # cs))"
    using 2(2) [OF that] 2(3) by (metis append_Cons)
  ultimately show ?case by simp
qed

text \<open>\<open>strings.ToUpper\<close>: byte by byte on ASCII strings; other strings go through the
  Unicode case tables, a parameter \<open>unicode_upper\<close>.\<close>

definition upper_char :: "char \<Rightarrow> char" where
  "upper_char c = (if CHR ''a'' \<le> c \<and> c \<le> CHR ''z'' then char_of (of_char c - 32 :: nat) else c)"

definition is_ascii :: "string \<Rightarrow> bool" where
  "is_ascii s = list_all (\<lambda>c. of_char c < (128::nat)) s"

definition to_upper :: "(string \<Rightarrow> string) \<Rightarrow> string \<Rightarrow> string" where
  "to_upper unicode_upper s = (if is_ascii s then map upper_char s else unicode_upper s)"


subsection \<open>Decimal numbers\<close>

text \<open>The verb \<open>%d\<close> and \<open>strconv.FormatUint(n, 10)\<close>.\<close>

fun dec :: "nat \<Rightarrow> string" where
  "dec n = (if n < 10 then [char_of (48 + n)] else dec (n div 10) @ [char_of (48 + n mod 10)])"

declare dec.simps [simp del]

text \<open>
  \<open>strconv.ParseUint(s, 10, bits)\<close>: the digits are read left to right, the first one that is not
  a digit or that takes the value past the bound ends the scan. \<open>maxv\<close> is the bound
  \<open>2 ^ bits - 1\<close>.
\<close>

datatype num_error = ErrSyntax | ErrRange

definition is_digit :: "char \<Rightarrow> bool" where
  "is_digit c \<longleftrightarrow> CHR ''0'' \<le> c \<and> c \<le> CHR ''9''"

fun parse_uint_loop :: "nat \<Rightarrow> nat \<Rightarrow> string \<Rightarrow> num_error + nat" where
  "parse_uint_loop maxv n [] = Inr n"
| "parse_uint_loop maxv n (c # cs) =
     (if \<not> is_digit c then Inl ErrSyntax
      else let n' = n * 10 + (of_char c - 48) in
        if maxv < n' then Inl ErrRange else parse_uint_loop maxv n' cs)"

definition parse_uint :: "nat \<Rightarrow> string \<Rightarrow> num_error + nat" where
  "parse_uint maxv s = (if s = [] then Inl ErrSyntax else parse_uint_loop maxv 0 s)"

text \<open>\<open>strconv.ParseInt(s, 10, 64)\<close>: the value returned beside the error, which callers that
  drop the error go on with.\<close>

definition parse_int64 :: "string \<Rightarrow> int \<times> num_error option" where
  "parse_int64 s =
     (if s = [] then (0, Some ErrSyntax)
      else
        let neg = (hd s = CHR ''-'');
            digits = (if hd s = CHR ''+'' \<or> hd s = CHR ''-'' then tl s else s)
        in case parse_uint (2 ^ 64 - 1) digits of
             Inl ErrSyntax \<Rightarrow> (0, Some ErrSyntax)
           | Inl ErrRange \<Rightarrow> (if neg then - (2 ^ 63) else 2 ^ 63 - 1, Some ErrRange)
           | Inr un \<Rightarrow>
               if \<not> neg \<and> 2 ^ 63 \<le> un then (2 ^ 63 - 1, Some ErrRange)
               else if neg \<and> 2 ^ 63 < un then (- (2 ^ 63), Some ErrRange)
               else (if neg then - int un else int un, None))"

lemma dec_nonempty [simp]: "dec n \<noteq> []"
  by (subst dec.simps) simp

lemma parse_uint_loop_append:
  "parse_uint_loop maxv n (xs @ ys) =
     (case parse_uint_loop maxv n xs of Inl e \<Rightarrow> Inl e | Inr m \<Rightarrow> parse_uint_loop maxv m ys)"
  by (induction maxv n xs rule: parse_uint_loop.induct) (auto simp: Let_def)

lemma of_char_digit: "d < 10 \<Longrightarrow> of_char (char_of (48 + d) :: char) = (48 + d :: nat)"
  by simp

lemma is_digit_dec_char: "d < 10 \<Longrightarrow> is_digit (char_of (48 + d :: nat))"
  by (simp add: is_digit_def less_eq_char_def)

lemma parse_uint_loop_digit:
  "d < 10 \<Longrightarrow> n * 10 + d \<le> maxv \<Longrightarrow> parse_uint_loop maxv n [char_of (48 + d)] = Inr (n * 10 + d)"
  by (simp add: is_digit_dec_char Let_def)

lemma parse_uint_loop_dec: "n \<le> maxv \<Longrightarrow> parse_uint_loop maxv 0 (dec n) = Inr n"
proof (induction n rule: dec.induct)
  case (1 n)
  show ?case
  proof (cases "n < 10")
    case True
    with 1 show ?thesis
      using parse_uint_loop_digit [of n 0 maxv] by (subst dec.simps) simp
  next
    case False
    then have d: "dec n = dec (n div 10) @ [char_of (48 + n mod 10)]"
      by (subst dec.simps) simp
    from False 1 have "parse_uint_loop maxv 0 (dec (n div 10)) = Inr (n div 10)"
      by (simp add: div_le_dividend le_trans [OF div_le_dividend])
    with 1(2) show ?thesis
      using parse_uint_loop_digit [of "n mod 10" "n div 10" maxv]
      by (simp only: d parse_uint_loop_append) simp
  qed
qed

lemma parse_uint_dec: "n \<le> maxv \<Longrightarrow> parse_uint maxv (dec n) = Inr n"
  by (simp add: parse_uint_def parse_uint_loop_dec)

lemma parse_uint_loop_bound: "n \<le> maxv \<Longrightarrow> parse_uint_loop maxv n s = Inr m \<Longrightarrow> m \<le> maxv"
  by (induction maxv n s rule: parse_uint_loop.induct) (auto simp: Let_def split: if_splits)

lemma parse_uint_bound: "parse_uint maxv s = Inr m \<Longrightarrow> m \<le> maxv"
  by (auto simp: parse_uint_def split: if_splits dest: parse_uint_loop_bound [rotated])

lemma dec_digits: "c \<in> set (dec n) \<Longrightarrow> is_digit c"
proof (induction n rule: dec.induct)
  case (1 n)
  show ?case
  proof (cases "n < 10")
    case True
    with 1(2) have "c = char_of (48 + n)" by (subst (asm) dec.simps) simp
    with True show ?thesis by (simp only: is_digit_dec_char)
  next
    case False
    then have "dec n = dec (n div 10) @ [char_of (48 + n mod 10)]" by (subst dec.simps) simp
    with 1(2) have "c \<in> set (dec (n div 10)) \<or> c = char_of (48 + n mod 10)" by auto
    with 1(1) [OF False] is_digit_dec_char [of "n mod 10"] show ?thesis by auto
  qed
qed

text \<open>\<open>%d\<close> of an \<open>int64\<close>.\<close>

definition dec_int :: "int \<Rightarrow> string" where
  "dec_int i = (if i < 0 then CHR ''-'' # dec (nat (- i)) else dec (nat i))"

lemma dec_head: "0 < n \<Longrightarrow> hd (dec n) \<noteq> CHR ''0''"
proof (induction n rule: dec.induct)
  case (1 n)
  show ?case
  proof (cases "n < 10")
    case True
    then have "n \<in> set [0..<10]" by simp
    moreover have "\<forall>m\<in>set [0..<10]. 0 < m \<longrightarrow> char_of (48 + m) \<noteq> CHR ''0''" by code_simp
    ultimately show ?thesis using 1(2) True by (subst dec.simps) simp
  next
    case False
    then have "dec n = dec (n div 10) @ [char_of (48 + n mod 10)]" by (subst dec.simps) simp
    moreover have "hd (dec (n div 10)) \<noteq> CHR ''0''" using 1(1) False by simp
    ultimately show ?thesis by (metis dec_nonempty hd_append2)
  qed
qed

lemma dec_head_digit: "is_digit (hd (dec n))"
  by (rule dec_digits [of _ n]) simp

lemma parse_int64_dec_int:
  assumes "- (2 ^ 63) \<le> i" and "i < 2 ^ 63"
  shows "parse_int64 (dec_int i) = (i, None)"
proof (cases "i < 0")
  case True
  then have "nat (- i) \<le> 2 ^ 64 - 1" using assms(1) by simp
  with True assms show ?thesis by (simp add: parse_int64_def dec_int_def parse_uint_dec)
next
  case False
  then have le: "nat i \<le> 2 ^ 64 - 1" using assms(2) by simp
  have "hd (dec (nat i)) \<noteq> CHR ''+''" "hd (dec (nat i)) \<noteq> CHR ''-''"
    using dec_head_digit [of "nat i"] by (auto simp: is_digit_def less_eq_char_def)
  with False assms le show ?thesis
    by (simp add: parse_int64_def dec_int_def parse_uint_dec)
qed

end
