(* ===== verification/Go_Encoding.thy ===== *)
theory Go_Encoding
  imports Go_Strings
begin

section \<open>Encodings of the standard library\<close>

text \<open>
  \<open>base64.RawURLEncoding\<close>, the strings of \<open>encoding/json\<close>, and \<open>net.SplitHostPort\<close>, as far as the
  source uses them. A byte is a \<open>char\<close>, a Go string or byte slice a list of them.
\<close>


subsection \<open>Base 64\<close>

definition b64_alphabet :: string where
  "b64_alphabet = ''ABCDEFGHIJKLMNOPQRSTUVWXYZabcdefghijklmnopqrstuvwxyz0123456789-_''"

abbreviation byte :: "char \<Rightarrow> nat" where "byte \<equiv> of_char"

definition b64_char :: "nat \<Rightarrow> char" where
  "b64_char n = b64_alphabet ! n"

fun b64_sextets :: "string \<Rightarrow> nat list" where
  "b64_sextets [] = []"
| "b64_sextets [a] = [byte a div 4, byte a mod 4 * 16]"
| "b64_sextets [a, b] = [byte a div 4, byte a mod 4 * 16 + byte b div 16, byte b mod 16 * 4]"
| "b64_sextets (a # b # c # rest) =
     [byte a div 4, byte a mod 4 * 16 + byte b div 16, byte b mod 16 * 4 + byte c div 64, byte c mod 64]
     @ b64_sextets rest"

definition b64_encode :: "string \<Rightarrow> string" where
  "b64_encode s = map b64_char (b64_sextets s)"

text \<open>The decoder skips line breaks, fails on every other character outside the alphabet and on a
  single left-over character, and ignores the unused low bits of the last one.\<close>

definition b64_value :: "char \<Rightarrow> nat option" where
  "b64_value c = find_index (\<lambda>x. x = c) b64_alphabet"

fun b64_bytes :: "nat list \<Rightarrow> string option" where
  "b64_bytes [] = Some []"
| "b64_bytes [a] = None"
| "b64_bytes [a, b] = Some [char_of (a * 4 + b div 16)]"
| "b64_bytes [a, b, c] = Some [char_of (a * 4 + b div 16), char_of (b mod 16 * 16 + c div 4)]"
| "b64_bytes (a # b # c # d # rest) =
     map_option (\<lambda>bs. char_of (a * 4 + b div 16) # char_of (b mod 16 * 16 + c div 4) #
       char_of (c mod 4 * 64 + d) # bs) (b64_bytes rest)"

definition b64_decode :: "string \<Rightarrow> string option" where
  "b64_decode s =
     (let cs = filter (\<lambda>c. c \<noteq> CHR 0x0A \<and> c \<noteq> CHR 0x0D) s; vs = map b64_value cs in
      if None \<in> set vs then None else b64_bytes (map the vs))"

lemma b64_alphabet_length: "length b64_alphabet = 64"
  by (simp add: b64_alphabet_def)

lemma b64_char_mem: "n < 64 \<Longrightarrow> b64_char n \<in> set b64_alphabet"
  unfolding b64_char_def by (intro nth_mem) (simp add: b64_alphabet_length)

lemma find_index_nth: "distinct xs \<Longrightarrow> n < length xs \<Longrightarrow> find_index (\<lambda>x. x = xs ! n) xs = Some n"
proof (induction xs arbitrary: n)
  case (Cons x xs)
  then show ?case by (cases n) (auto simp: nth_mem)
qed simp

lemma b64_value_char: "n < 64 \<Longrightarrow> b64_value (b64_char n) = Some n"
proof -
  have "distinct b64_alphabet" by (simp add: b64_alphabet_def)
  then show "n < 64 \<Longrightarrow> ?thesis"
    by (simp add: b64_value_def b64_char_def find_index_nth b64_alphabet_length)
qed

lemma b64_char_plain:
  assumes "n < 64"
  shows "b64_char n \<noteq> CHR 0x0A \<and> b64_char n \<noteq> CHR 0x0D \<and> b64_char n \<noteq> CHR ''.''"
proof -
  have "\<forall>c\<in>set b64_alphabet. c \<noteq> CHR 0x0A \<and> c \<noteq> CHR 0x0D \<and> c \<noteq> CHR ''.''"
    by (simp add: b64_alphabet_def)
  with b64_char_mem [OF assms] show ?thesis by blast
qed

lemma byte_less: "byte c < 256"
  by (rule nat_of_char_less_256)

lemma sextet_less:
  fixes x y z :: nat
  assumes "x < 256" and "y < 256" and "z < 256"
  shows "x div 4 < 64" and "x mod 4 * 16 < 64" and "x mod 4 * 16 + y div 16 < 64"
    and "y mod 16 * 4 < 64" and "y mod 16 * 4 + z div 64 < 64" and "z mod 64 < 64"
proof -
  have "y div 16 < 16" "z div 64 < 4" "x mod 4 < 4" "y mod 16 < 16" "x div 4 < 64"
    using assms by (simp_all add: less_mult_imp_div_less)
  then show "x div 4 < 64" and "x mod 4 * 16 < 64" and "x mod 4 * 16 + y div 16 < 64"
    and "y mod 16 * 4 < 64" and "y mod 16 * 4 + z div 64 < 64" and "z mod 64 < 64" by simp_all
qed

lemma sextet_split:
  fixes x y z :: nat
  assumes "y < 256" and "z < 256"
  shows "(x mod 4 * 16 + y div 16) div 16 = x mod 4" and "(x mod 4 * 16 + y div 16) mod 16 = y div 16"
    and "(y mod 16 * 4 + z div 64) div 4 = y mod 16" and "(y mod 16 * 4 + z div 64) mod 4 = z div 64"
proof -
  have "y div 16 < 16" "z div 64 < 4" using assms by (simp_all add: less_mult_imp_div_less)
  then show "(x mod 4 * 16 + y div 16) div 16 = x mod 4" and "(x mod 4 * 16 + y div 16) mod 16 = y div 16"
    and "(y mod 16 * 4 + z div 64) div 4 = y mod 16" and "(y mod 16 * 4 + z div 64) mod 4 = z div 64"
    by simp_all
qed

lemma high_bits: "byte y div 16 mod 16 = byte y div 16" "byte y div 64 mod 4 = byte y div 64"
  using byte_less [of y] by (simp_all add: less_mult_imp_div_less)

lemma b64_sextets_less: "n \<in> set (b64_sextets s) \<Longrightarrow> n < 64"
proof (induction s rule: b64_sextets.induct)
  case (2 a)
  then show ?case using sextet_less [OF byte_less [of a] byte_less [of a] byte_less [of a]] by auto
next
  case (3 a b)
  then show ?case using sextet_less [OF byte_less [of a] byte_less [of b] byte_less [of b]] by auto
next
  case (4 a b c rest)
  then show ?case using sextet_less [OF byte_less [of a] byte_less [of b] byte_less [of c]] by auto
qed simp

lemma b64_bytes_sextets: "b64_bytes (b64_sextets s) = Some s"
proof (induction s rule: b64_sextets.induct)
  case (3 a b)
  then show ?case by (simp add: sextet_split [OF byte_less byte_less] high_bits)
next
  case (4 a b c rest)
  then show ?case by (simp add: sextet_split [OF byte_less byte_less] high_bits)
qed simp_all

lemma b64_encode_plain: "c \<in> set (b64_encode s) \<Longrightarrow> c \<noteq> CHR 0x0A \<and> c \<noteq> CHR 0x0D \<and> c \<noteq> CHR ''.''"
  unfolding b64_encode_def using b64_char_plain b64_sextets_less by fastforce

lemma b64_roundtrip: "b64_decode (b64_encode s) = Some s"
proof -
  have plain: "filter (\<lambda>c. c \<noteq> CHR 0x0A \<and> c \<noteq> CHR 0x0D) (b64_encode s) = b64_encode s"
    using b64_encode_plain by (auto simp: filter_id_conv)
  have vals: "map b64_value (b64_encode s) = map Some (b64_sextets s)"
    by (auto simp: b64_encode_def dest: b64_sextets_less b64_value_char)
  have "None \<notin> set (map Some (b64_sextets s))" by auto
  then show ?thesis
    by (simp add: b64_decode_def Let_def plain vals o_def b64_bytes_sextets del: set_map)
qed

lemma b64_no_dot: "CHR ''.'' \<notin> set (b64_encode s)"
  using b64_encode_plain by blast


subsection \<open>Strings in JSON\<close>

text \<open>The length of the UTF-8 sequence at the head of a string; \<open>None\<close> where the head is not one,
  which the decoder reads as one byte of the replacement character.\<close>

definition cont :: "char \<Rightarrow> bool" where
  "cont c \<longleftrightarrow> 128 \<le> byte c \<and> byte c \<le> 191"

definition between :: "nat \<Rightarrow> nat \<Rightarrow> char \<Rightarrow> bool" where
  "between lo hi c \<longleftrightarrow> lo \<le> byte c \<and> byte c \<le> hi"

definition rune_len :: "string \<Rightarrow> nat option" where
  "rune_len s =
     (case s of
        [] \<Rightarrow> None
      | a # s1 \<Rightarrow>
          if byte a < 128 then Some 1
          else (case s1 of
              [] \<Rightarrow> None
            | b # s2 \<Rightarrow>
                if between 194 223 a \<and> cont b then Some 2
                else (case s2 of
                    [] \<Rightarrow> None
                  | c # s3 \<Rightarrow>
                      if (byte a = 224 \<and> between 160 191 b \<or> between 225 236 a \<and> cont b \<or>
                          byte a = 237 \<and> between 128 159 b \<or> between 238 239 a \<and> cont b) \<and> cont c
                      then Some 3
                      else (case s3 of
                          [] \<Rightarrow> None
                        | d # s4 \<Rightarrow>
                            if (byte a = 240 \<and> between 144 191 b \<or> between 241 243 a \<and> cont b \<or>
                                byte a = 244 \<and> between 128 143 b) \<and> cont c \<and> cont d
                            then Some 4 else None))))"

definition hex_lower :: "nat \<Rightarrow> char" where
  "hex_lower n = ''0123456789abcdef'' ! n"

definition json_char :: "char \<Rightarrow> string" where
  "json_char c =
     (let bs = CHR 0x5C in
      if c = CHR 0x22 \<or> c = bs then [bs, c]
      else if c = CHR 0x08 then [bs, CHR ''b'']
      else if c = CHR 0x0C then [bs, CHR ''f'']
      else if c = CHR 0x0A then [bs, CHR ''n'']
      else if c = CHR 0x0D then [bs, CHR ''r'']
      else if c = CHR 0x09 then [bs, CHR ''t'']
      else if byte c < 32 \<or> c = CHR ''<'' \<or> c = CHR ''>'' \<or> c = CHR 0x26
      then bs # ''u00'' @ [hex_lower (byte c div 16), hex_lower (byte c mod 16)]
      else [c])"

function json_body :: "string \<Rightarrow> string" where
  "json_body [] = []"
| "json_body (c # cs) =
     (if byte c < 128 then json_char c @ json_body cs
      else (case rune_len (c # cs) of
          None \<Rightarrow> CHR 0x5C # ''ufffd'' @ json_body cs
        | Some n \<Rightarrow>
            (if take n (c # cs) = [CHR 0xE2, CHR 0x80, CHR 0xA8] then CHR 0x5C # ''u2028''
             else if take n (c # cs) = [CHR 0xE2, CHR 0x80, CHR 0xA9] then CHR 0x5C # ''u2029''
             else take n (c # cs)) @ json_body (drop (n - 1) cs)))"
  by pat_completeness auto
termination by (relation "measure length") auto

definition json_string :: "string \<Rightarrow> string" where
  "json_string s = [CHR 0x22] @ json_body s @ [CHR 0x22]"

lemma rune_len_tail:
  assumes "rune_len (c # cs) = Some n" and "128 \<le> byte c"
  shows "\<forall>x\<in>set (take n (c # cs)). 128 \<le> byte x"
proof -
  have high: "cont x \<Longrightarrow> 128 \<le> byte x" "between 160 191 x \<Longrightarrow> 128 \<le> byte x"
    "between 128 159 x \<Longrightarrow> 128 \<le> byte x" "between 144 191 x \<Longrightarrow> 128 \<le> byte x"
    "between 128 143 x \<Longrightarrow> 128 \<le> byte x" for x
    by (simp_all add: cont_def between_def)
  from assms show ?thesis
    unfolding rune_len_def by (auto split: list.splits if_split_asm dest: high)
qed

lemma hex_lower_plain: "n < 16 \<Longrightarrow> hex_lower n \<in> set ''0123456789abcdef''"
  unfolding hex_lower_def by (intro nth_mem) simp

lemma hex_lower_line: "n < 16 \<Longrightarrow> hex_lower n \<noteq> CHR 0x0A"
proof
  assume "n < 16" and h: "hex_lower n = CHR 0x0A"
  from hex_lower_plain [OF this(1)] have "CHR 0x0A \<in> set ''0123456789abcdef''" unfolding h .
  then show False by simp
qed

lemma json_char_line: "CHR 0x0A \<notin> set (json_char c)"
proof -
  have "hex_lower (byte c div 16) \<noteq> CHR 0x0A"
    using byte_less [of c] by (intro hex_lower_line) (simp add: less_mult_imp_div_less)
  moreover have "hex_lower (byte c mod 16) \<noteq> CHR 0x0A"
    by (intro hex_lower_line) simp
  ultimately show ?thesis unfolding json_char_def Let_def by simp
qed

lemma json_body_line: "CHR 0x0A \<notin> set (json_body s)"
proof (induction s rule: json_body.induct)
  case (2 c cs)
  show ?case
  proof (cases "byte c < 128")
    case True
    with 2(1) json_char_line [of c] show ?thesis by simp
  next
    case False
    show ?thesis
    proof (cases "rune_len (c # cs)")
      case None
      with False 2(2) show ?thesis by simp
    next
      case (Some n)
      have "CHR 0x0A \<notin> set (take n (c # cs))"
        using rune_len_tail [OF Some] False by force
      with False Some 2(3) [OF False Some] show ?thesis by simp
    qed
  qed
qed simp

lemma json_string_line: "CHR 0x0A \<notin> set (json_string s)"
  by (simp add: json_string_def json_body_line)

declare json_body.simps(2) [simp del]

end
