(* ===== verification/Go_Json.thy ===== *)
theory Go_Json
  imports Go_Encoding
begin

section \<open>Reading JSON\<close>

text \<open>
  \<open>json.Unmarshal\<close> into a struct with scalar fields: tokens, the check of the syntax by a pushdown
  automaton with the depth limit of the library, and the fields of the top-level object in order, each
  with the first token of its value.
\<close>


subsection \<open>Strings\<close>

text \<open>The body of a string literal as units: a byte as it stands or by a one-letter escape, or the code
  of a \<open>\u\<close> escape.\<close>

datatype json_unit = Raw char | Code nat

definition hex_digit_value :: "char \<Rightarrow> nat option" where
  "hex_digit_value c =
     (if CHR ''0'' \<le> c \<and> c \<le> CHR ''9'' then Some (byte c - 48)
      else if CHR ''a'' \<le> c \<and> c \<le> CHR ''f'' then Some (byte c - 87)
      else if CHR ''A'' \<le> c \<and> c \<le> CHR ''F'' then Some (byte c - 55)
      else None)"

definition hex4 :: "char \<Rightarrow> char \<Rightarrow> char \<Rightarrow> char \<Rightarrow> nat option" where
  "hex4 a b c d =
     (case (hex_digit_value a, hex_digit_value b, hex_digit_value c, hex_digit_value d) of
        (Some w, Some x, Some y, Some z) \<Rightarrow> Some (((w * 16 + x) * 16 + y) * 16 + z)
      | _ \<Rightarrow> None)"

definition simple_escape :: "char \<Rightarrow> char option" where
  "simple_escape e =
     (if e = CHR 0x22 \<or> e = CHR 0x5C \<or> e = CHR ''/'' then Some e
      else if e = CHR ''b'' then Some (CHR 0x08) else if e = CHR ''f'' then Some (CHR 0x0C)
      else if e = CHR ''n'' then Some (CHR 0x0A) else if e = CHR ''r'' then Some (CHR 0x0D)
      else if e = CHR ''t'' then Some (CHR 0x09) else None)"

fun lex_string :: "string \<Rightarrow> (json_unit list \<times> string) option" where
  "lex_string [] = None"
| "lex_string (c # cs) =
     (if c = CHR 0x22 then Some ([], cs)
      else if c = CHR 0x5C then
        (case cs of
           [] \<Rightarrow> None
         | e # r \<Rightarrow>
             if e = CHR ''u'' then
               (case r of
                  w # x # y # z # r' \<Rightarrow>
                    (case hex4 w x y z of
                       None \<Rightarrow> None
                     | Some n \<Rightarrow> map_option (\<lambda>(us, t). (Code n # us, t)) (lex_string r'))
                | _ \<Rightarrow> None)
             else
               (case simple_escape e of
                  None \<Rightarrow> None
                | Some b \<Rightarrow> map_option (\<lambda>(us, t). (Raw b # us, t)) (lex_string r)))
      else if byte c < 32 then None
      else map_option (\<lambda>(us, t). (Raw c # us, t)) (lex_string cs))"

lemma lex_string_shorter: "lex_string s = Some (us, t) \<Longrightarrow> length t < length s"
proof (induction s arbitrary: us t rule: lex_string.induct)
  case (2 c cs)
  then show ?case
    by (fastforce split: if_splits list.splits option.splits)
qed simp

definition utf8_encode :: "nat \<Rightarrow> string" where
  "utf8_encode n =
     (if n < 128 then [char_of n]
      else if n < 2048 then [char_of (192 + n div 64), char_of (128 + n mod 64)]
      else if n < 65536 then
        [char_of (224 + n div 4096), char_of (128 + n div 64 mod 64), char_of (128 + n mod 64)]
      else [char_of (240 + n div 262144), char_of (128 + n div 4096 mod 64),
            char_of (128 + n div 64 mod 64), char_of (128 + n mod 64)])"

definition replacement :: string where
  "replacement = utf8_encode 65533"

fun raw_prefix :: "json_unit list \<Rightarrow> string" where
  "raw_prefix (Raw c # us) = c # raw_prefix us"
| "raw_prefix _ = []"

function unquote :: "json_unit list \<Rightarrow> string" where
  "unquote [] = []"
| "unquote (Raw c # us) =
     (if byte c < 128 then c # unquote us
      else (case rune_len (c # raw_prefix us) of
          None \<Rightarrow> replacement @ unquote us
        | Some n \<Rightarrow> take n (c # raw_prefix us) @ unquote (drop (n - 1) us)))"
| "unquote (Code n # us) =
     (case us of
        Code m # us' \<Rightarrow>
          if 55296 \<le> n \<and> n < 56320 \<and> 56320 \<le> m \<and> m < 57344
          then utf8_encode (65536 + (n - 55296) * 1024 + (m - 56320)) @ unquote us'
          else if 55296 \<le> n \<and> n < 57344 then replacement @ unquote us
          else utf8_encode n @ unquote us
      | _ \<Rightarrow>
          if 55296 \<le> n \<and> n < 57344 then replacement @ unquote us
          else utf8_encode n @ unquote us)"
  by pat_completeness auto
termination by (relation "measure length") auto


subsection \<open>Tokens\<close>

datatype json_token =
    T_open_obj | T_close_obj | T_open_arr | T_close_arr | T_colon | T_comma
  | T_string string | T_number string | T_true | T_false | T_null

definition json_space :: "char \<Rightarrow> bool" where
  "json_space c \<longleftrightarrow> c = CHR '' '' \<or> c = CHR 0x09 \<or> c = CHR 0x0A \<or> c = CHR 0x0D"

definition number_char :: "char \<Rightarrow> bool" where
  "number_char c \<longleftrightarrow> is_digit c \<or> c = CHR ''-'' \<or> c = CHR ''+'' \<or> c = CHR ''.'' \<or> c = CHR ''e'' \<or> c = CHR ''E''"

definition exp_ok :: "string \<Rightarrow> bool" where
  "exp_ok s =
     (case s of
        [] \<Rightarrow> True
      | e # r \<Rightarrow> (e = CHR ''e'' \<or> e = CHR ''E'') \<and>
          (let d = (case r of c # r' \<Rightarrow> if c = CHR ''+'' \<or> c = CHR ''-'' then r' else r | [] \<Rightarrow> [])
           in d \<noteq> [] \<and> list_all is_digit d))"

definition frac_ok :: "string \<Rightarrow> bool" where
  "frac_ok s =
     (case s of
        c # r \<Rightarrow> if c = CHR ''.'' then takeWhile is_digit r \<noteq> [] \<and> exp_ok (dropWhile is_digit r) else exp_ok s
      | [] \<Rightarrow> True)"

definition number_ok :: "string \<Rightarrow> bool" where
  "number_ok s =
     (case (case s of c # r \<Rightarrow> if c = CHR ''-'' then r else s | [] \<Rightarrow> []) of
        [] \<Rightarrow> False
      | c # r \<Rightarrow> if c = CHR ''0'' then frac_ok r
                 else is_digit c \<and> frac_ok (dropWhile is_digit r))"

definition punct :: "char \<Rightarrow> json_token option" where
  "punct c =
     (if c = CHR ''{'' then Some T_open_obj else if c = CHR ''}'' then Some T_close_obj
      else if c = CHR ''['' then Some T_open_arr else if c = CHR '']'' then Some T_close_arr
      else if c = CHR '':'' then Some T_colon else if c = CHR '','' then Some T_comma else None)"

definition literal :: "string \<Rightarrow> (json_token \<times> nat) option" where
  "literal s =
     (if prefix ''true'' s then Some (T_true, 4) else if prefix ''false'' s then Some (T_false, 5)
      else if prefix ''null'' s then Some (T_null, 4) else None)"

function lex_json :: "string \<Rightarrow> json_token list option" where
  "lex_json [] = Some []"
| "lex_json (c # cs) =
     (if json_space c then lex_json cs
      else (case punct c of
          Some t \<Rightarrow> map_option (\<lambda>ts. t # ts) (lex_json cs)
        | None \<Rightarrow>
            if c = CHR 0x22 then
              (case lex_string cs of
                 None \<Rightarrow> None
               | Some (us, rest) \<Rightarrow> map_option (\<lambda>ts. T_string (unquote us) # ts) (lex_json rest))
            else if number_char c then
              (let w = takeWhile number_char (c # cs) in
               if number_ok w then map_option (\<lambda>ts. T_number w # ts) (lex_json (dropWhile number_char cs))
               else None)
            else
              (case literal (c # cs) of
                 None \<Rightarrow> None
               | Some (t, n) \<Rightarrow> map_option (\<lambda>ts. t # ts) (lex_json (drop (n - 1) cs)))))"
  by pat_completeness auto
termination
  by (relation "measure length")
    (auto dest: lex_string_shorter simp: le_imp_less_Suc length_dropWhile_le)

declare lex_json.simps [simp del]

lemma lex_json_Nil [simp]: "lex_json [] = Some []"
  by (simp add: lex_json.simps)

lemma lex_json_punct:
  "punct c = Some t \<Longrightarrow> lex_json (c # cs) = map_option (\<lambda>ts. t # ts) (lex_json cs)"
  by (subst lex_json.simps) (auto simp: json_space_def punct_def split: if_splits)

lemma lex_json_quote:
  "lex_json (CHR 0x22 # cs) =
     (case lex_string cs of
        None \<Rightarrow> None
      | Some (us, rest) \<Rightarrow> map_option (\<lambda>ts. T_string (unquote us) # ts) (lex_json rest))"
  by (subst lex_json.simps) (simp add: json_space_def punct_def)


subsection \<open>Syntax\<close>

datatype json_want = W_value | W_value_or_end | W_key_or_end | W_key | W_colon | W_after

datatype json_frame = F_obj | F_arr

definition max_depth :: nat where "max_depth = 10000"

definition want_value :: "json_frame list \<Rightarrow> json_token \<Rightarrow> (json_want \<times> json_frame list) option" where
  "want_value st t =
     (case t of
        T_open_obj \<Rightarrow> if length st < max_depth then Some (W_key_or_end, F_obj # st) else None
      | T_open_arr \<Rightarrow> if length st < max_depth then Some (W_value_or_end, F_arr # st) else None
      | T_string s \<Rightarrow> Some (W_after, st)
      | T_number n \<Rightarrow> Some (W_after, st)
      | T_true \<Rightarrow> Some (W_after, st)
      | T_false \<Rightarrow> Some (W_after, st)
      | T_null \<Rightarrow> Some (W_after, st)
      | _ \<Rightarrow> None)"

definition is_key :: "json_token \<Rightarrow> bool" where
  "is_key t = (case t of T_string s \<Rightarrow> True | _ \<Rightarrow> False)"

fun json_step :: "json_want \<times> json_frame list \<Rightarrow> json_token \<Rightarrow> (json_want \<times> json_frame list) option" where
  "json_step (W_value, st) t = want_value st t"
| "json_step (W_value_or_end, st) t = (if t = T_close_arr then Some (W_after, tl st) else want_value st t)"
| "json_step (W_key_or_end, st) t =
     (if t = T_close_obj then Some (W_after, tl st) else if is_key t then Some (W_colon, st) else None)"
| "json_step (W_key, st) t = (if is_key t then Some (W_colon, st) else None)"
| "json_step (W_colon, st) t = (if t = T_colon then Some (W_value, st) else None)"
| "json_step (W_after, []) t = None"
| "json_step (W_after, F_obj # st) t =
     (if t = T_comma then Some (W_key, F_obj # st) else if t = T_close_obj then Some (W_after, st) else None)"
| "json_step (W_after, F_arr # st) t =
     (if t = T_comma then Some (W_value, F_arr # st) else if t = T_close_arr then Some (W_after, st) else None)"

fun json_run :: "json_want \<times> json_frame list \<Rightarrow> json_token list \<Rightarrow> (json_want \<times> json_frame list) option" where
  "json_run q [] = Some q"
| "json_run q (t # ts) = (case json_step q t of None \<Rightarrow> None | Some q' \<Rightarrow> json_run q' ts)"

definition json_valid :: "json_token list \<Rightarrow> bool" where
  "json_valid ts \<longleftrightarrow> json_run (W_value, []) ts = Some (W_after, [])"

text \<open>The fields of the top-level object; \<open>d\<close> counts the objects and arrays open inside it.\<close>

fun obj_fields :: "nat \<Rightarrow> string option \<Rightarrow> json_token list \<Rightarrow> (string \<times> json_token) list" where
  "obj_fields d key [] = []"
| "obj_fields (Suc d) key (t # ts) =
     obj_fields (if t \<in> {T_open_obj, T_open_arr} then Suc (Suc d)
                 else if t \<in> {T_close_obj, T_close_arr} then d else Suc d) None ts"
| "obj_fields 0 None (t # ts) =
     obj_fields 0 (case t of T_string k \<Rightarrow> Some k | _ \<Rightarrow> None) ts"
| "obj_fields 0 (Some k) (t # ts) =
     (if t = T_colon then obj_fields 0 (Some k) ts
      else (k, t) # obj_fields (if t \<in> {T_open_obj, T_open_arr} then 1 else 0) None ts)"

text \<open>\<open>None\<close> is a syntax error or a top-level value that is neither an object nor \<open>null\<close>, which sets no
  field.\<close>

definition json_fields :: "string \<Rightarrow> (string \<times> json_token) list option" where
  "json_fields s =
     (case lex_json s of
        None \<Rightarrow> None
      | Some ts \<Rightarrow>
          if \<not> json_valid ts then None
          else if hd ts = T_open_obj then Some (obj_fields 0 None (tl ts))
          else if hd ts = T_null then Some [] else None)"


subsection \<open>Reading what was written\<close>

definition json_plain :: "char \<Rightarrow> bool" where
  "json_plain c \<longleftrightarrow> 32 \<le> byte c \<and> byte c < 128 \<and> c \<noteq> CHR 0x22 \<and> c \<noteq> CHR 0x5C
     \<and> c \<noteq> CHR ''<'' \<and> c \<noteq> CHR ''>'' \<and> c \<noteq> CHR 0x26"

lemma json_char_plain:
  assumes "json_plain c"
  shows "json_char c = [c]" and "byte c < 128"
proof -
  have "c \<noteq> x" if "byte x < 32" for x using assms that by (auto simp: json_plain_def)
  from this [of "CHR 0x08"] this [of "CHR 0x0C"] this [of "CHR 0x0A"] this [of "CHR 0x0D"] this [of "CHR 0x09"]
  show "json_char c = [c]" using assms by (simp add: json_char_def Let_def json_plain_def)
  show "byte c < 128" using assms by (simp add: json_plain_def)
qed

lemma json_body_plain: "\<forall>c\<in>set s. json_plain c \<Longrightarrow> json_body s = s"
  by (induction s) (simp_all add: json_char_plain json_body.simps(2))

lemma lex_string_plain:
  "\<forall>c\<in>set s. json_plain c \<Longrightarrow> lex_string (s @ CHR 0x22 # rest) = Some (map Raw s, rest)"
  by (induction s) (auto simp: json_plain_def)

lemma unquote_plain: "\<forall>c\<in>set s. json_plain c \<Longrightarrow> unquote (map Raw s) = s"
  by (induction s) (auto simp: json_plain_def)

lemma lex_json_string:
  "\<forall>c\<in>set s. json_plain c \<Longrightarrow>
     lex_json (json_string s @ rest) = map_option (\<lambda>ts. T_string s # ts) (lex_json rest)"
  by (simp add: json_string_def json_body_plain lex_json_quote lex_string_plain unquote_plain)

lemma number_char_plain: "number_char c \<Longrightarrow> \<not> json_space c \<and> punct c = None \<and> c \<noteq> CHR 0x22"
proof (cases "is_digit c")
  case True
  have "\<not> is_digit x" if "x \<in> set (''{}[]:, '' @ [CHR 0x09, CHR 0x0A, CHR 0x0D, CHR 0x22])" for x
    using that by (auto simp: is_digit_def less_eq_char_def)
  with True have "c \<notin> set (''{}[]:, '' @ [CHR 0x09, CHR 0x0A, CHR 0x0D, CHR 0x22])" by blast
  then show ?thesis by (simp add: json_space_def punct_def)
next
  case False
  assume "number_char c"
  with False have "c \<in> {CHR ''-'', CHR ''+'', CHR ''.'', CHR ''e'', CHR ''E''}" by (simp add: number_char_def)
  then show ?thesis by (elim insertE emptyE) (simp_all add: json_space_def punct_def)
qed

lemma lex_json_number:
  assumes "number_ok w" and "\<forall>c\<in>set w. number_char c" and "rest = [] \<or> \<not> number_char (hd rest)"
  shows "lex_json (w @ rest) = map_option (\<lambda>ts. T_number w # ts) (lex_json rest)"
proof -
  obtain c cs where w: "w = c # cs" using assms(1) by (cases w) (auto simp: number_ok_def)
  have "takeWhile number_char rest = []" "dropWhile number_char rest = rest"
    using assms(3) by (cases rest; simp)+
  with assms(2) w have "takeWhile number_char cs @ takeWhile number_char rest = cs"
    "takeWhile number_char (cs @ rest) = cs" "dropWhile number_char (cs @ rest) = rest"
    by (simp_all add: takeWhile_eq_all_conv [THEN iffD2])
  moreover from number_char_plain [of c] assms(2) w
  have "\<not> json_space c" "punct c = None" "c \<noteq> CHR 0x22" "number_char c" by simp_all
  ultimately show ?thesis
    using assms(1) unfolding w by (simp add: lex_json.simps(2) Let_def)
qed

lemma number_ok_dec: "number_ok (dec n)"
proof (cases "n = 0")
  case True
  have "number_ok (dec 0)" by code_simp
  with True show ?thesis by simp
next
  case False
  obtain c cs where d: "dec n = c # cs" by (cases "dec n") auto
  have "c \<noteq> CHR ''0''" "is_digit c" using dec_head [of n] dec_head_digit [of n] False d by auto
  moreover have "\<forall>x\<in>set cs. is_digit x" using dec_digits [of _ n] d by auto
  then have "dropWhile is_digit cs = []" by (simp add: dropWhile_eq_Nil_conv)
  moreover have "c \<noteq> CHR ''-''" using \<open>is_digit c\<close> by (auto simp: is_digit_def less_eq_char_def)
  ultimately show ?thesis by (simp add: d number_ok_def frac_ok_def del: dropWhile_eq_Nil_conv)
qed

lemma number_ok_dec_int: "number_ok (dec_int i)"
proof -
  have "hd (dec m) \<noteq> CHR ''-''" for m
    using dec_head_digit [of m] by (auto simp: is_digit_def less_eq_char_def)
  moreover have "number_ok (CHR ''-'' # w)" if "number_ok w" "hd w \<noteq> CHR ''-''" for w
    using that by (cases w) (simp_all add: number_ok_def)
  ultimately have "number_ok (CHR ''-'' # dec m)" for m using number_ok_dec by blast
  then show ?thesis by (simp add: dec_int_def number_ok_dec)
qed

lemma number_chars_dec_int: "c \<in> set (dec_int i) \<Longrightarrow> number_char c"
  by (auto simp: dec_int_def number_char_def split: if_splits dest: dec_digits)

end
