(* ===== verification/Serial.thy ===== *)
theory Serial
  imports Prelude
begin

section \<open>SOA serial policies\<close>

text \<open>
  The model of \<open>internal/zone/serial.go\<close>: the three policies by which a deploy advances the
  serial of a zone. A serial is a \<open>uint32\<close>, so \<open>+\<close> wraps as it does in Go. A Go
  \<open>time.Time\<close> enters by what the code reads of it: \<open>now.Unix()\<close> and \<open>now.Date()\<close>.
\<close>

record go_time =
  unix_sec :: int
  year :: int
  month :: int
  day :: int

type_synonym serial_policy = string

definition SerialDate :: serial_policy where "SerialDate = ''date''"
definition SerialUnixtime :: serial_policy where "SerialUnixtime = ''unixtime''"
definition SerialIncrement :: serial_policy where "SerialIncrement = ''increment''"

definition date_serial :: "go_time \<Rightarrow> u32" where
  "date_serial now =
     word_of_int (year now) * 1000000 + word_of_int (month now) * 10000 + word_of_int (day now) * 100"

definition next_serial :: "serial_policy \<Rightarrow> u32 \<Rightarrow> go_time \<Rightarrow> u32" where
  "next_serial policy current now =
     (if policy = SerialUnixtime then
        (let n = word_of_int (unix_sec now) in if n \<le> current then current + 1 else n)
      else if policy = SerialIncrement then current + 1
      else
        (let base = date_serial now in if current < base then base else current + 1))"


subsection \<open>Wrap-around of the increment\<close>

lemma u32_succ_greater_iff: "(current :: u32) < current + 1 \<longleftrightarrow> current \<noteq> - 1"
  using inc_less_eq_self_iff_eq by (metis less_le not_less)

lemma next_serial_cases:
  obtains (succ) "next_serial policy current now = current + 1"
  | (jump) "current < next_serial policy current now"
proof -
  have "next_serial policy current now = current + 1 \<or> current < next_serial policy current now"
    by (simp add: next_serial_def Let_def not_le)
  with that show thesis by blast
qed

lemma next_serial_jump_max: "\<not> (- 1 :: u32) < x"
  by (simp add: not_less)

lemma next_serial_max: "next_serial policy (- 1) now = 0"
  by (rule next_serial_cases [of policy "- 1" now]) (auto simp: next_serial_jump_max)

text \<open>
  C32: Under every policy and at every time the next serial is strictly larger than the current
  one, except at 2^32 - 1, where it wraps to 0.
\<close>
theorem next_serial_strictly_larger_iff:
  "current < next_serial policy current now \<longleftrightarrow> current \<noteq> - 1"
  by (rule next_serial_cases [of policy current now])
     (auto simp: u32_succ_greater_iff next_serial_jump_max)


subsection \<open>Date serials\<close>

text \<open>The dates the calendar has, in the years whose serials fit 32 bits.\<close>

definition date_ok :: "go_time \<Rightarrow> bool" where
  "date_ok now \<longleftrightarrow> 0 \<le> year now \<and> year now \<le> 4293 \<and> 1 \<le> month now \<and> month now \<le> 12
     \<and> 1 \<le> day now \<and> day now \<le> 31"

definition date_number :: "go_time \<Rightarrow> int" where
  "date_number now = year now * 1000000 + month now * 10000 + day now * 100"

lemma date_serial_word: "date_serial now = word_of_int (date_number now)"
  by (simp add: date_serial_def date_number_def)

lemma uint_date_serial: "date_ok now \<Longrightarrow> uint (date_serial now) = date_number now"
  unfolding date_serial_word
  by (subst uint_word_of_int_eq, subst take_bit_int_eq_self) (auto simp: date_ok_def date_number_def)

definition earlier_day :: "go_time \<Rightarrow> go_time \<Rightarrow> bool" where
  "earlier_day a b \<longleftrightarrow> year a < year b \<or> year a = year b \<and>
     (month a < month b \<or> month a = month b \<and> day a < day b)"

text \<open>
  Up to the year 4293 the date serials of two days are in the order of the days, so the first
  deploy of a later day always gets a larger serial.
\<close>
theorem date_serial_calendar_order:
  assumes "date_ok a" and "date_ok b"
  shows "date_serial a < date_serial b \<longleftrightarrow> earlier_day a b"
proof -
  have "date_serial a < date_serial b \<longleftrightarrow> date_number a < date_number b"
    using assms by (simp add: word_less_def uint_date_serial)
  also have "\<dots> \<longleftrightarrow> earlier_day a b"
    using assms unfolding date_ok_def date_number_def earlier_day_def by arith
  finally show ?thesis .
qed


subsection \<open>Serial arithmetic of the nameserver\<close>

text \<open>
  A nameserver compares serials by RFC 1982: \<open>new\<close> is newer than \<open>old\<close> when it is ahead of it
  by less than half of the 32-bit circle.
\<close>

definition rfc1982_newer :: "u32 \<Rightarrow> u32 \<Rightarrow> bool" where
  "rfc1982_newer new old \<longleftrightarrow> new \<noteq> old \<and> unat (new - old) < 2 ^ 31"

lemma rfc1982_succ: "rfc1982_newer (current + 1) current"
  by (simp add: rfc1982_newer_def)

lemma rfc1982_below_half:
  assumes "current < new" and "unat new < 2 ^ 31"
  shows "rfc1982_newer new current"
proof -
  have "unat (new - current) = unat new - unat current"
    using assms(1) by (simp add: unat_sub less_imp_le)
  with assms show ?thesis by (auto simp: rfc1982_newer_def)
qed

lemma next_serial_jump_value:
  assumes "next_serial policy current now \<noteq> current + 1"
  shows "next_serial policy current now \<in> {date_serial now, word_of_int (unix_sec now)}"
  using assms by (auto simp: next_serial_def Let_def split: if_splits)

lemma u32_uint_below: "uint (x :: u32) < 2147483648 \<Longrightarrow> unat x < 2147483648"
  by (metis uint_nat of_nat_less_numeral_iff)

lemma unix_serial_below_half:
  assumes "0 \<le> i" and "i < 2 ^ 31"
  shows "unat (word_of_int i :: u32) < 2 ^ 31"
proof -
  have "uint (word_of_int i :: u32) = i"
    using assms by (simp add: uint_word_of_int_eq take_bit_int_eq_self)
  with assms(2) have "uint (word_of_int i :: u32) < 2147483648" by simp
  then have "unat (word_of_int i :: u32) < 2147483648" by (rule u32_uint_below)
  then show ?thesis by simp
qed

lemma date_serial_below_half:
  assumes "date_ok now" and "year now \<le> 2147"
  shows "unat (date_serial now) < 2 ^ 31"
proof -
  have "uint (date_serial now) < 2 ^ 31"
    using assms by (simp add: uint_date_serial) (simp add: date_ok_def date_number_def)
  then have "uint (date_serial now) < 2147483648" by simp
  then have "unat (date_serial now) < 2147483648" by (rule u32_uint_below)
  then show ?thesis by simp
qed

text \<open>
  In the serial arithmetic of RFC 1982 by which secondaries compare, the next serial is newer
  than the current one under every policy, for every current serial, while the date is at most in
  the year 2147 and the Unix time below 2^31.
\<close>
theorem next_serial_rfc1982_newer:
  assumes "date_ok now" and "year now \<le> 2147" and "0 \<le> unix_sec now" and "unix_sec now < 2 ^ 31"
  shows "rfc1982_newer (next_serial policy current now) current"
proof (cases "next_serial policy current now = current + 1")
  case True
  then show ?thesis by (simp add: rfc1982_succ)
next
  case False
  have "unat (word_of_int (unix_sec now) :: u32) < 2 ^ 31"
    using assms(3,4) by (rule unix_serial_below_half)
  with next_serial_jump_value [OF False] date_serial_below_half [OF assms(1,2)]
  have "unat (next_serial policy current now) < 2 ^ 31" by auto
  moreover have "current < next_serial policy current now"
    using False by (auto intro: next_serial_cases [of policy current now])
  ultimately show ?thesis by (blast intro: rfc1982_below_half)
qed

end
