(* ===== verification/Session.thy ===== *)
theory Session
  imports Go_Json Serial
begin

section \<open>Sessions\<close>

text \<open>
  The model of \<open>internal/web/session.go\<close>. A session travels in a cookie as its JSON text in base 64, a
  dot, and the base-64 text of an HMAC over the part before the dot. \<open>hmac\<close> is HMAC-SHA256 under the
  cookie key of the server, a function on byte strings that the code uses as it is. The random source
  gives the bytes of the CSRF token.
\<close>

record session =
  se_authed :: bool
  se_expiry :: int
  se_csrf :: string

definition sessionCookieName :: string where "sessionCookieName = ''mrdns_session''"

definition sessionTTL :: int where "sessionTTL = 12 * 3600"

definition session_valid :: "go_time \<Rightarrow> session \<Rightarrow> bool" where
  "session_valid now s \<longleftrightarrow> unix_sec now < se_expiry s"

definition newCSRF :: "(nat \<Rightarrow> char) \<Rightarrow> string" where
  "newCSRF random = b64_encode (map random [0..<32])"

definition newSession :: "bool \<Rightarrow> go_time \<Rightarrow> (nat \<Rightarrow> char) \<Rightarrow> session" where
  "newSession authed now random =
     \<lparr>se_authed = authed, se_expiry = unix_sec now + sessionTTL, se_csrf = newCSRF random\<rparr>"


subsection \<open>The payload\<close>

text \<open>\<open>json.Marshal\<close> of the struct; \<open>json.Unmarshal\<close> into it: the fields in the order of the text, names
  compared without regard to case, \<open>null\<close> and unknown names ignored, a value of the wrong type an error.\<close>

definition json_key :: "string \<Rightarrow> string" where
  "json_key k = [CHR 0x22] @ k @ [CHR 0x22, CHR '':'']"

definition marshal_session :: "session \<Rightarrow> string" where
  "marshal_session s =
     [CHR ''{''] @ json_key ''a'' @ (if se_authed s then ''true'' else ''false'') @ [CHR '','']
     @ json_key ''e'' @ dec_int (se_expiry s) @ [CHR '','']
     @ json_key ''c'' @ json_string (se_csrf s) @ [CHR ''}'']"

definition set_session_field :: "string \<times> json_token \<Rightarrow> session option \<Rightarrow> session option" where
  "set_session_field = (\<lambda>(k, t) so. case so of
       None \<Rightarrow> None
     | Some s \<Rightarrow>
         if t = T_null then Some s
         else if k = ''a'' \<or> k = ''A'' then
           (case t of T_true \<Rightarrow> Some (s\<lparr>se_authed := True\<rparr>) | T_false \<Rightarrow> Some (s\<lparr>se_authed := False\<rparr>)
            | _ \<Rightarrow> None)
         else if k = ''e'' \<or> k = ''E'' then
           (case t of
              T_number w \<Rightarrow>
                (case parse_int64 w of (n, None) \<Rightarrow> Some (s\<lparr>se_expiry := n\<rparr>) | (n, Some err) \<Rightarrow> None)
            | _ \<Rightarrow> None)
         else if k = ''c'' \<or> k = ''C'' then
           (case t of T_string w \<Rightarrow> Some (s\<lparr>se_csrf := w\<rparr>) | _ \<Rightarrow> None)
         else Some s)"

definition unmarshal_session :: "string \<Rightarrow> session option" where
  "unmarshal_session payload =
     (case json_fields payload of
        None \<Rightarrow> None
      | Some fs \<Rightarrow>
          fold set_session_field fs (Some \<lparr>se_authed = False, se_expiry = 0, se_csrf = []\<rparr>))"


subsection \<open>The cookie value\<close>

definition mac :: "(string \<Rightarrow> string) \<Rightarrow> string \<Rightarrow> string" where
  "mac hmac data = b64_encode (hmac data)"

definition signSession :: "(string \<Rightarrow> string) \<Rightarrow> session \<Rightarrow> string" where
  "signSession hmac s =
     (let enc = b64_encode (marshal_session s) in enc @ ''.'' @ mac hmac enc)"

text \<open>\<open>strings.Cut\<close>\<close>

definition str_cut :: "char \<Rightarrow> string \<Rightarrow> (string \<times> string) option" where
  "str_cut c s = map_option (\<lambda>i. (take i s, drop (i + 1) s)) (find_index (\<lambda>x. x = c) s)"

definition parseSession :: "(string \<Rightarrow> string) \<Rightarrow> go_time \<Rightarrow> string \<Rightarrow> session option" where
  "parseSession hmac now value =
     (case str_cut (CHR ''.'') value of
        None \<Rightarrow> None
      | Some (enc, m) \<Rightarrow>
          if m \<noteq> mac hmac enc then None
          else (case b64_decode enc of
                  None \<Rightarrow> None
                | Some payload \<Rightarrow>
                    (case unmarshal_session payload of
                       None \<Rightarrow> None
                     | Some s \<Rightarrow> if \<not> session_valid now s then None else Some s)))"

record cookie =
  ck_name :: string
  ck_value :: string
  ck_secure :: bool
  ck_http_only :: bool
  ck_expires :: "int option"

definition setSession :: "(string \<Rightarrow> string) \<Rightarrow> bool \<Rightarrow> session \<Rightarrow> cookie" where
  "setSession hmac secure s =
     \<lparr>ck_name = sessionCookieName, ck_value = signSession hmac s, ck_secure = secure,
      ck_http_only = True, ck_expires = Some (se_expiry s)\<rparr>"

text \<open>\<open>MaxAge: -1\<close> makes the browser drop the cookie: expired at time 0.\<close>

definition clearSession :: "bool \<Rightarrow> cookie" where
  "clearSession secure =
     \<lparr>ck_name = sessionCookieName, ck_value = [], ck_secure = secure, ck_http_only = True,
      ck_expires = Some 0\<rparr>"


subsection \<open>What a session survives, and what it takes to have one\<close>

lemma str_cut_no: "c \<notin> set a \<Longrightarrow> str_cut c (a @ c # b) = Some (a, b)"
proof -
  assume "c \<notin> set a"
  then have "find_index (\<lambda>x. x = c) (a @ c # b) = Some (length a)" by (induction a) auto
  then show ?thesis by (simp add: str_cut_def)
qed

lemma str_cut_Some:
  assumes "str_cut c s = Some (a, b)"
  shows "s = a @ c # b" and "c \<notin> set a"
proof -
  obtain i where i: "find_index (\<lambda>x. x = c) s = Some i" "a = take i s" "b = drop (i + 1) s"
    using assms by (auto simp: str_cut_def)
  from find_index_Some [OF i(1)] have "i < length s" "s ! i = c" "\<forall>j<i. s ! j \<noteq> c" by auto
  then show "s = a @ c # b" and "c \<notin> set a"
    using i(2,3) by (auto simp: id_take_nth_drop [symmetric] in_set_conv_nth)
qed

lemma lex_true: "lex_json (CHR ''t'' # CHR ''r'' # CHR ''u'' # CHR ''e'' # cs) = map_option (\<lambda>ts. T_true # ts) (lex_json cs)"
  by (subst lex_json.simps)
    (simp add: json_space_def punct_def number_char_def is_digit_def less_eq_char_def literal_def)

lemma lex_false:
  "lex_json (CHR ''f'' # CHR ''a'' # CHR ''l'' # CHR ''s'' # CHR ''e'' # cs) =
     map_option (\<lambda>ts. T_false # ts) (lex_json cs)"
  by (subst lex_json.simps)
    (simp add: json_space_def punct_def number_char_def is_digit_def less_eq_char_def literal_def)

lemma lex_key:
  "json_plain k \<Longrightarrow> lex_json (json_key [k] @ cs) = map_option (\<lambda>ts. T_string [k] # T_colon # ts) (lex_json cs)"
  using lex_json_string [of "[k]" "CHR '':'' # cs"] json_body_plain [of "[k]"]
  by (simp add: json_key_def json_string_def lex_json_punct [of _ T_colon] punct_def
      option.map_comp o_def)

lemma lex_session:
  assumes "\<forall>c\<in>set (se_csrf s). json_plain c"
  shows "lex_json (marshal_session s) = Some
    [T_open_obj, T_string ''a'', T_colon, if se_authed s then T_true else T_false, T_comma,
     T_string ''e'', T_colon, T_number (dec_int (se_expiry s)), T_comma,
     T_string ''c'', T_colon, T_string (se_csrf s), T_close_obj]"
proof -
  have punct: "punct (CHR ''{'') = Some T_open_obj" "punct (CHR ''}'') = Some T_close_obj"
    "punct (CHR '','') = Some T_comma" by (simp_all add: punct_def)
  have close: "lex_json [CHR ''}''] = Some [T_close_obj]"
    by (simp add: lex_json_punct [OF punct(2)])
  have c: "lex_json (json_key ''c'' @ json_string (se_csrf s) @ [CHR ''}'']) =
      Some [T_string ''c'', T_colon, T_string (se_csrf s), T_close_obj]"
    by (simp add: lex_key json_plain_def lex_json_string [OF assms] close)
  have num: "\<not> number_char (CHR '','')" by (simp add: number_char_def is_digit_def less_eq_char_def)
  have e: "lex_json (json_key ''e'' @ dec_int (se_expiry s) @ CHR '','' # rest) =
      map_option (\<lambda>ts. T_string ''e'' # T_colon # T_number (dec_int (se_expiry s)) # T_comma # ts) (lex_json rest)" for rest
    using number_chars_dec_int num
    by (simp add: lex_key json_plain_def lex_json_number [OF number_ok_dec_int] lex_json_punct [OF punct(3)]
        option.map_comp o_def)
  have a: "lex_json (json_key ''a'' @ (if se_authed s then ''true'' else ''false'') @ CHR '','' # rest) =
      map_option (\<lambda>ts. T_string ''a'' # T_colon # (if se_authed s then T_true else T_false) # T_comma # ts) (lex_json rest)" for rest
    by (simp add: lex_key json_plain_def lex_true lex_false lex_json_punct [OF punct(3)] option.map_comp o_def)
  show ?thesis
    using a [of "json_key ''e'' @ dec_int (se_expiry s) @ CHR '','' # json_key ''c'' @ json_string (se_csrf s) @ [CHR ''}'']"]
    by (simp add: marshal_session_def lex_json_punct [OF punct(1)] e c)
qed

lemma unmarshal_marshal:
  assumes "\<forall>c\<in>set (se_csrf s). json_plain c" and "- (2 ^ 63) \<le> se_expiry s" and "se_expiry s < 2 ^ 63"
  shows "unmarshal_session (marshal_session s) = Some s"
proof -
  have "json_fields (marshal_session s) = Some
      [(''a'', if se_authed s then T_true else T_false), (''e'', T_number (dec_int (se_expiry s))),
       (''c'', T_string (se_csrf s))]"
    by (simp add: json_fields_def lex_session [OF assms(1)] json_valid_def want_value_def max_depth_def is_key_def)
  then show ?thesis
    using parse_int64_dec_int [OF assms(2,3)]
    by (simp add: unmarshal_session_def set_session_field_def)
qed

lemma b64_json_plain: "c \<in> set (b64_encode s) \<Longrightarrow> json_plain c"
proof -
  have "\<forall>c\<in>set b64_alphabet. json_plain c" by (simp add: b64_alphabet_def json_plain_def)
  then show "c \<in> set (b64_encode s) \<Longrightarrow> json_plain c"
    using b64_sextets_less b64_char_mem by (fastforce simp: b64_encode_def)
qed

lemma parse_sign:
  assumes "unmarshal_session (marshal_session s) = Some s"
  shows "parseSession hmac now (signSession hmac s) = (if session_valid now s then Some s else None)"
  using assms str_cut_no [OF b64_no_dot]
  by (simp add: parseSession_def signSession_def Let_def b64_roundtrip)

text \<open>
  C38: The cookie value of a new session reads back, under the same key, as exactly that session
  for twelve hours, and as no session from then on.
\<close>
theorem session_lives_twelve_hours:
  assumes "0 \<le> unix_sec now" and "unix_sec now < 2 ^ 62"
  shows "parseSession hmac later (signSession hmac (newSession authed now random)) =
    (if unix_sec later < unix_sec now + 12 * 3600 then Some (newSession authed now random) else None)"
proof -
  have "unmarshal_session (marshal_session (newSession authed now random)) = Some (newSession authed now random)"
    using assms by (intro unmarshal_marshal)
      (auto simp: newSession_def newCSRF_def sessionTTL_def dest: b64_json_plain)
  from parse_sign [OF this, of hmac later] show ?thesis
    by (simp add: session_valid_def newSession_def sessionTTL_def)
qed

theorem session_lives_twelve_hours_witness:
  "parseSession (\<lambda>d. rev d) \<lparr>unix_sec = 1000, year = 1970, month = 1, day = 1\<rparr>
     (signSession (\<lambda>d. rev d) (newSession True \<lparr>unix_sec = 900, year = 1970, month = 1, day = 1\<rparr> (\<lambda>_. CHR ''x''))) \<noteq> None"
  by (subst session_lives_twelve_hours) simp_all

lemma session_needs_signature:
  assumes "parseSession hmac now value = Some s"
  shows "\<exists>enc payload. value = enc @ ''.'' @ mac hmac enc \<and> CHR ''.'' \<notin> set enc
    \<and> b64_decode enc = Some payload \<and> unmarshal_session payload = Some s \<and> unix_sec now < se_expiry s"
proof -
  obtain enc m where cut: "str_cut (CHR ''.'') value = Some (enc, m)"
    and m: "m = mac hmac enc" and rest: "\<exists>payload. b64_decode enc = Some payload \<and>
      unmarshal_session payload = Some s \<and> session_valid now s"
    using assms by (auto simp: parseSession_def split: option.splits if_splits)
  from str_cut_Some [OF cut] m rest show ?thesis by (auto simp: session_valid_def)
qed

end
