(* ===== verification/Zone_File.thy ===== *)
theory Zone_File
  imports Go_Strings Serial
begin

section \<open>Zones: parsing, rendering, building, editing\<close>

text \<open>
  The model of \<open>internal/zone/zone.go\<close>, \<open>edit.go\<close>, \<open>build.go\<close> and of \<open>BumpSerial\<close> in
  \<open>serial.go\<close>. The package is a layer over \<open>github.com/miekg/dns\<close>, which is not part of
  the repository: what it calls there is the record \<open>dns_lib\<close>, a parameter of every definition.
  \<^item> \<open>dns_parse content origin\<close> is a \<open>ZoneParser\<close> run with \<open>$INCLUDE\<close> disallowed: the records
    that \<open>Next\<close> returns, in order, and what \<open>Err\<close> returns once \<open>Next\<close> has returned false.
    \<open>Err\<close> is nil as long as \<open>Next\<close> returns records.
  \<^item> A resource record is an \<open>SOA\<close> struct or another one, each with its header; the rdata of
    the other record types is opaque (a type variable).
\<close>

record rr_header =
  h_name :: string
  h_rrtype :: "16 word"
  h_class :: "16 word"
  h_ttl :: u32

record soa_rdata =
  soa_ns :: string
  soa_mbox :: string
  soa_serial :: u32
  soa_refresh :: u32
  soa_retry :: u32
  soa_expire :: u32
  soa_minttl :: u32

datatype 'r rr = SOA_rr rr_header soa_rdata | Other_rr rr_header 'r

fun rr_hdr :: "'r rr \<Rightarrow> rr_header" where
  "rr_hdr (SOA_rr h s) = h"
| "rr_hdr (Other_rr h d) = h"

record 'r dns_lib =
  dns_fqdn :: "string \<Rightarrow> string"
  dns_parse :: "string \<Rightarrow> string \<Rightarrow> 'r rr list \<times> string option"
  dns_string :: "'r rr \<Rightarrow> string"
  dns_header_string :: "rr_header \<Rightarrow> string"
  dns_type_string :: "16 word \<Rightarrow> string"
  dns_class_string :: "16 word \<Rightarrow> string"
  dns_type_soa :: "16 word"
  unicode_upper :: "string \<Rightarrow> string"

record 'r zone =
  z_origin :: string
  z_records :: "'r rr list"

text \<open>The presentation view of a record (\<open>zone.Record\<close>).\<close>

record zrecord =
  r_name :: string
  r_ttl :: u32
  r_class :: string
  r_type :: string
  r_data :: string

record soa_data =
  sd_primary_ns :: string
  sd_mbox :: string
  sd_refresh :: u32
  sd_retry :: u32
  sd_expire :: u32
  sd_minimum :: u32
  sd_ttl :: u32
  sd_serial :: u32

datatype zone_error =
    Parse_zone string string
  | No_records string
  | No_soa
  | Invalid_record string
  | No_record_found
  | Not_exactly_one
  | Soa_managed_automatically
  | Soa_managed_via_settings

abbreviation newline :: char where "newline \<equiv> CHR 0x0A"


subsection \<open>Parse, render, view\<close>

definition Parse :: "'r dns_lib \<Rightarrow> string \<Rightarrow> string \<Rightarrow> zone_error + 'r zone" where
  "Parse L content origin0 =
     (let origin = dns_fqdn L origin0;
          (records, perr) = dns_parse L content origin
      in case perr of
           Some err \<Rightarrow> Inl (Parse_zone origin err)
         | None \<Rightarrow> if records = [] then Inl (No_records origin)
                   else Inr \<lparr>z_origin = origin, z_records = records\<rparr>)"

definition Render :: "'r dns_lib \<Rightarrow> 'r zone \<Rightarrow> string" where
  "Render L z =
     ''$ORIGIN '' @ z_origin z @ [newline] @ concat (map (\<lambda>rr. dns_string L rr @ [newline]) (z_records z))"

definition rdata :: "'r dns_lib \<Rightarrow> 'r rr \<Rightarrow> string" where
  "rdata L rr = trim_prefix (dns_string L rr) (dns_header_string L (rr_hdr rr))"

definition record_view :: "'r dns_lib \<Rightarrow> 'r rr \<Rightarrow> zrecord" where
  "record_view L rr =
     (let h = rr_hdr rr in
      \<lparr>r_name = h_name h, r_ttl = h_ttl h, r_class = dns_class_string L (h_class h),
       r_type = dns_type_string L (h_rrtype h), r_data = rdata L rr\<rparr>)"

definition Records :: "'r dns_lib \<Rightarrow> 'r zone \<Rightarrow> zrecord list" where
  "Records L z = map (record_view L) (z_records z)"

definition Len :: "'r zone \<Rightarrow> nat" where
  "Len z = length (z_records z)"

text \<open>The method \<open>soa()\<close>: the first record whose dynamic type is \<open>*dns.SOA\<close>.\<close>

fun find_soa :: "'r rr list \<Rightarrow> (rr_header \<times> soa_rdata) option" where
  "find_soa [] = None"
| "find_soa (SOA_rr h s # rrs) = Some (h, s)"
| "find_soa (Other_rr h d # rrs) = find_soa rrs"

definition zone_soa :: "'r zone \<Rightarrow> zone_error + rr_header \<times> soa_rdata" where
  "zone_soa z = (case find_soa (z_records z) of None \<Rightarrow> Inl No_soa | Some p \<Rightarrow> Inr p)"

definition zone_serial :: "'r zone \<Rightarrow> zone_error + u32" where
  "zone_serial z = (case zone_soa z of Inl e \<Rightarrow> Inl e | Inr (h, s) \<Rightarrow> Inr (soa_serial s))"

text \<open>\<open>soa()\<close> returns a pointer into the record list: assigning through it changes that record.\<close>

fun set_soa_serial :: "u32 \<Rightarrow> 'r rr list \<Rightarrow> 'r rr list" where
  "set_soa_serial n [] = []"
| "set_soa_serial n (SOA_rr h s # rrs) = SOA_rr h (s\<lparr>soa_serial := n\<rparr>) # rrs"
| "set_soa_serial n (Other_rr h d # rrs) = Other_rr h d # set_soa_serial n rrs"

definition BumpSerial ::
    "serial_policy \<Rightarrow> go_time \<Rightarrow> 'r zone \<Rightarrow> (zone_error + u32 \<times> u32) \<times> 'r zone" where
  "BumpSerial policy now z =
     (case zone_soa z of
        Inl e \<Rightarrow> (Inl e, z)
      | Inr (h, s) \<Rightarrow>
          let oldSerial = soa_serial s; newSerial = next_serial policy oldSerial now in
          (Inr (oldSerial, newSerial), z\<lparr>z_records := set_soa_serial newSerial (z_records z)\<rparr>))"


subsection \<open>Building a zone from its settings and records\<close>

definition index_byte :: "char \<Rightarrow> string \<Rightarrow> nat option" where
  "index_byte c s = find_index (\<lambda>x. x = c) s"

definition dnsMbox :: "'r dns_lib \<Rightarrow> string \<Rightarrow> string" where
  "dnsMbox L s =
     dns_fqdn L (case index_byte (CHR ''@'') s of
                   Some i \<Rightarrow> take i s @ ''.'' @ drop (i + 1) s
                 | None \<Rightarrow> s)"

definition dec32 :: "u32 \<Rightarrow> string" where
  "dec32 n = dec (unat n)"

definition zone_ttl :: "soa_data \<Rightarrow> u32" where
  "zone_ttl soa = (if sd_ttl soa = 0 then 3600 else sd_ttl soa)"

definition soa_line :: "'r dns_lib \<Rightarrow> soa_data \<Rightarrow> string" where
  "soa_line L soa =
     ''@ '' @ dec32 (zone_ttl soa) @ '' IN SOA '' @ dns_fqdn L (sd_primary_ns soa) @ '' ''
     @ dnsMbox L (sd_mbox soa) @ '' ( '' @ dec32 (sd_serial soa) @ '' '' @ dec32 (sd_refresh soa)
     @ '' '' @ dec32 (sd_retry soa) @ '' '' @ dec32 (sd_expire soa) @ '' ''
     @ dec32 (sd_minimum soa) @ '' )''"

definition record_line :: "u32 \<Rightarrow> zrecord \<Rightarrow> string" where
  "record_line ttl r =
     (if r_name r = [] then ''@'' else r_name r) @ '' ''
     @ dec32 (if r_ttl r = 0 then ttl else r_ttl r) @ '' IN '' @ r_type r @ '' '' @ r_data r"

definition build_text :: "'r dns_lib \<Rightarrow> string \<Rightarrow> soa_data \<Rightarrow> zrecord list \<Rightarrow> string" where
  "build_text L origin soa recs =
     ''$ORIGIN '' @ dns_fqdn L origin @ [newline]
     @ ''$TTL '' @ dec32 (zone_ttl soa) @ [newline]
     @ soa_line L soa @ [newline]
     @ concat (map (\<lambda>r. record_line (zone_ttl soa) r @ [newline]) recs)"

definition Build :: "'r dns_lib \<Rightarrow> string \<Rightarrow> soa_data \<Rightarrow> zrecord list \<Rightarrow> zone_error + 'r zone" where
  "Build L origin soa recs = Parse L (build_text L origin soa recs) origin"

definition SOA :: "'r zone \<Rightarrow> zone_error + soa_data" where
  "SOA z =
     (case zone_soa z of
        Inl e \<Rightarrow> Inl e
      | Inr (h, s) \<Rightarrow> Inr
          \<lparr>sd_primary_ns = soa_ns s, sd_mbox = soa_mbox s, sd_refresh = soa_refresh s,
           sd_retry = soa_retry s, sd_expire = soa_expire s, sd_minimum = soa_minttl s,
           sd_ttl = h_ttl h, sd_serial = soa_serial s\<rparr>)"

definition DataRecords :: "'r dns_lib \<Rightarrow> 'r zone \<Rightarrow> zrecord list" where
  "DataRecords L z = filter (\<lambda>r. r_type r \<noteq> ''SOA'') (Records L z)"


subsection \<open>Editing\<close>

text \<open>
  \<open>newRRWithOrigin\<close> calls \<open>Next\<close> once, looks at \<open>Err\<close>, and calls \<open>Next\<close> a second time only to see
  whether it returns another record; what \<open>Err\<close> says after that second call is not looked at.
\<close>

definition newRRWithOrigin :: "'r dns_lib \<Rightarrow> string \<Rightarrow> string \<Rightarrow> zone_error + 'r rr" where
  "newRRWithOrigin L line origin0 =
     (let origin = dns_fqdn L origin0;
          text_in = ''$ORIGIN '' @ origin @ [newline] @ ''$TTL 3600'' @ [newline] @ line @ [newline]
      in case dns_parse L text_in origin of
           ([], Some err) \<Rightarrow> Inl (Invalid_record err)
         | ([], None) \<Rightarrow> Inl No_record_found
         | (rr # further, _) \<Rightarrow> if further \<noteq> [] then Inl Not_exactly_one else Inr rr)"

definition is_soa_type :: "'r dns_lib \<Rightarrow> 'r rr \<Rightarrow> bool" where
  "is_soa_type L rr \<longleftrightarrow> h_rrtype (rr_hdr rr) = dns_type_soa L"

definition recordMatches :: "'r dns_lib \<Rightarrow> 'r rr \<Rightarrow> string \<Rightarrow> string \<Rightarrow> string \<Rightarrow> bool" where
  "recordMatches L rr name rtype data \<longleftrightarrow>
     h_name (rr_hdr rr) = name \<and> dns_type_string L (h_rrtype (rr_hdr rr)) = rtype \<and> rdata L rr = data"

definition Add :: "'r dns_lib \<Rightarrow> string \<Rightarrow> 'r zone \<Rightarrow> zone_error option \<times> 'r zone" where
  "Add L line z =
     (case newRRWithOrigin L line (z_origin z) of
        Inl e \<Rightarrow> (Some e, z)
      | Inr rr \<Rightarrow>
          if is_soa_type L rr then (Some Soa_managed_automatically, z)
          else (None, z\<lparr>z_records := z_records z @ [rr]\<rparr>))"

text \<open>The loops of \<open>Remove\<close> and \<open>Replace\<close>: SOA records are skipped, the first match is deleted
  (overwritten) and ends the loop.\<close>

fun remove_loop ::
    "'r dns_lib \<Rightarrow> string \<Rightarrow> string \<Rightarrow> string \<Rightarrow> 'r rr list \<Rightarrow> 'r rr list option" where
  "remove_loop L name rtype data [] = None"
| "remove_loop L name rtype data (rr # rrs) =
     (if is_soa_type L rr then map_option (\<lambda>ys. rr # ys) (remove_loop L name rtype data rrs)
      else if recordMatches L rr name rtype data then Some rrs
      else map_option (\<lambda>ys. rr # ys) (remove_loop L name rtype data rrs))"

definition Remove ::
    "'r dns_lib \<Rightarrow> string \<Rightarrow> string \<Rightarrow> string \<Rightarrow> 'r zone \<Rightarrow> bool \<times> 'r zone" where
  "Remove L name rtype data z =
     (case remove_loop L name rtype data (z_records z) of
        None \<Rightarrow> (False, z)
      | Some rrs \<Rightarrow> (True, z\<lparr>z_records := rrs\<rparr>))"

fun replace_loop ::
    "'r dns_lib \<Rightarrow> string \<Rightarrow> string \<Rightarrow> string \<Rightarrow> 'r rr \<Rightarrow> 'r rr list \<Rightarrow> 'r rr list option" where
  "replace_loop L name rtype data new [] = None"
| "replace_loop L name rtype data new (rr # rrs) =
     (if is_soa_type L rr then map_option (\<lambda>ys. rr # ys) (replace_loop L name rtype data new rrs)
      else if recordMatches L rr name rtype data then Some (new # rrs)
      else map_option (\<lambda>ys. rr # ys) (replace_loop L name rtype data new rrs))"

definition Replace ::
    "'r dns_lib \<Rightarrow> string \<Rightarrow> string \<Rightarrow> string \<Rightarrow> string \<Rightarrow> 'r zone \<Rightarrow> (zone_error + bool) \<times> 'r zone" where
  "Replace L name rtype data newLine z =
     (case newRRWithOrigin L newLine (z_origin z) of
        Inl e \<Rightarrow> (Inl e, z)
      | Inr rr \<Rightarrow>
          if is_soa_type L rr then (Inl Soa_managed_automatically, z)
          else (case replace_loop L name rtype data rr (z_records z) of
                  None \<Rightarrow> (Inr False, z)
                | Some rrs \<Rightarrow> (Inr True, z\<lparr>z_records := rrs\<rparr>)))"

definition normalize_line :: "'r dns_lib \<Rightarrow> string \<Rightarrow> u32 \<Rightarrow> string \<Rightarrow> string \<Rightarrow> string" where
  "normalize_line L name ttl rtype data =
     (if name = [] then ''@'' else name) @ '' '' @ dec32 (if ttl = 0 then 3600 else ttl) @ '' IN ''
     @ to_upper (unicode_upper L) (trim_space rtype) @ '' '' @ trim_space data"

definition NormalizeRecord ::
    "'r dns_lib \<Rightarrow> string \<Rightarrow> string \<Rightarrow> u32 \<Rightarrow> string \<Rightarrow> string \<Rightarrow> zone_error + zrecord" where
  "NormalizeRecord L origin name ttl rtype data =
     (case newRRWithOrigin L (normalize_line L name ttl rtype data) origin of
        Inl e \<Rightarrow> Inl e
      | Inr rr \<Rightarrow>
          if is_soa_type L rr then Inl Soa_managed_via_settings
          else let h = rr_hdr rr in
            Inr \<lparr>r_name = h_name h, r_ttl = h_ttl h, r_class = ''IN'',
                 r_type = dns_type_string L (h_rrtype h), r_data = rdata L rr\<rparr>)"



subsection \<open>Facts about the SOA record\<close>

text \<open>What the library documents of its records: an \<open>*dns.SOA\<close> has the type code of SOA in its
  header, and that code alone is written \<open>SOA\<close>.\<close>

definition soa_typed :: "'r dns_lib \<Rightarrow> 'r rr \<Rightarrow> bool" where
  "soa_typed L rr = (case rr of SOA_rr h s \<Rightarrow> h_rrtype h = dns_type_soa L | Other_rr h d \<Rightarrow> True)"

definition soa_named :: "'r dns_lib \<Rightarrow> bool" where
  "soa_named L \<longleftrightarrow> dns_type_string L (dns_type_soa L) = ''SOA''"

lemma find_soa_set_serial:
  "find_soa (set_soa_serial n rrs) = map_option (\<lambda>(h, s). (h, s\<lparr>soa_serial := n\<rparr>)) (find_soa rrs)"
  by (induction n rrs rule: set_soa_serial.induct) auto

lemma set_soa_serial_decomp:
  "find_soa rrs = Some (h, s) \<Longrightarrow>
     \<exists>pre post. rrs = pre @ SOA_rr h s # post \<and>
       set_soa_serial n rrs = pre @ SOA_rr h (s\<lparr>soa_serial := n\<rparr>) # post"
proof (induction n rrs rule: set_soa_serial.induct)
  case (1 n)
  then show ?case by simp
next
  case (2 n h s rrs)
  then show ?case by (metis append_Nil find_soa.simps(2) option.inject prod.inject set_soa_serial.simps(2))
next
  case (3 n h d rrs)
  then show ?case by (metis append_Cons find_soa.simps(3) set_soa_serial.simps(3))
qed

lemma data_records_set_serial:
  assumes "soa_named L" and "\<forall>rr\<in>set rrs. soa_typed L rr"
  shows "filter (\<lambda>r. r_type r \<noteq> ''SOA'') (map (record_view L) (set_soa_serial n rrs)) =
    filter (\<lambda>r. r_type r \<noteq> ''SOA'') (map (record_view L) rrs)"
  using assms(2)
  by (induction n rrs rule: set_soa_serial.induct)
     (use assms(1) in \<open>auto simp: soa_typed_def soa_named_def record_view_def Let_def\<close>)

lemma zone_soa_Inr: "zone_soa z = Inr p \<longleftrightarrow> find_soa (z_records z) = Some p"
  by (simp add: zone_soa_def split: option.splits)

lemma BumpSerial_ok_iff:
  "BumpSerial policy now z = (Inr (old, new), z') \<longleftrightarrow>
     (\<exists>h s. find_soa (z_records z) = Some (h, s) \<and> old = soa_serial s \<and>
       new = next_serial policy old now \<and> z' = z\<lparr>z_records := set_soa_serial new (z_records z)\<rparr>)"
  by (auto simp: BumpSerial_def zone_soa_def Let_def split: option.splits)

text \<open>
  C31: BumpSerial returns the serial before and the next serial of the policy, puts the latter
  into the SOA record and changes nothing else: the other SOA fields, the data records and the
  origin are the same.
\<close>
theorem BumpSerial_only_serial:
  assumes bump: "BumpSerial policy now z = (Inr (old, new), z')"
    and lib: "soa_named L" "\<forall>rr\<in>set (z_records z). soa_typed L rr"
  shows "zone_serial z = Inr old \<and> new = next_serial policy old now \<and> zone_serial z' = Inr new
     \<and> SOA z' = map_sum id (\<lambda>d. d\<lparr>sd_serial := new\<rparr>) (SOA z)
     \<and> DataRecords L z' = DataRecords L z \<and> z_origin z' = z_origin z"
proof -
  from bump obtain h s where f: "find_soa (z_records z) = Some (h, s)" and old: "old = soa_serial s"
    and new: "new = next_serial policy old now"
    and z': "z' = z\<lparr>z_records := set_soa_serial new (z_records z)\<rparr>"
    unfolding BumpSerial_ok_iff by blast
  from f have f': "find_soa (z_records z') = Some (h, s\<lparr>soa_serial := new\<rparr>)"
    by (simp add: z' find_soa_set_serial)
  have "DataRecords L z' = DataRecords L z"
    using data_records_set_serial [OF lib] by (simp add: DataRecords_def Records_def z')
  with f f' old new show ?thesis
    by (simp add: zone_serial_def SOA_def zone_soa_def z')
qed


subsection \<open>Editing never touches the SOA\<close>

datatype zone_edit =
    Edit_add string
  | Edit_remove string string string
  | Edit_replace string string string string

fun edit_step :: "'r dns_lib \<Rightarrow> zone_edit \<Rightarrow> 'r zone \<Rightarrow> 'r zone" where
  "edit_step L (Edit_add line) z = snd (Add L line z)"
| "edit_step L (Edit_remove name rtype data) z = snd (Remove L name rtype data z)"
| "edit_step L (Edit_replace name rtype data line) z = snd (Replace L name rtype data line z)"

definition soa_records :: "'r dns_lib \<Rightarrow> 'r zone \<Rightarrow> 'r rr list" where
  "soa_records L z = filter (is_soa_type L) (z_records z)"

lemma remove_loop_Some:
  "remove_loop L name rtype data rrs = Some ys \<Longrightarrow>
     \<exists>pre rr post. rrs = pre @ rr # post \<and> ys = pre @ post \<and> \<not> is_soa_type L rr \<and>
       recordMatches L rr name rtype data \<and>
       (\<forall>x\<in>set pre. is_soa_type L x \<or> \<not> recordMatches L x name rtype data)"
proof (induction rrs arbitrary: ys)
  case Nil
  then show ?case by simp
next
  case (Cons r rrs)
  show ?case
  proof (cases "\<not> is_soa_type L r \<and> recordMatches L r name rtype data")
    case True
    with Cons.prems show ?thesis by (intro exI [of _ "[]"]) auto
  next
    case False
    with Cons.prems obtain zs where zs: "remove_loop L name rtype data rrs = Some zs" "ys = r # zs"
      by (auto split: if_splits)
    from Cons.IH [OF zs(1)] obtain pre rr post where
      "rrs = pre @ rr # post \<and> zs = pre @ post \<and> \<not> is_soa_type L rr \<and>
       recordMatches L rr name rtype data \<and>
       (\<forall>x\<in>set pre. is_soa_type L x \<or> \<not> recordMatches L x name rtype data)" by blast
    with False zs(2) show ?thesis by (intro exI [of _ "r # pre"]) auto
  qed
qed

lemma remove_loop_None:
  "remove_loop L name rtype data rrs = None \<longleftrightarrow>
     (\<forall>x\<in>set rrs. is_soa_type L x \<or> \<not> recordMatches L x name rtype data)"
  by (induction rrs) auto

lemma replace_loop_Some:
  "replace_loop L name rtype data new rrs = Some ys \<Longrightarrow>
     \<exists>pre rr post. rrs = pre @ rr # post \<and> ys = pre @ new # post \<and> \<not> is_soa_type L rr \<and>
       recordMatches L rr name rtype data \<and>
       (\<forall>x\<in>set pre. is_soa_type L x \<or> \<not> recordMatches L x name rtype data)"
proof (induction rrs arbitrary: ys)
  case Nil
  then show ?case by simp
next
  case (Cons r rrs)
  show ?case
  proof (cases "\<not> is_soa_type L r \<and> recordMatches L r name rtype data")
    case True
    with Cons.prems show ?thesis by (intro exI [of _ "[]"]) auto
  next
    case False
    with Cons.prems obtain zs where zs: "replace_loop L name rtype data new rrs = Some zs" "ys = r # zs"
      by (auto split: if_splits)
    from Cons.IH [OF zs(1)] obtain pre rr post where
      "rrs = pre @ rr # post \<and> zs = pre @ new # post \<and> \<not> is_soa_type L rr \<and>
       recordMatches L rr name rtype data \<and>
       (\<forall>x\<in>set pre. is_soa_type L x \<or> \<not> recordMatches L x name rtype data)" by blast
    with False zs(2) show ?thesis by (intro exI [of _ "r # pre"]) auto
  qed
qed

lemma soa_records_Add: "soa_records L (snd (Add L line z)) = soa_records L z"
  by (auto simp: Add_def soa_records_def split: sum.splits)

lemma soa_records_Remove: "soa_records L (snd (Remove L name rtype data z)) = soa_records L z"
  by (auto simp: Remove_def soa_records_def split: option.splits dest!: remove_loop_Some)

lemma soa_records_Replace: "soa_records L (snd (Replace L name rtype data line z)) = soa_records L z"
  by (auto simp: Replace_def soa_records_def split: sum.splits option.splits dest!: replace_loop_Some)

lemmas soa_records_edit = soa_records_Add soa_records_Remove soa_records_Replace

lemma origin_edit: "z_origin (edit_step L e z) = z_origin z"
  by (cases e) (auto simp: Add_def Remove_def Replace_def split: sum.splits option.splits)

interpretation zone_edits: inv_machine "edit_step L"
    "\<lambda>z. soa_records L z = S \<and> z_origin z = org" for L S org
proof unfold_locales
  fix z e
  assume "soa_records L z = S \<and> z_origin z = org"
  then show "soa_records L (edit_step L e z) = S \<and> z_origin (edit_step L e z) = org"
    by (cases e) (simp_all add: soa_records_edit origin_edit del: edit_step.simps, simp_all add: soa_records_edit)
qed

text \<open>
  No sequence of Add, Remove and Replace, whatever lines it is given, changes, adds or
  removes an SOA record or the origin of the zone.
\<close>
theorem edits_keep_soa:
  "soa_records L (fold (edit_step L) edits z) = soa_records L z
   \<and> z_origin (fold (edit_step L) edits z) = z_origin z"
  by (rule zone_edits.inv_run) simp

text \<open>
  Remove deletes the first record that matches name, type and data and is no SOA record,
  keeps all others in order, and reports false exactly when there is none.
\<close>
theorem Remove_first_match:
  assumes "Remove L name rtype data z = (removed, z')"
  shows "if removed
    then \<exists>pre rr post. z_records z = pre @ rr # post \<and> z_records z' = pre @ post
      \<and> \<not> is_soa_type L rr \<and> recordMatches L rr name rtype data
      \<and> (\<forall>x\<in>set pre. is_soa_type L x \<or> \<not> recordMatches L x name rtype data)
    else z' = z \<and> (\<forall>x\<in>set (z_records z). is_soa_type L x \<or> \<not> recordMatches L x name rtype data)"
proof (cases "remove_loop L name rtype data (z_records z)")
  case None
  with assms show ?thesis
    by (auto simp: Remove_def dest: remove_loop_None [THEN iffD1])
next
  case (Some rrs)
  with assms have "removed" and "z_records z' = rrs" by (auto simp: Remove_def)
  with remove_loop_Some [OF Some] show ?thesis by simp
qed


subsection \<open>The generated zone text\<close>

lemma newline_not_digit: "\<not> is_digit newline"
  by (simp add: is_digit_def less_eq_char_def)

lemma newline_not_dec32: "newline \<notin> set (dec32 n)"
  using newline_not_digit by (auto simp: dec32_def dest: dec_digits)

definition clean_field :: "string \<Rightarrow> bool" where
  "clean_field s \<longleftrightarrow> newline \<notin> set s"

definition clean_record :: "zrecord \<Rightarrow> bool" where
  "clean_record r \<longleftrightarrow> clean_field (r_name r) \<and> clean_field (r_type r) \<and> clean_field (r_data r)"

lemma clean_soa_line:
  "clean_field (dns_fqdn L (sd_primary_ns soa)) \<Longrightarrow> clean_field (dnsMbox L (sd_mbox soa)) \<Longrightarrow>
     newline \<notin> set (soa_line L soa)"
  by (simp add: soa_line_def clean_field_def newline_not_dec32)

lemma clean_record_line: "clean_record r \<Longrightarrow> newline \<notin> set (record_line ttl r)"
  by (simp add: record_line_def clean_record_def clean_field_def newline_not_dec32)

lemma split_on_lines:
  "(\<forall>x\<in>set xs. c \<notin> set (f x)) \<Longrightarrow>
     split_on c (concat (map (\<lambda>x. f x @ [c]) xs)) = map f xs @ [[]]"
  by (induction xs) (simp_all add: split_on_append_sep)

text \<open>
  The zone file that Build generates has exactly one line per part: origin, default TTL, SOA
  and one line per record in order, as long as no field contains a newline, so no record can
  smuggle in another line.
\<close>
theorem build_text_lines:
  assumes "clean_field (dns_fqdn L origin)"
    and "clean_field (dns_fqdn L (sd_primary_ns soa))" and "clean_field (dnsMbox L (sd_mbox soa))"
    and "\<forall>r\<in>set recs. clean_record r"
  shows "split_on newline (build_text L origin soa recs) =
    [''$ORIGIN '' @ dns_fqdn L origin, ''$TTL '' @ dec32 (zone_ttl soa), soa_line L soa]
    @ map (record_line (zone_ttl soa)) recs @ [[]]"
proof -
  have o: "newline \<notin> set (''$ORIGIN '' @ dns_fqdn L origin)"
    using assms(1) by (simp add: clean_field_def)
  have t: "newline \<notin> set (''$TTL '' @ dec32 (zone_ttl soa))"
    by (simp add: newline_not_dec32)
  have s: "newline \<notin> set (soa_line L soa)"
    using assms(2,3) by (rule clean_soa_line)
  have r: "split_on newline (concat (map (\<lambda>r. record_line (zone_ttl soa) r @ [newline]) recs))
      = map (record_line (zone_ttl soa)) recs @ [[]]"
    using assms(4) by (intro split_on_lines) (blast dest: clean_record_line)
  have "build_text L origin soa recs =
      (''$ORIGIN '' @ dns_fqdn L origin) @ newline # (''$TTL '' @ dec32 (zone_ttl soa)) @ newline #
      soa_line L soa @ newline # concat (map (\<lambda>r. record_line (zone_ttl soa) r @ [newline]) recs)"
    by (simp add: build_text_def)
  then show ?thesis
    by (simp only: split_on_append_sep [OF o] split_on_append_sep [OF t] split_on_append_sep [OF s] r) simp
qed

text \<open>Each newline in a field is one more line.\<close>

lemma length_split_on: "length (split_on c s) = Suc (count_list s c)"
  by (induction s rule: split_on.induct) (auto simp: split_on.simps split: list.splits)

lemma count_dec32: "count_list (dec32 n) newline = 0"
  by (simp add: newline_not_dec32)

lemma count_concat: "count_list (concat xss) c = sum_list (map (\<lambda>xs. count_list xs c) xss)"
  by (induction xss) simp_all

definition field_newlines :: "zrecord \<Rightarrow> nat" where
  "field_newlines r = count_list (r_name r) newline + count_list (r_type r) newline + count_list (r_data r) newline"

lemma build_text_line_count:
  "length (split_on newline (build_text L origin soa recs)) =
     4 + length recs + count_list (dns_fqdn L origin) newline + count_list (dns_fqdn L (sd_primary_ns soa)) newline
       + count_list (dnsMbox L (sd_mbox soa)) newline + (\<Sum>r\<leftarrow>recs. field_newlines r)"
proof -
  have rec: "count_list (record_line t r) newline = field_newlines r" for t r
    by (simp add: record_line_def field_newlines_def count_dec32)
  have "(\<Sum>r\<leftarrow>recs. Suc (field_newlines r)) = length recs + (\<Sum>r\<leftarrow>recs. field_newlines r)"
    by (induction recs) simp_all
  then show ?thesis
    unfolding length_split_on
    by (simp add: build_text_def soa_line_def count_dec32 count_concat o_def rec)
qed

lemma field_newlines_0: "field_newlines r = 0 \<longleftrightarrow> clean_record r"
  by (simp add: field_newlines_def clean_record_def clean_field_def count_list_0_iff)

text \<open>
  C40: The zone file that Build generates has exactly the lines for the origin, the default TTL,
  the SOA and each record in order if and only if no newline is in the origin, in the two names of
  the SOA or in the owner, the type or the data of a record: nothing else is checked or escaped.
\<close>
theorem build_text_lines_iff:
  "split_on newline (build_text L origin soa recs) =
      [''$ORIGIN '' @ dns_fqdn L origin, ''$TTL '' @ dec32 (zone_ttl soa), soa_line L soa]
      @ map (record_line (zone_ttl soa)) recs @ [[]]
   \<longleftrightarrow> (\<forall>r\<in>set recs. newline \<notin> set (r_name r) \<and> newline \<notin> set (r_type r) \<and> newline \<notin> set (r_data r))
      \<and> newline \<notin> set (dns_fqdn L origin) \<and> newline \<notin> set (dns_fqdn L (sd_primary_ns soa))
      \<and> newline \<notin> set (dnsMbox L (sd_mbox soa))" (is "?lines = ?expected \<longleftrightarrow> ?clean")
proof
  assume "?lines = ?expected"
  then have "length ?lines = length ?expected" by (rule arg_cong)
  then have "count_list (dns_fqdn L origin) newline = 0 \<and> count_list (dns_fqdn L (sd_primary_ns soa)) newline = 0
      \<and> count_list (dnsMbox L (sd_mbox soa)) newline = 0 \<and> (\<Sum>r\<leftarrow>recs. field_newlines r) = 0"
    unfolding build_text_line_count by simp
  then show ?clean
    by (auto simp: field_newlines_0 count_list_0_iff clean_record_def clean_field_def)
next
  assume ?clean
  then show "?lines = ?expected"
    by (intro build_text_lines) (auto simp: clean_field_def clean_record_def)
qed

end
