(* ===== verification/Go_Path.thy ===== *)
theory Go_Path
  imports Go_Strings
begin

section \<open>The Go package path\<close>

text \<open>
  \<open>path.Base\<close>, \<open>path.Clean\<close> and \<open>path.Join\<close> of two elements, as the standard library defines
  them, with the law the remote paths rest on: joining a directory with a plain file name
  stays directly inside the directory.
\<close>

definition slash :: char where "slash = CHR ''/''"

definition path_base :: "string \<Rightarrow> string" where
  "path_base p =
     (if p = [] then ''.''
      else
        let stripped = rev (dropWhile (\<lambda>c. c = slash) (rev p));
            last_elem = rev (takeWhile (\<lambda>c. c \<noteq> slash) (rev stripped))
        in if last_elem = [] then [slash] else last_elem)"

text \<open>One component of the path: empty and \<open>.\<close> components are dropped; \<open>..\<close> removes the
  component before it, is dropped at the root, and is kept at the start of a relative path.\<close>

definition clean_step :: "bool \<Rightarrow> string list \<Rightarrow> string \<Rightarrow> string list" where
  "clean_step rooted out part =
     (if part = [] \<or> part = ''.'' then out
      else if part = ''..'' then
        (if out \<noteq> [] \<and> last out \<noteq> ''..'' then butlast out
         else if rooted then out
         else out @ [part])
      else out @ [part])"

definition is_rooted :: "string \<Rightarrow> bool" where
  "is_rooted p = (case p of [] \<Rightarrow> False | c # _ \<Rightarrow> c = slash)"

definition clean_comps :: "string \<Rightarrow> string list" where
  "clean_comps p = foldl (clean_step (is_rooted p)) [] (split_on slash p)"

definition render_path :: "bool \<Rightarrow> string list \<Rightarrow> string" where
  "render_path rooted comps =
     (if rooted then slash # join_str [slash] comps
      else if comps = [] then ''.'' else join_str [slash] comps)"

definition path_clean :: "string \<Rightarrow> string" where
  "path_clean p = render_path (is_rooted p) (clean_comps p)"

definition path_join :: "string \<Rightarrow> string \<Rightarrow> string" where
  "path_join a b =
     (if a = [] \<and> b = [] then []
      else path_clean (if a = [] then b else a @ [slash] @ b))"

text \<open>A plain file name: one component that \<open>path.Clean\<close> keeps.\<close>

definition plain_name :: "string \<Rightarrow> bool" where
  "plain_name f \<longleftrightarrow> slash \<notin> set f \<and> f \<notin> {[], ''.'', ''..''}"

lemma clean_step_plain: "plain_name f \<Longrightarrow> clean_step r out f = out @ [f]"
  by (simp add: clean_step_def plain_name_def)

lemma split_on_snoc_sep: "c \<notin> set y \<Longrightarrow> split_on c (x @ c # y) = split_on c x @ [y]"
proof (induction x)
  case Nil
  then show ?case by (simp add: split_on_no_sep)
next
  case (Cons a x)
  obtain z zs where "split_on c x = z # zs" by (cases "split_on c x") auto
  with Cons show ?case by auto
qed

lemma clean_comps_join:
  "d \<noteq> [] \<Longrightarrow> plain_name f \<Longrightarrow> clean_comps (d @ slash # f) = clean_comps d @ [f]"
proof -
  assume "d \<noteq> []" and f: "plain_name f"
  then have "is_rooted (d @ slash # f) = is_rooted d"
    by (cases d) (simp_all add: is_rooted_def)
  with f show ?thesis
    by (simp add: clean_comps_def plain_name_def split_on_snoc_sep clean_step_plain)
qed

lemma join_str_snoc: "xs \<noteq> [] \<Longrightarrow> join_str sep (xs @ [y]) = join_str sep xs @ sep @ y"
  by (induction sep xs rule: join_str.induct) auto

lemma path_join_plain:
  assumes "d \<noteq> []" and "plain_name f"
  shows "path_join d f = render_path (is_rooted d) (clean_comps d @ [f])"
proof -
  have "is_rooted (d @ slash # f) = is_rooted d"
    using assms(1) by (cases d) (simp_all add: is_rooted_def)
  with assms show ?thesis
    by (simp add: path_join_def path_clean_def clean_comps_join)
qed

lemma path_join_empty_dir:
  "plain_name f \<Longrightarrow> path_join [] f = f"
proof -
  assume f: "plain_name f"
  then have "f \<noteq> []" and "\<not> is_rooted f" and "split_on slash f = [f]"
    by (auto simp: plain_name_def is_rooted_def split_on_no_sep split: list.splits)
  with f show ?thesis
    by (simp add: path_join_def path_clean_def clean_comps_def clean_step_plain render_path_def)
qed

text \<open>The directory part of the joined path is the cleaned directory.\<close>

definition dir_prefix :: "string \<Rightarrow> string" where
  "dir_prefix d =
     (if d = [] \<or> path_clean d = ''.'' then []
      else if path_clean d = [slash] then [slash]
      else path_clean d @ [slash])"

definition real_comp :: "string \<Rightarrow> bool" where
  "real_comp x \<longleftrightarrow> x \<noteq> [] \<and> x \<noteq> ''.'' \<and> slash \<notin> set x"

lemma clean_step_real:
  assumes "\<forall>x\<in>set out. real_comp x" and "slash \<notin> set c"
  shows "\<forall>x\<in>set (clean_step r out c). real_comp x"
proof (cases "c = [] \<or> c = ''.''")
  case True
  with assms(1) show ?thesis by (simp add: clean_step_def)
next
  case False
  with assms(2) have "real_comp c" by (simp add: real_comp_def)
  with assms(1) False show ?thesis
    by (auto simp only: clean_step_def set_append list.set if_False dest: in_set_butlastD split: if_splits)
qed

lemma foldl_clean_step_real:
  "\<forall>x\<in>set out. real_comp x \<Longrightarrow> \<forall>c\<in>set cs. slash \<notin> set c \<Longrightarrow>
     \<forall>x\<in>set (foldl (clean_step r) out cs). real_comp x"
proof (induction cs arbitrary: out)
  case Nil
  then show ?case by simp
next
  case (Cons c cs)
  then have "\<forall>x\<in>set (clean_step r out c). real_comp x"
    by (intro clean_step_real) auto
  with Cons show ?case by simp
qed

lemma clean_comps_real: "\<forall>x\<in>set (clean_comps p). real_comp x"
  unfolding clean_comps_def by (rule foldl_clean_step_real) (auto dest: split_on_parts)

lemma join_comps_proper:
  assumes "cs \<noteq> []" and "\<forall>x\<in>set cs. real_comp x"
  shows "join_str [slash] cs \<noteq> [] \<and> join_str [slash] cs \<noteq> ''.'' \<and> join_str [slash] cs \<noteq> [slash]"
proof -
  obtain x xs where cs: "cs = x # xs" using assms(1) by (cases cs) auto
  with assms(2) have x: "real_comp x" by simp
  show ?thesis
  proof (cases xs)
    case Nil
    with cs x show ?thesis by (auto simp: real_comp_def)
  next
    case (Cons y ys)
    from x obtain a as where "x = a # as" by (cases x) (auto simp: real_comp_def)
    with cs Cons x show ?thesis by (auto simp: real_comp_def append_eq_Cons_conv)
  qed
qed

lemma path_join_in_dir:
  assumes "plain_name f"
  shows "path_join d f = dir_prefix d @ f"
proof (cases "d = []")
  case True
  with assms show ?thesis by (simp add: path_join_empty_dir dir_prefix_def)
next
  case False
  show ?thesis
  proof (cases "clean_comps d = []")
    case True
    with False assms show ?thesis
      by (simp add: path_join_plain dir_prefix_def path_clean_def render_path_def slash_def)
  next
    case nonempty: False
    have "join_str [slash] (clean_comps d) \<noteq> [] \<and> join_str [slash] (clean_comps d) \<noteq> ''.''
        \<and> join_str [slash] (clean_comps d) \<noteq> [slash]"
      using nonempty clean_comps_real by (rule join_comps_proper)
    moreover have "slash # xs \<noteq> ''.''" for xs by (simp add: slash_def)
    ultimately show ?thesis
      using False assms nonempty
      by (simp add: path_join_plain dir_prefix_def path_clean_def render_path_def join_str_snoc)
  qed
qed

text \<open>The last element of a path that ends in a plain suffix.\<close>

lemma path_base_no_slash: "slash \<notin> set (path_base p) \<or> path_base p = [slash]"
  by (auto simp: path_base_def Let_def dest: set_takeWhileD)

lemma path_base_suffix:
  assumes "e \<noteq> []" and "slash \<notin> set e"
  shows "\<exists>b. path_base (p @ e) = b @ e \<and> slash \<notin> set b"
proof -
  have "last e \<noteq> slash" using assms by (metis last_in_set)
  then have d: "dropWhile (\<lambda>c. c = slash) (rev (p @ e)) = rev (p @ e)"
    using assms(1) by (cases "rev e") (auto simp: last_rev hd_rev rev_eq_Cons_iff)
  have t: "takeWhile (\<lambda>c. c \<noteq> slash) (rev e @ rev p) = rev e @ takeWhile (\<lambda>c. c \<noteq> slash) (rev p)"
    using assms(2) by (subst takeWhile_append2) auto
  have "path_base (p @ e) = rev (takeWhile (\<lambda>c. c \<noteq> slash) (rev p)) @ e"
    using assms(1) d t by (simp add: path_base_def Let_def)
  moreover have "slash \<notin> set (rev (takeWhile (\<lambda>c. c \<noteq> slash) (rev p)))"
    by (auto dest: set_takeWhileD)
  ultimately show ?thesis by blast
qed

end
