(* ===== verification/Audit_Log.thy ===== *)
theory Audit_Log
  imports Go_Json Zone_File Go_Path
begin

section \<open>The audit log\<close>

text \<open>
  The model of \<open>internal/audit/audit.go\<close>. The log is the list of the byte strings handed to \<open>Write\<close>; the
  mutex makes the writes whole. The time of an event enters as the text \<open>Time.MarshalJSON\<close> gives it,
  \<open>None\<close> for the zero time; \<open>now\<close> is that text for \<open>l.now().UTC()\<close>. A nil logger and one for the empty path
  (\<open>io.Discard\<close>) write nothing.
\<close>

record audit_event =
  ev_time :: "string option"
  ev_action :: string
  ev_actor :: string
  ev_zone :: string
  ev_status :: string
  ev_old_serial :: u32
  ev_new_serial :: u32
  ev_servers :: "string list"
  ev_detail :: string

definition new_event :: "string \<Rightarrow> audit_event" where
  "new_event action =
     \<lparr>ev_time = None, ev_action = action, ev_actor = [], ev_zone = [], ev_status = [],
      ev_old_serial = 0, ev_new_serial = 0, ev_servers = [], ev_detail = []\<rparr>"

definition json_field :: "string \<Rightarrow> string \<Rightarrow> string" where
  "json_field name value = CHR 0x22 # name @ [CHR 0x22, CHR '':''] @ value"

definition omit_empty :: "string \<Rightarrow> string \<Rightarrow> string list" where
  "omit_empty name s = (if s = [] then [] else [json_field name (json_string s)])"

definition omit_zero :: "string \<Rightarrow> u32 \<Rightarrow> string list" where
  "omit_zero name n = (if n = 0 then [] else [json_field name (dec32 n)])"

definition marshal_event :: "string \<Rightarrow> audit_event \<Rightarrow> string" where
  "marshal_event time e =
     [CHR ''{''] @ join_str '',''
       ([json_field ''time'' time, json_field ''action'' (json_string (ev_action e))]
        @ omit_empty ''actor'' (ev_actor e) @ omit_empty ''zone'' (ev_zone e)
        @ omit_empty ''status'' (ev_status e)
        @ omit_zero ''old_serial'' (ev_old_serial e) @ omit_zero ''new_serial'' (ev_new_serial e)
        @ (if ev_servers e = [] then []
           else [json_field ''servers'' (CHR ''['' # join_str '','' (map json_string (ev_servers e)) @ '']'')])
        @ omit_empty ''detail'' (ev_detail e)) @ [CHR ''}'']"

datatype logger = Nil_logger | Discard | Writer

text \<open>\<open>New\<close>; the outcomes of \<open>MkdirAll\<close> and \<open>OpenFile\<close> are given, \<open>path_dir\<close> is \<open>filepath.Dir\<close>.\<close>

definition path_dir :: "string \<Rightarrow> string" where
  "path_dir p = path_clean (rev (dropWhile (\<lambda>c. c \<noteq> slash) (rev p)))"

definition newAudit ::
    "(string \<Rightarrow> string option) \<Rightarrow> (string \<Rightarrow> string option) \<Rightarrow> string \<Rightarrow> string + logger" where
  "newAudit mkdir_all open_file path =
     (if path = [] then Inr Discard
      else
        case (if path_dir path \<noteq> [] then mkdir_all (path_dir path) else None) of
          Some err \<Rightarrow> Inl err
        | None \<Rightarrow> (case open_file path of Some err \<Rightarrow> Inl err | None \<Rightarrow> Inr Writer))"

definition audit_log :: "logger \<Rightarrow> string \<Rightarrow> audit_event \<Rightarrow> string list \<Rightarrow> string list" where
  "audit_log l now e written =
     (case l of
        Writer \<Rightarrow>
          written @ [marshal_event (case ev_time e of None \<Rightarrow> now | Some t \<Rightarrow> t) e @ [newline]]
      | _ \<Rightarrow> written)"


subsection \<open>One line per event\<close>

lemma dec32_line: "newline \<notin> set (dec32 n)"
  by (rule newline_not_dec32)

lemma json_field_line: "newline \<notin> set name \<Longrightarrow> newline \<notin> set v \<Longrightarrow> newline \<notin> set (json_field name v)"
  by (simp add: json_field_def)

lemma join_line: "newline \<notin> set sep \<Longrightarrow> \<forall>x\<in>set xs. newline \<notin> set x \<Longrightarrow> newline \<notin> set (join_str sep xs)"
  by (induction sep xs rule: join_str.induct) auto

lemma omit_line:
  "newline \<notin> set name \<Longrightarrow> x \<in> set (omit_empty name s) \<Longrightarrow> newline \<notin> set x"
  "newline \<notin> set name \<Longrightarrow> x \<in> set (omit_zero name n) \<Longrightarrow> newline \<notin> set x"
  by (auto simp: omit_empty_def omit_zero_def dec32_line json_string_line json_field_def split: if_splits)

definition event_fields :: "string \<Rightarrow> audit_event \<Rightarrow> string list" where
  "event_fields time e =
     [json_field ''time'' time, json_field ''action'' (json_string (ev_action e))]
     @ omit_empty ''actor'' (ev_actor e) @ omit_empty ''zone'' (ev_zone e)
     @ omit_empty ''status'' (ev_status e)
     @ omit_zero ''old_serial'' (ev_old_serial e) @ omit_zero ''new_serial'' (ev_new_serial e)
     @ (if ev_servers e = [] then []
        else [json_field ''servers'' (CHR ''['' # join_str '','' (map json_string (ev_servers e)) @ '']'')])
     @ omit_empty ''detail'' (ev_detail e)"

lemma event_fields_line:
  assumes "newline \<notin> set time" and "x \<in> set (event_fields time e)"
  shows "newline \<notin> set x"
proof -
  have "newline \<notin> set (join_str '','' (map json_string (ev_servers e)))"
    by (intro join_line) (auto simp: json_string_line)
  then have servers: "newline \<notin> set (json_field ''servers'' (CHR ''['' # join_str '','' (map json_string (ev_servers e)) @ '']''))"
    by (intro json_field_line) simp_all
  have time: "newline \<notin> set (json_field ''time'' time)"
    using assms(1) by (intro json_field_line) simp_all
  have action: "newline \<notin> set (json_field ''action'' (json_string (ev_action e)))"
    by (intro json_field_line) (simp_all add: json_string_line)
  have omit: "\<forall>x\<in>set (omit_empty name s). newline \<notin> set x" "\<forall>x\<in>set (omit_zero name n). newline \<notin> set x"
    if "newline \<notin> set name" for name s n
    using omit_line [OF that] by blast+
  have "\<forall>x\<in>set (event_fields time e). newline \<notin> set x"
    unfolding event_fields_def set_append ball_Un
    by (intro conjI omit) (simp_all add: time action servers)
  with assms(2) show ?thesis by blast
qed

lemma marshal_event_line:
  assumes "newline \<notin> set time"
  shows "newline \<notin> set (marshal_event time e)"
proof -
  have "newline \<notin> set (join_str '','' (event_fields time e))"
    by (intro join_line) (use event_fields_line [OF assms] in auto)
  then show ?thesis by (simp add: marshal_event_def event_fields_def)
qed

lemma split_lines_concat:
  "\<forall>x\<in>set xs. newline \<notin> set x \<Longrightarrow>
     split_on newline (concat (map (\<lambda>x. x @ [newline]) xs)) = xs @ [[]]"
  by (induction xs) (simp_all add: split_on_append_sep)

text \<open>The log of a list of calls, each with the clock at that call and its event.\<close>

definition log_calls :: "logger \<Rightarrow> (string \<times> audit_event) list \<Rightarrow> string list" where
  "log_calls l calls = fold (\<lambda>(now, e). audit_log l now e) calls []"

definition event_time :: "string \<times> audit_event \<Rightarrow> string" where
  "event_time c = (case ev_time (snd c) of None \<Rightarrow> fst c | Some t \<Rightarrow> t)"

lemma log_calls_writer:
  "log_calls Writer calls = map (\<lambda>c. marshal_event (event_time c) (snd c) @ [newline]) calls"
proof -
  have "fold (\<lambda>(now, e). audit_log Writer now e) calls w =
      w @ map (\<lambda>c. marshal_event (event_time c) (snd c) @ [newline]) calls" for w
    by (induction calls arbitrary: w) (simp_all add: audit_log_def event_time_def split_beta)
  then show ?thesis by (simp add: log_calls_def)
qed

text \<open>
  C39: Whatever bytes the events carry, and whatever the times of the calls, the audit log splits
  at its newlines into one line per call, in order: the event with its own time, or with the clock
  at its call when it has none.
\<close>
theorem audit_one_line_per_event:
  assumes "\<forall>c\<in>set calls. newline \<notin> set (event_time c)"
  shows "split_on newline (concat (log_calls Writer calls)) = map (\<lambda>c. marshal_event (event_time c) (snd c)) calls @ [[]]"
proof -
  have "log_calls Writer calls = map (\<lambda>x. x @ [newline]) (map (\<lambda>c. marshal_event (event_time c) (snd c)) calls)"
    by (simp add: log_calls_writer)
  then show ?thesis
    using split_lines_concat [of "map (\<lambda>c. marshal_event (event_time c) (snd c)) calls"] marshal_event_line assms by simp
qed

theorem audit_one_line_per_event_witness:
  "length (split_on newline (concat (log_calls Writer
       [(''t1'', (new_event ''login'')\<lparr>ev_actor := ''a'' @ [newline] @ ''b''\<rparr>),
        (''t3'', (new_event ''zone_create'')\<lparr>ev_time := Some ''t2''\<rparr>)]))) = 3"
  by (subst audit_one_line_per_event) (simp_all add: new_event_def event_time_def)

end
