(* ===== verification/Sql_Tables.thy ===== *)
theory Sql_Tables
  imports Zone_File "HOL-Library.Product_Lexorder"
begin

section \<open>The SQLite tables and statements\<close>

text \<open>
  The schema of \<open>internal/store/store.go\<close> (\<open>migrate\<close>) and the SQL statements the store
  executes. A table is the list of its rows in insertion order. Each statement is a function
  on the tables; it fails with the constraint it violates, or with the error of the driver.

  The driver is the environment: any statement can also fail with an error of its own (a busy or
  full database). \<open>st_faults\<close> is the schedule of those failures, one entry per statement executed;
  an exhausted schedule means that the driver reports no further error. The theorems quantify
  over every schedule. A statement that fails changes nothing.
\<close>

record zone_row =
  zr_name :: string
  zr_primary_ns :: string
  zr_mbox :: string
  zr_refresh :: u32
  zr_retry :: u32
  zr_expire :: u32
  zr_minimum :: u32
  zr_ttl :: u32
  zr_serial :: u32
  zr_targets :: string
  zr_created_at :: string

record record_row =
  rc_id :: int
  rc_zone :: string
  rc_name :: string
  rc_ttl :: u32
  rc_type :: string
  rc_data :: string

record snapshot_row =
  sn_id :: int
  sn_zone :: string
  sn_serial :: u32
  sn_content :: string
  sn_created_at :: string

text \<open>\<open>AUTOINCREMENT\<close> ids come from a counter per table (\<open>sqlite_sequence\<close>), which never goes back.\<close>

record db =
  db_zones :: "zone_row list"
  db_records :: "record_row list"
  db_snapshots :: "snapshot_row list"
  db_records_seq :: int
  db_snapshots_seq :: int

record store =
  st_db :: db
  st_keep :: int
  st_faults :: "string option list"

datatype store_error =
    ErrNotFound
  | Driver string
  | Primary_key_violated
  | Foreign_key_violated
  | Database_full
  | Zone_already_exists string
  | Import_parse zone_error
  | Snapshot_parse zone_error
  | Zone_failure zone_error

type_synonym 'a store_op = "(store_error, store, 'a) esm"

definition empty_db :: db where
  "empty_db = \<lparr>db_zones = [], db_records = [], db_snapshots = [],
     db_records_seq = 0, db_snapshots_seq = 0\<rparr>"


subsection \<open>Executing a statement\<close>

text \<open>\<open>driver\<close> consumes one entry of the schedule.\<close>

fun driver :: "unit store_op" where
  "driver s =
     (case st_faults s of
        [] \<Rightarrow> (Inr (), s)
      | None # fs \<Rightarrow> (Inr (), s\<lparr>st_faults := fs\<rparr>)
      | Some msg # fs \<Rightarrow> (Inl (Driver msg), s\<lparr>st_faults := fs\<rparr>))"

declare driver.simps [simp del]

definition exec :: "(db \<Rightarrow> store_error + 'a \<times> db) \<Rightarrow> 'a store_op" where
  "exec stmt = bindE driver (\<lambda>_ s.
     case stmt (st_db s) of
       Inl e \<Rightarrow> (Inl e, s)
     | Inr (x, d) \<Rightarrow> (Inr x, s\<lparr>st_db := d\<rparr>))"

definition query :: "(db \<Rightarrow> 'a) \<Rightarrow> 'a store_op" where
  "query q = exec (\<lambda>d. Inr (q d, d))"

text \<open>
  \<open>Begin\<close>, the body, and \<open>Commit\<close>; the deferred \<open>Rollback\<close> puts the tables back when the body or
  the commit fails.
\<close>

definition with_tx :: "'a store_op \<Rightarrow> 'a store_op" where
  "with_tx body = bindE driver (\<lambda>_ s.
     case body s of
       (Inl e, s') \<Rightarrow> (Inl e, s'\<lparr>st_db := st_db s\<rparr>)
     | (Inr x, s') \<Rightarrow>
         (case driver s' of
            (Inl e, s'') \<Rightarrow> (Inl e, s''\<lparr>st_db := st_db s\<rparr>)
          | (Inr _, s'') \<Rightarrow> (Inr x, s'')))"


subsection \<open>Tables with generated ids\<close>

text \<open>
  What \<open>records\<close> and \<open>snapshots\<close> have in common: an id that is unique and never above the counter,
  and a zone that exists.
\<close>

definition table_ok :: "('r \<Rightarrow> int) \<Rightarrow> ('r \<Rightarrow> string) \<Rightarrow> string list \<Rightarrow> int \<Rightarrow> 'r list \<Rightarrow> bool" where
  "table_ok id_of zone_of names seq rows \<longleftrightarrow>
     distinct (map id_of rows) \<and> 0 \<le> seq \<and>
     (\<forall>r\<in>set rows. 1 \<le> id_of r \<and> id_of r \<le> seq \<and> zone_of r \<in> set names)"

locale id_table =
  fixes id_of :: "'r \<Rightarrow> int"
    and zone_of :: "'r \<Rightarrow> string"
    and mk :: "int \<Rightarrow> string \<Rightarrow> 'p \<Rightarrow> 'r"
  assumes id_mk: "id_of (mk i z p) = i"
    and zone_mk: "zone_of (mk i z p) = z"
begin

lemma empty_ok: "table_ok id_of zone_of names 0 []"
  by (simp add: table_ok_def)

lemma insert_ok:
  "table_ok id_of zone_of names seq rows \<Longrightarrow> z \<in> set names \<Longrightarrow>
     table_ok id_of zone_of names (seq + 1) (rows @ [mk (seq + 1) z p])"
  by (force simp: table_ok_def id_mk zone_mk)

lemma insert_fresh:
  "table_ok id_of zone_of names seq rows \<Longrightarrow> seq + 1 \<notin> id_of ` set rows"
  by (force simp: table_ok_def)

lemma filter_ok:
  "table_ok id_of zone_of names seq rows \<Longrightarrow> table_ok id_of zone_of names seq (filter P rows)"
  by (auto simp: table_ok_def distinct_map_filter)

lemma rename_ok:
  "table_ok id_of zone_of names seq rows \<Longrightarrow> set names \<subseteq> set names' \<Longrightarrow>
     table_ok id_of zone_of names' seq rows"
  by (auto simp: table_ok_def)

lemma delete_zone_ok:
  "table_ok id_of zone_of names seq rows \<Longrightarrow>
     table_ok id_of zone_of (filter (\<lambda>n. n \<noteq> z) names) seq (filter (\<lambda>r. zone_of r \<noteq> z) rows)"
  by (auto simp: table_ok_def distinct_map_filter)

lemma update_ok:
  assumes "table_ok id_of zone_of names seq rows"
    and "\<And>r. id_of (f r) = id_of r" and "\<And>r. zone_of (f r) = zone_of r"
  shows "table_ok id_of zone_of names seq (map f rows)"
  using assms by (auto simp: table_ok_def o_def)

lemma id_inj:
  "table_ok id_of zone_of names seq rows \<Longrightarrow> r \<in> set rows \<Longrightarrow> r' \<in> set rows \<Longrightarrow>
     id_of r = id_of r' \<Longrightarrow> r = r'"
  by (auto simp: table_ok_def distinct_map dest: inj_onD)

end

definition mk_record :: "int \<Rightarrow> string \<Rightarrow> string \<times> u32 \<times> string \<times> string \<Rightarrow> record_row" where
  "mk_record i z = (\<lambda>(name, ttl, rtype, data).
     \<lparr>rc_id = i, rc_zone = z, rc_name = name, rc_ttl = ttl, rc_type = rtype, rc_data = data\<rparr>)"

definition mk_snapshot :: "int \<Rightarrow> string \<Rightarrow> u32 \<times> string \<times> string \<Rightarrow> snapshot_row" where
  "mk_snapshot i z = (\<lambda>(serial, content, created).
     \<lparr>sn_id = i, sn_zone = z, sn_serial = serial, sn_content = content, sn_created_at = created\<rparr>)"

interpretation records: id_table rc_id rc_zone mk_record
  by unfold_locales (auto simp: mk_record_def)

interpretation snapshots: id_table sn_id sn_zone mk_snapshot
  by unfold_locales (auto simp: mk_snapshot_def)


subsection \<open>Statements\<close>

abbreviation max_rowid :: int where "max_rowid \<equiv> 2 ^ 63 - 1"

definition zone_names :: "db \<Rightarrow> string list" where
  "zone_names d = map zr_name (db_zones d)"

definition sql_insert_zone :: "zone_row \<Rightarrow> db \<Rightarrow> store_error + unit \<times> db" where
  "sql_insert_zone row d =
     (if zr_name row \<in> set (zone_names d) then Inl Primary_key_violated
      else Inr ((), d\<lparr>db_zones := db_zones d @ [row]\<rparr>))"

definition sql_insert_record ::
    "string \<Rightarrow> string \<Rightarrow> u32 \<Rightarrow> string \<Rightarrow> string \<Rightarrow> db \<Rightarrow> store_error + int \<times> db" where
  "sql_insert_record zone name ttl rtype data d =
     (if zone \<notin> set (zone_names d) then Inl Foreign_key_violated
      else if max_rowid \<le> db_records_seq d then Inl Database_full
      else let i = db_records_seq d + 1 in
        Inr (i, d\<lparr>db_records := db_records d @ [mk_record i zone (name, ttl, rtype, data)],
                  db_records_seq := i\<rparr>))"

definition sql_insert_snapshot ::
    "string \<Rightarrow> u32 \<Rightarrow> string \<Rightarrow> string \<Rightarrow> db \<Rightarrow> store_error + unit \<times> db" where
  "sql_insert_snapshot zone serial content created d =
     (if zone \<notin> set (zone_names d) then Inl Foreign_key_violated
      else if max_rowid \<le> db_snapshots_seq d then Inl Database_full
      else let i = db_snapshots_seq d + 1 in
        Inr ((), d\<lparr>db_snapshots := db_snapshots d @ [mk_snapshot i zone (serial, content, created)],
                   db_snapshots_seq := i\<rparr>))"

text \<open>\<open>UPDATE\<close> and \<open>DELETE\<close> return the number of rows they changed.\<close>

definition update_zones :: "string \<Rightarrow> (zone_row \<Rightarrow> zone_row) \<Rightarrow> db \<Rightarrow> store_error + nat \<times> db" where
  "update_zones name f d =
     Inr (length (filter (\<lambda>z. zr_name z = name) (db_zones d)),
          d\<lparr>db_zones := map (\<lambda>z. if zr_name z = name then f z else z) (db_zones d)\<rparr>)"

definition sql_set_serial :: "string \<Rightarrow> u32 \<Rightarrow> db \<Rightarrow> store_error + nat \<times> db" where
  "sql_set_serial name serial = update_zones name (\<lambda>z. z\<lparr>zr_serial := serial\<rparr>)"

definition sql_update_settings ::
    "string \<Rightarrow> soa_data \<Rightarrow> string \<Rightarrow> db \<Rightarrow> store_error + nat \<times> db" where
  "sql_update_settings name soa targets = update_zones name (\<lambda>z.
     z\<lparr>zr_primary_ns := sd_primary_ns soa, zr_mbox := sd_mbox soa, zr_refresh := sd_refresh soa,
       zr_retry := sd_retry soa, zr_expire := sd_expire soa, zr_minimum := sd_minimum soa,
       zr_ttl := sd_ttl soa, zr_targets := targets\<rparr>)"

definition sql_restore_soa :: "string \<Rightarrow> soa_data \<Rightarrow> db \<Rightarrow> store_error + nat \<times> db" where
  "sql_restore_soa name soa = update_zones name (\<lambda>z.
     z\<lparr>zr_primary_ns := sd_primary_ns soa, zr_mbox := sd_mbox soa, zr_refresh := sd_refresh soa,
       zr_retry := sd_retry soa, zr_expire := sd_expire soa, zr_minimum := sd_minimum soa,
       zr_ttl := sd_ttl soa, zr_serial := sd_serial soa\<rparr>)"

definition sql_delete_zone :: "string \<Rightarrow> db \<Rightarrow> store_error + nat \<times> db" where
  "sql_delete_zone name d =
     Inr (length (filter (\<lambda>z. zr_name z = name) (db_zones d)),
          (if name \<in> set (zone_names d)
           then d\<lparr>db_zones := filter (\<lambda>z. zr_name z \<noteq> name) (db_zones d),
                  db_records := filter (\<lambda>r. rc_zone r \<noteq> name) (db_records d),
                  db_snapshots := filter (\<lambda>n. sn_zone n \<noteq> name) (db_snapshots d)\<rparr>
           else d))"

definition sql_update_record ::
    "string \<Rightarrow> int \<Rightarrow> string \<Rightarrow> u32 \<Rightarrow> string \<Rightarrow> string \<Rightarrow> db \<Rightarrow> store_error + nat \<times> db" where
  "sql_update_record zone i name ttl rtype data d =
     (let hit = (\<lambda>r. rc_id r = i \<and> rc_zone r = zone) in
      Inr (length (filter hit (db_records d)),
           d\<lparr>db_records := map (\<lambda>r. if hit r then r\<lparr>rc_name := name, rc_ttl := ttl, rc_type := rtype,
               rc_data := data\<rparr> else r) (db_records d)\<rparr>))"

definition sql_delete_record :: "string \<Rightarrow> int \<Rightarrow> db \<Rightarrow> store_error + nat \<times> db" where
  "sql_delete_record zone i d =
     (let hit = (\<lambda>r. rc_id r = i \<and> rc_zone r = zone) in
      Inr (length (filter hit (db_records d)),
           d\<lparr>db_records := filter (\<lambda>r. \<not> hit r) (db_records d)\<rparr>))"

definition sql_delete_records :: "string \<Rightarrow> db \<Rightarrow> store_error + unit \<times> db" where
  "sql_delete_records zone d =
     Inr ((), d\<lparr>db_records := filter (\<lambda>r. rc_zone r \<noteq> zone) (db_records d)\<rparr>)"

text \<open>\<open>LIMIT\<close>: a negative limit is none.\<close>

definition sql_limit :: "int \<Rightarrow> 'a list \<Rightarrow> 'a list" where
  "sql_limit k xs = (if k < 0 then xs else take (nat k) xs)"

text \<open>\<open>SELECT ... FROM snapshots WHERE zone=? ORDER BY id DESC\<close>\<close>

definition snapshots_desc :: "string \<Rightarrow> db \<Rightarrow> snapshot_row list" where
  "snapshots_desc zone d = rev (sort_key sn_id (filter (\<lambda>n. sn_zone n = zone) (db_snapshots d)))"

definition sql_prune_snapshots :: "string \<Rightarrow> int \<Rightarrow> db \<Rightarrow> store_error + unit \<times> db" where
  "sql_prune_snapshots zone keep d =
     (let kept = map sn_id (sql_limit keep (snapshots_desc zone d)) in
      Inr ((), d\<lparr>db_snapshots :=
        filter (\<lambda>n. \<not> (sn_zone n = zone \<and> sn_id n \<notin> set kept)) (db_snapshots d)\<rparr>))"

text \<open>\<open>SELECT id,name,ttl,type,data FROM records WHERE zone=? ORDER BY name,type,id\<close>; text is compared
  byte by byte.\<close>

definition record_key :: "record_row \<Rightarrow> string \<times> string \<times> int" where
  "record_key r = (rc_name r, rc_type r, rc_id r)"

definition records_of :: "string \<Rightarrow> db \<Rightarrow> record_row list" where
  "records_of zone d = sort_key record_key (filter (\<lambda>r. rc_zone r = zone) (db_records d))"

definition zone_row_of :: "string \<Rightarrow> db \<Rightarrow> zone_row option" where
  "zone_row_of name d = List.find (\<lambda>z. zr_name z = name) (db_zones d)"

end
