(* ===== verification/Store.thy ===== *)
theory Store
  imports Sql_Tables
begin

section \<open>The store: zones, records, snapshots\<close>

text \<open>
  The operations of \<open>internal/store/store.go\<close>, each as the sequence of statements the Go method
  executes. \<open>created\<close> is the text of \<open>time.Now().UTC()\<close> in RFC 3339 form, an input. A Go
  \<open>store.Zone\<close> is \<open>store_zone\<close>, a \<open>store.Snapshot\<close> is \<open>snapshot\<close>; a \<open>store.Record\<close> is the pair
  of its id and its \<open>zone.Record\<close>.
\<close>

record store_zone =
  sz_name :: string
  sz_primary_ns :: string
  sz_mbox :: string
  sz_refresh :: u32
  sz_retry :: u32
  sz_expire :: u32
  sz_minimum :: u32
  sz_ttl :: u32
  sz_serial :: u32
  sz_targets :: "string list"

definition SOAData :: "store_zone \<Rightarrow> soa_data" where
  "SOAData z =
     \<lparr>sd_primary_ns = sz_primary_ns z, sd_mbox = sz_mbox z, sd_refresh = sz_refresh z,
      sd_retry = sz_retry z, sd_expire = sz_expire z, sd_minimum = sz_minimum z,
      sd_ttl = sz_ttl z, sd_serial = sz_serial z\<rparr>"

record snapshot =
  snap_id :: int
  snap_serial :: u32
  snap_content :: string
  snap_size :: nat
  snap_created_at :: string

definition OpenStore :: "int \<Rightarrow> db \<Rightarrow> string option list \<Rightarrow> store_error + store" where
  "OpenStore keep d faults =
     (let s = \<lparr>st_db = d, st_keep = (if keep \<le> 0 then 20 else keep), st_faults = faults\<rparr> in
      case bindE driver (\<lambda>_. driver) s of
        (Inl e, s') \<Rightarrow> Inl e
      | (Inr _, s') \<Rightarrow> Inr s')"


subsection \<open>Helpers\<close>

definition joinTargets :: "string list \<Rightarrow> string" where
  "joinTargets t = join_str '','' t"

definition splitTargets :: "string \<Rightarrow> string list" where
  "splitTargets s = filter (\<lambda>p. p \<noteq> []) (map trim_space (split_on (CHR '','') s))"

definition notFoundIfNoRows :: "nat \<Rightarrow> unit store_op" where
  "notFoundIfNoRows n = (if n = 0 then failE ErrNotFound else returnE ())"

definition zone_defaults :: "store_zone \<Rightarrow> store_zone" where
  "zone_defaults z =
     z\<lparr>sz_refresh := (if sz_refresh z = 0 then 7200 else sz_refresh z),
       sz_retry := (if sz_retry z = 0 then 3600 else sz_retry z),
       sz_expire := (if sz_expire z = 0 then 1209600 else sz_expire z),
       sz_minimum := (if sz_minimum z = 0 then 3600 else sz_minimum z),
       sz_ttl := (if sz_ttl z = 0 then 3600 else sz_ttl z)\<rparr>"

definition zone_to_row :: "store_zone \<Rightarrow> string \<Rightarrow> zone_row" where
  "zone_to_row z created =
     \<lparr>zr_name = sz_name z, zr_primary_ns = sz_primary_ns z, zr_mbox = sz_mbox z,
      zr_refresh = sz_refresh z, zr_retry = sz_retry z, zr_expire = sz_expire z,
      zr_minimum = sz_minimum z, zr_ttl = sz_ttl z, zr_serial = sz_serial z,
      zr_targets = joinTargets (sz_targets z), zr_created_at = created\<rparr>"

definition scanZone :: "zone_row \<Rightarrow> store_zone" where
  "scanZone row =
     \<lparr>sz_name = zr_name row, sz_primary_ns = zr_primary_ns row, sz_mbox = zr_mbox row,
      sz_refresh = zr_refresh row, sz_retry = zr_retry row, sz_expire = zr_expire row,
      sz_minimum = zr_minimum row, sz_ttl = zr_ttl row, sz_serial = zr_serial row,
      sz_targets = splitTargets (zr_targets row)\<rparr>"

definition scanSnapshot :: "snapshot_row \<Rightarrow> snapshot" where
  "scanSnapshot row =
     \<lparr>snap_id = sn_id row, snap_serial = sn_serial row, snap_content = sn_content row,
      snap_size = length (sn_content row), snap_created_at = sn_created_at row\<rparr>"

definition scanRecord :: "record_row \<Rightarrow> int \<times> zrecord" where
  "scanRecord row =
     (rc_id row, \<lparr>r_name = rc_name row, r_ttl = rc_ttl row, r_class = ''IN'',
                  r_type = rc_type row, r_data = rc_data row\<rparr>)"


subsection \<open>Zones\<close>

definition CreateZone :: "store_zone \<Rightarrow> string \<Rightarrow> unit store_op" where
  "CreateZone z created = exec (sql_insert_zone (zone_to_row (zone_defaults z) created))"

definition GetZone :: "string \<Rightarrow> store_zone store_op" where
  "GetZone name = bindE (query (zone_row_of name)) (\<lambda>r.
     case r of None \<Rightarrow> failE ErrNotFound | Some row \<Rightarrow> returnE (scanZone row))"

definition ZoneExists :: "string \<Rightarrow> bool store_op" where
  "ZoneExists name =
     query (\<lambda>d. 0 < length (filter (\<lambda>z. zr_name z = name) (db_zones d)))"

definition ListZones :: "store_zone list store_op" where
  "ListZones = query (\<lambda>d. map scanZone (sort_key zr_name (db_zones d)))"

definition UpdateZoneSettings :: "store_zone \<Rightarrow> unit store_op" where
  "UpdateZoneSettings z0 =
     (let z = zone_defaults z0 in
      bindE (exec (sql_update_settings (sz_name z) (SOAData z) (joinTargets (sz_targets z))))
        notFoundIfNoRows)"

definition SetSerial :: "string \<Rightarrow> u32 \<Rightarrow> unit store_op" where
  "SetSerial name serial = bindE (exec (sql_set_serial name serial)) notFoundIfNoRows"

definition DeleteZone :: "string \<Rightarrow> unit store_op" where
  "DeleteZone name = bindE (exec (sql_delete_zone name)) notFoundIfNoRows"

fun insert_records :: "string \<Rightarrow> zrecord list \<Rightarrow> unit store_op" where
  "insert_records name [] = returnE ()"
| "insert_records name (r # rs) =
     bindE (exec (sql_insert_record name (r_name r) (r_ttl r) (r_type r) (r_data r)))
       (\<lambda>_. insert_records name rs)"

definition zone_of_soa :: "string \<Rightarrow> soa_data \<Rightarrow> string list \<Rightarrow> store_zone" where
  "zone_of_soa name soa targets =
     \<lparr>sz_name = name, sz_primary_ns = sd_primary_ns soa, sz_mbox = sd_mbox soa,
      sz_refresh = sd_refresh soa, sz_retry = sd_retry soa, sz_expire = sd_expire soa,
      sz_minimum = sd_minimum soa, sz_ttl = sd_ttl soa, sz_serial = sd_serial soa,
      sz_targets = targets\<rparr>"

definition ImportZone ::
    "'r dns_lib \<Rightarrow> string \<Rightarrow> string \<Rightarrow> string list \<Rightarrow> string \<Rightarrow> nat store_op" where
  "ImportZone L name content targets created = bindE (ZoneExists name) (\<lambda>ok.
     if ok then failE (Zone_already_exists name)
     else
       case Parse L content name of
         Inl e \<Rightarrow> failE (Import_parse e)
       | Inr z \<Rightarrow>
           (case SOA z of
              Inl e \<Rightarrow> failE (Zone_failure e)
            | Inr soa \<Rightarrow>
                let recs = DataRecords L z;
                    zr = zone_defaults (zone_of_soa name soa targets)
                in bindE (with_tx (bindE (exec (sql_insert_zone (zone_to_row zr created)))
                                    (\<lambda>_. insert_records name recs)))
                     (\<lambda>_. returnE (length recs))))"


subsection \<open>Records\<close>

definition RecordsOf :: "string \<Rightarrow> (int \<times> zrecord) list store_op" where
  "RecordsOf zoneName = query (\<lambda>d. map scanRecord (records_of zoneName d))"

definition AddRecord :: "string \<Rightarrow> zrecord \<Rightarrow> int store_op" where
  "AddRecord zoneName r =
     exec (sql_insert_record zoneName (r_name r) (r_ttl r) (r_type r) (r_data r))"

definition UpdateRecord :: "string \<Rightarrow> int \<Rightarrow> zrecord \<Rightarrow> unit store_op" where
  "UpdateRecord zoneName i r =
     bindE (exec (sql_update_record zoneName i (r_name r) (r_ttl r) (r_type r) (r_data r)))
       notFoundIfNoRows"

definition DeleteRecord :: "string \<Rightarrow> int \<Rightarrow> unit store_op" where
  "DeleteRecord zoneName i = bindE (exec (sql_delete_record zoneName i)) notFoundIfNoRows"


subsection \<open>Rendering, snapshots\<close>

definition BuildZone :: "'r dns_lib \<Rightarrow> string \<Rightarrow> 'r zone store_op" where
  "BuildZone L name = bindE (GetZone name) (\<lambda>z. bindE (RecordsOf name) (\<lambda>recs.
     case Build L (sz_name z) (SOAData z) (map snd recs) of
       Inl e \<Rightarrow> failE (Zone_failure e)
     | Inr built \<Rightarrow> returnE built))"

definition LastSnapshot :: "string \<Rightarrow> snapshot option store_op" where
  "LastSnapshot name =
     query (\<lambda>d. case sql_limit 1 (snapshots_desc name d) of
                  [] \<Rightarrow> None | row # _ \<Rightarrow> Some (scanSnapshot row))"

definition Dirty :: "'r dns_lib \<Rightarrow> string \<Rightarrow> bool store_op" where
  "Dirty L name = bindE (LastSnapshot name) (\<lambda>snap.
     case snap of
       None \<Rightarrow> returnE True
     | Some sn \<Rightarrow> bindE (tryE (BuildZone L name)) (\<lambda>r.
         case r of
           Inl _ \<Rightarrow> returnE True
         | Inr z \<Rightarrow> returnE (Render L z \<noteq> snap_content sn)))"

definition Publish :: "string \<Rightarrow> string \<Rightarrow> u32 \<Rightarrow> string \<Rightarrow> unit store_op" where
  "Publish name content serial created =
     bindE (SetSerial name serial) (\<lambda>_.
     bindE (exec (sql_insert_snapshot name serial content created)) (\<lambda>_ s.
       exec (sql_prune_snapshots name (st_keep s)) s))"

definition ListSnapshots :: "string \<Rightarrow> snapshot list store_op" where
  "ListSnapshots name = query (\<lambda>d. map scanSnapshot (snapshots_desc name d))"

definition snapshot_content_of :: "string \<Rightarrow> int \<Rightarrow> db \<Rightarrow> string option" where
  "snapshot_content_of name i d =
     map_option sn_content (List.find (\<lambda>n. sn_id n = i \<and> sn_zone n = name) (db_snapshots d))"

definition RestoreSnapshot :: "'r dns_lib \<Rightarrow> string \<Rightarrow> int \<Rightarrow> unit store_op" where
  "RestoreSnapshot L name i = bindE (query (snapshot_content_of name i)) (\<lambda>c.
     case c of
       None \<Rightarrow> failE ErrNotFound
     | Some content \<Rightarrow>
         (case Parse L content name of
            Inl e \<Rightarrow> failE (Snapshot_parse e)
          | Inr z \<Rightarrow>
              (case SOA z of
                 Inl e \<Rightarrow> failE (Zone_failure e)
               | Inr soa \<Rightarrow>
                   let recs = DataRecords L z in
                   with_tx (bindE (exec (sql_restore_soa name soa)) (\<lambda>_.
                            bindE (exec (sql_delete_records name)) (\<lambda>_.
                            insert_records name recs))))))"

end
