(* ===== verification/Config.thy ===== *)
theory Config
  imports Go_Path "HOL-Library.Multiset"
begin

section \<open>Service configuration\<close>

text \<open>
  The model of \<open>internal/config/config.go\<close>. The Go map \<open>Servers\<close> is the list of its entries in
  the order one iteration visits them; Go leaves that order open, so every statement about it holds
  for every order. Reading the file, the YAML decoder, the environment and the random source
  are parameters.
\<close>

record server =
  s_host :: string
  s_port :: int
  s_user :: string
  s_ssh_key :: string
  s_known_hosts :: string
  s_remote_zone_dir :: string
  s_checkzone_cmd :: string
  s_reload_cmd :: string

type_synonym servers = "(string \<times> server) list"

record config =
  c_listen :: string
  c_secure_cookies :: "bool option"
  c_data_dir :: string
  c_audit_log :: string
  c_auth_token_env :: string
  c_cookie_key_env :: string
  c_serial_policy :: string
  c_backup_keep :: int
  c_servers :: servers
  c_auth_token :: string
  c_cookie_key :: string
  c_cookie_key_ephemeral :: bool

datatype hex_error = InvalidByte char | OddLength

datatype config_error =
    Read_config string
  | Parse_config string
  | Bad_serial_policy string
  | Data_dir_missing
  | Host_missing string
  | User_missing string
  | Remote_dir_missing string
  | Token_empty string
  | Key_not_hex string hex_error
  | Key_too_short string
  | Ephemeral_key_failed string

definition DefaultListen :: string where "DefaultListen = ''127.0.0.1:8080''"
definition DefaultDataDir :: string where "DefaultDataDir = ''/opt/mrdns/var''"
definition DefaultTokenEnv :: string where "DefaultTokenEnv = ''MRDNS_TOKEN''"
definition DefaultCookieEnv :: string where "DefaultCookieEnv = ''MRDNS_COOKIE_KEY''"
definition DefaultCheckzone :: string where "DefaultCheckzone = ''named-checkzone''"
definition DefaultBackupKeep :: int where "DefaultBackupKeep = 20"

lemmas config_defaults =
  DefaultListen_def DefaultDataDir_def DefaultTokenEnv_def DefaultCookieEnv_def
  DefaultCheckzone_def DefaultBackupKeep_def


subsection \<open>Defaults and validation\<close>

definition server_defaults :: "server \<Rightarrow> server" where
  "server_defaults s =
     (let s1 = (if s_port s = 0 then s\<lparr>s_port := 22\<rparr> else s) in
      if s_checkzone_cmd s1 = [] then s1\<lparr>s_checkzone_cmd := DefaultCheckzone\<rparr> else s1)"

definition or_default :: "string \<Rightarrow> string \<Rightarrow> string" where
  "or_default d v = (if v = [] then d else v)"

definition applyDefaults :: "config \<Rightarrow> config" where
  "applyDefaults c =
     c\<lparr>c_listen := or_default DefaultListen (c_listen c),
       c_data_dir := or_default DefaultDataDir (c_data_dir c),
       c_auth_token_env := or_default DefaultTokenEnv (c_auth_token_env c),
       c_cookie_key_env := or_default DefaultCookieEnv (c_cookie_key_env c),
       c_serial_policy := or_default ''date'' (c_serial_policy c),
       c_backup_keep := (if c_backup_keep c \<le> 0 then DefaultBackupKeep else c_backup_keep c),
       c_servers := map (\<lambda>(name, s). (name, server_defaults s)) (c_servers c)\<rparr>"

fun validate_servers :: "servers \<Rightarrow> config_error option" where
  "validate_servers [] = None"
| "validate_servers ((name, s) # rest) =
     (if s_host s = [] then Some (Host_missing name)
      else if s_user s = [] then Some (User_missing name)
      else if s_remote_zone_dir s = [] then Some (Remote_dir_missing name)
      else validate_servers rest)"

definition validate :: "config \<Rightarrow> config_error option" where
  "validate c =
     (if c_serial_policy c \<notin> {''date'', ''unixtime'', ''increment''}
      then Some (Bad_serial_policy (c_serial_policy c))
      else if c_data_dir c = [] then Some Data_dir_missing
      else validate_servers (c_servers c))"


subsection \<open>Secrets\<close>

text \<open>\<open>hex.DecodeString\<close> of the standard library.\<close>

definition hex_value :: "char \<Rightarrow> nat option" where
  "hex_value c =
     (if CHR ''0'' \<le> c \<and> c \<le> CHR ''9'' then Some (of_char c - 48)
      else if CHR ''a'' \<le> c \<and> c \<le> CHR ''f'' then Some (of_char c - 87)
      else if CHR ''A'' \<le> c \<and> c \<le> CHR ''F'' then Some (of_char c - 55)
      else None)"

fun hex_decode :: "string \<Rightarrow> hex_error + string" where
  "hex_decode [] = Inr []"
| "hex_decode [p] = (case hex_value p of None \<Rightarrow> Inl (InvalidByte p) | Some _ \<Rightarrow> Inl OddLength)"
| "hex_decode (p # q # rest) =
     (case hex_value p of None \<Rightarrow> Inl (InvalidByte p) | Some a \<Rightarrow>
      (case hex_value q of None \<Rightarrow> Inl (InvalidByte q) | Some b \<Rightarrow>
       (case hex_decode rest of Inl e \<Rightarrow> Inl e | Inr bytes \<Rightarrow> Inr (char_of (16 * a + b) # bytes))))"

text \<open>
  \<open>getenv\<close> is \<open>os.Getenv\<close>. \<open>rand_err\<close> and \<open>rand_byte\<close> are the outcome of \<open>rand.Read\<close> on the
  32-byte buffer: an error, or byte \<open>i\<close> of the buffer.
\<close>

definition resolveSecrets ::
    "(string \<Rightarrow> string) \<Rightarrow> string option \<Rightarrow> (nat \<Rightarrow> char) \<Rightarrow> config \<Rightarrow> config_error + config" where
  "resolveSecrets getenv rand_err rand_byte c0 =
     (let c = c0\<lparr>c_auth_token := getenv (c_auth_token_env c0)\<rparr> in
      if c_auth_token c = [] then Inl (Token_empty (c_auth_token_env c))
      else
        let raw = trim_space (getenv (c_cookie_key_env c)) in
        if raw \<noteq> [] then
          (case hex_decode raw of
             Inl e \<Rightarrow> Inl (Key_not_hex (c_cookie_key_env c) e)
           | Inr key \<Rightarrow>
               if length key < 32 then Inl (Key_too_short (c_cookie_key_env c))
               else Inr (c\<lparr>c_cookie_key := key\<rparr>))
        else
          (case rand_err of
             Some e \<Rightarrow> Inl (Ephemeral_key_failed e)
           | None \<Rightarrow>
               Inr (c\<lparr>c_cookie_key := map rand_byte [0..<32], c_cookie_key_ephemeral := True\<rparr>)))"

definition LoadNoSecrets ::
    "(string \<Rightarrow> string + string) \<Rightarrow> (string \<Rightarrow> string + config) \<Rightarrow> string \<Rightarrow> config_error + config" where
  "LoadNoSecrets read_file yaml_unmarshal path =
     (case read_file path of
        Inl e \<Rightarrow> Inl (Read_config e)
      | Inr data \<Rightarrow>
          (case yaml_unmarshal data of
             Inl e \<Rightarrow> Inl (Parse_config e)
           | Inr c \<Rightarrow>
               let cfg = applyDefaults c in
               (case validate cfg of Some e \<Rightarrow> Inl e | None \<Rightarrow> Inr cfg)))"

definition Load ::
    "(string \<Rightarrow> string + string) \<Rightarrow> (string \<Rightarrow> string + config) \<Rightarrow> (string \<Rightarrow> string) \<Rightarrow>
     string option \<Rightarrow> (nat \<Rightarrow> char) \<Rightarrow> string \<Rightarrow> config_error + config" where
  "Load read_file yaml_unmarshal getenv rand_err rand_byte path =
     (case LoadNoSecrets read_file yaml_unmarshal path of
        Inl e \<Rightarrow> Inl e
      | Inr cfg \<Rightarrow> resolveSecrets getenv rand_err rand_byte cfg)"

definition SecureCookiesEnabled :: "config \<Rightarrow> bool" where
  "SecureCookiesEnabled c = (case c_secure_cookies c of None \<Rightarrow> True | Some b \<Rightarrow> b)"

definition DBPath :: "config \<Rightarrow> string" where
  "DBPath c = path_join (c_data_dir c) ''mrdns.db''"


subsection \<open>The sorted server names\<close>

text \<open>
  The insertion sort of \<open>ServerNames\<close>, index by index: \<open>sift j\<close> is the inner loop from \<open>j\<close>
  downwards, the outer loop runs it for \<open>i = 1, \<dots>, len - 1\<close>.
\<close>

fun sift :: "nat \<Rightarrow> string list \<Rightarrow> string list" where
  "sift 0 names = names"
| "sift (Suc j) names =
     (if names ! Suc j < names ! j
      then sift j (names[Suc j := names ! j, j := names ! Suc j])
      else names)"

definition ServerNames :: "config \<Rightarrow> string list" where
  "ServerNames c =
     (let names = map fst (c_servers c) in fold sift [1..<length names] names)"

lemma insort_snoc_less: "sorted ys \<Longrightarrow> x < y \<Longrightarrow> insort x (ys @ [y]) = insort x ys @ [(y :: string)]"
  by (induction ys) auto

lemma insort_snoc_ge:
  assumes "sorted (ys @ [y])" and "\<not> x < (y :: string)"
  shows "insort x (ys @ [y]) = ys @ [y, x]"
proof -
  have "sorted (ys @ [y, x])"
    using assms by (auto simp: sorted_append not_less intro: order_trans)
  moreover have "mset (ys @ [y, x]) = mset (insort x (ys @ [y]))" by simp
  ultimately have "sort (insort x (ys @ [y])) = ys @ [y, x]"
    by (intro properties_for_sort) auto
  moreover have "sort (insort x (ys @ [y])) = insort x (ys @ [y])"
    using assms(1) by (simp add: sorted_sort_id sorted_insort)
  ultimately show ?thesis by simp
qed

lemma sift_insort:
  "sorted xs \<Longrightarrow> sift (length xs) (xs @ x # zs) = insort x xs @ zs"
proof (induction xs arbitrary: zs rule: rev_induct)
  case Nil
  then show ?case by simp
next
  case (snoc y ys)
  then have ys: "sorted ys" by (simp add: sorted_append)
  show ?case
  proof (cases "x < y")
    case True
    have "sift (length (ys @ [y])) ((ys @ [y]) @ x # zs) = sift (length ys) (ys @ x # y # zs)"
      using True by (simp add: nth_append list_update_append)
    also have "\<dots> = insort x ys @ y # zs" by (rule snoc.IH [OF ys])
    finally show ?thesis using True ys by (simp add: insort_snoc_less)
  next
    case False
    with snoc.prems show ?thesis by (simp add: nth_append insort_snoc_ge)
  qed
qed

lemma fold_sift_take:
  "i \<le> length names \<Longrightarrow>
     fold sift [1..<i] names = sort (take i names) @ drop i names"
proof (induction i)
  case 0
  then show ?case by simp
next
  case (Suc i)
  show ?case
  proof (cases "i = 0")
    case True
    with Suc.prems show ?thesis by (cases names) auto
  next
    case False
    let ?s = "sort (take i names)"
    have "fold sift [1..<Suc i] names = sift i (?s @ drop i names)"
      using False Suc by simp
    also have "\<dots> = sift (length ?s) (?s @ names ! i # drop (Suc i) names)"
      using Suc.prems by (simp add: Cons_nth_drop_Suc)
    also have "\<dots> = insort (names ! i) ?s @ drop (Suc i) names"
      by (rule sift_insort) simp
    also have "insort (names ! i) ?s = sort (take (Suc i) names)"
      using Suc.prems by (intro properties_for_sort [symmetric])
        (auto simp: take_Suc_conv_app_nth sorted_insort)
    finally show ?thesis .
  qed
qed

lemma ServerNames_sort: "ServerNames c = sort (map fst (c_servers c))"
  using fold_sift_take [of "length (c_servers c)" "map fst (c_servers c)"]
  by (simp add: ServerNames_def)



subsection \<open>What a loaded configuration guarantees\<close>

definition server_ok :: "server \<Rightarrow> bool" where
  "server_ok s \<longleftrightarrow> s_host s \<noteq> [] \<and> s_user s \<noteq> [] \<and> s_remote_zone_dir s \<noteq> []"

lemma server_defaults_ok [simp]: "server_ok (server_defaults s) = server_ok s"
  by (simp add: server_ok_def server_defaults_def Let_def)

lemma server_defaults_filled:
  "s_port (server_defaults s) \<noteq> 0" "s_checkzone_cmd (server_defaults s) \<noteq> []"
  by (simp_all add: server_defaults_def Let_def DefaultCheckzone_def)

lemma validate_servers_None:
  "validate_servers ss = None \<longleftrightarrow> (\<forall>(name, s)\<in>set ss. server_ok s)"
  by (induction ss rule: validate_servers.induct) (auto simp: server_ok_def)

lemma or_default_nonempty: "d \<noteq> [] \<Longrightarrow> or_default d v \<noteq> []"
  by (simp add: or_default_def)

lemma applyDefaults_servers:
  "c_servers (applyDefaults c) = map (\<lambda>(name, s). (name, server_defaults s)) (c_servers c)"
  by (simp add: applyDefaults_def)

lemma server_defaults_idem: "server_defaults (server_defaults s) = server_defaults s"
  by (simp add: server_defaults_def Let_def DefaultCheckzone_def)

lemma applyDefaults_idem: "applyDefaults (applyDefaults c) = applyDefaults c"
  by (simp add: applyDefaults_def or_default_def config_defaults server_defaults_idem split_def)

lemma resolveSecrets_ok:
  assumes "resolveSecrets getenv rand_err rand_byte c = Inr cfg"
  shows "c_auth_token cfg \<noteq> [] \<and> c_auth_token cfg = getenv (c_auth_token_env c) \<and> 32 \<le> length (c_cookie_key cfg)
    \<and> c_servers cfg = c_servers c \<and> c_serial_policy cfg = c_serial_policy c
    \<and> c_data_dir cfg = c_data_dir c \<and> c_backup_keep cfg = c_backup_keep c"
  using assms
  by (auto simp: resolveSecrets_def Let_def split: if_splits sum.splits option.splits)

lemma LoadNoSecrets_ok:
  assumes "LoadNoSecrets read_file yaml path = Inr cfg"
  obtains data c where "read_file path = Inr data" and "yaml data = Inr c" and "cfg = applyDefaults c"
    and "validate cfg = None"
  using assms by (auto simp: LoadNoSecrets_def Let_def split: sum.splits option.splits)

text \<open>
  Defaults and validation accept a configuration exactly when its policy is empty or one of
  the three and every server has host, user and zone directory; nothing else a file can contain is
  rejected.
\<close>
theorem applyDefaults_validate_iff:
  "validate (applyDefaults c) = None \<longleftrightarrow>
     c_serial_policy c \<in> {[], ''date'', ''unixtime'', ''increment''}
     \<and> (\<forall>p\<in>set (c_servers c). server_ok (snd p))"
proof -
  have "c_data_dir (applyDefaults c) \<noteq> []"
    by (simp add: applyDefaults_def or_default_nonempty DefaultDataDir_def)
  moreover have "c_serial_policy (applyDefaults c) \<in> {''date'', ''unixtime'', ''increment''} \<longleftrightarrow>
      c_serial_policy c \<in> {[], ''date'', ''unixtime'', ''increment''}"
    by (auto simp: applyDefaults_def or_default_def)
  moreover have "validate_servers (c_servers (applyDefaults c)) = None \<longleftrightarrow>
      (\<forall>p\<in>set (c_servers c). server_ok (snd p))"
    by (auto simp: validate_servers_None applyDefaults_servers)
  ultimately show ?thesis by (simp add: validate_def)
qed

text \<open>
  A configuration that Load returns has one of the three serial policies, a data directory, a
  positive snapshot count, an access token, a cookie key of at least 32 bytes, and only servers
  with host, user, zone directory, port and check command.
\<close>
theorem Load_valid:
  assumes "Load read_file yaml getenv rand_err rand_byte path = Inr cfg"
  shows "c_serial_policy cfg \<in> {''date'', ''unixtime'', ''increment''} \<and> c_data_dir cfg \<noteq> []
    \<and> 0 < c_backup_keep cfg \<and> c_auth_token cfg \<noteq> [] \<and> 32 \<le> length (c_cookie_key cfg)
    \<and> (\<forall>p\<in>set (c_servers cfg). server_ok (snd p) \<and> s_port (snd p) \<noteq> 0 \<and> s_checkzone_cmd (snd p) \<noteq> [])"
proof -
  from assms obtain c1 where c1: "LoadNoSecrets read_file yaml path = Inr c1"
    and sec: "resolveSecrets getenv rand_err rand_byte c1 = Inr cfg"
    by (auto simp: Load_def split: sum.splits)
  from c1 obtain c where c: "c1 = applyDefaults c" and v: "validate c1 = None"
    by (rule LoadNoSecrets_ok)
  note r = resolveSecrets_ok [OF sec]
  have "0 < c_backup_keep c1" by (simp add: c applyDefaults_def DefaultBackupKeep_def)
  moreover from v have "c_serial_policy c1 \<in> {''date'', ''unixtime'', ''increment''}"
    and "c_data_dir c1 \<noteq> []" and "validate_servers (c_servers c1) = None"
    by (auto simp: validate_def split: if_splits)
  moreover have "\<forall>p\<in>set (c_servers c1). s_port (snd p) \<noteq> 0 \<and> s_checkzone_cmd (snd p) \<noteq> []"
    by (auto simp: c applyDefaults_servers server_defaults_filled)
  ultimately show ?thesis
    using r by (auto simp: validate_servers_None)
qed

text \<open>
  ServerNames, an insertion sort over a Go map, is sorted, has exactly the configured names,
  and does not depend on the iteration order of the map.
\<close>
theorem ServerNames_any_order:
  assumes "mset (c_servers c) = mset (c_servers c')"
  shows "ServerNames c = ServerNames c' \<and> sorted (ServerNames c)
    \<and> set (ServerNames c) = dom (map_of (c_servers c'))"
proof -
  have m: "mset (map fst (c_servers c)) = mset (map fst (c_servers c'))"
    using assms by simp
  then have "ServerNames c = ServerNames c'"
    unfolding ServerNames_sort by (intro properties_for_sort) simp_all
  moreover have "set (map fst (c_servers c)) = set (map fst (c_servers c'))"
    using m by (rule mset_eq_setD)
  ultimately show ?thesis by (simp add: ServerNames_sort dom_map_of_conv_image_fst)
qed

end
