(* ===== verification/Ssh_Remote.thy ===== *)
theory Ssh_Remote
  imports Config Zone_File
begin

section \<open>Remote commands and connections\<close>

text \<open>
  The model of the parts of \<open>internal/deploy/ssh.go\<close> that are logic of their own: quoting for the remote
  shell, the remote file names, opening a connection, and reading the live serial. The SSH,
  SFTP and DNS clients are parameters.
\<close>


subsection \<open>Quoting\<close>

abbreviation quote :: char where "quote \<equiv> CHR 0x27"
abbreviation backslash :: char where "backslash \<equiv> CHR 0x5C"

definition shellQuote :: "string \<Rightarrow> string" where
  "shellQuote s = [quote] @ replace_all [quote] [quote, backslash, quote, quote] s @ [quote]"

text \<open>
  The remote side reads the command line with a POSIX shell. Its rules for splitting a simple command
  into words, as far as the commands of the pipeline need them: blanks separate words; between
  single quotes every character stands for itself; a backslash outside quotes takes the next
  character literally; a character with a meaning of its own (an operator, an expansion, a comment, a
  newline) makes the line more than a list of words, which is \<open>None\<close>.
\<close>

definition plain_char :: "char \<Rightarrow> bool" where
  "plain_char c \<longleftrightarrow> c \<in> set ''abcdefghijklmnopqrstuvwxyzABCDEFGHIJKLMNOPQRSTUVWXYZ0123456789-_./+,:@%''"

definition cur_word :: "string option \<Rightarrow> string" where
  "cur_word cur = (case cur of None \<Rightarrow> [] | Some w \<Rightarrow> w)"

lemma cur_word_simps [simp]: "cur_word None = []" "cur_word (Some w) = w"
  by (simp_all add: cur_word_def)

fun sh_unquoted :: "string option \<Rightarrow> string \<Rightarrow> string list option"
and sh_quoted :: "string \<Rightarrow> string \<Rightarrow> string list option" where
  "sh_unquoted None [] = Some []"
| "sh_unquoted (Some w) [] = Some [w]"
| "sh_unquoted cur (c # cs) =
     (if c = CHR '' '' \<or> c = CHR 0x09 then
        (case cur of None \<Rightarrow> sh_unquoted None cs
         | Some w \<Rightarrow> map_option (\<lambda>ws. w # ws) (sh_unquoted None cs))
      else if c = quote then sh_quoted (cur_word cur) cs
      else if c = backslash then
        (case cs of
           [] \<Rightarrow> None
         | d # ds \<Rightarrow> if d = CHR 0x0A then None
                    else sh_unquoted (Some (cur_word cur @ [d])) ds)
      else if plain_char c then
        sh_unquoted (Some (cur_word cur @ [c])) cs
      else None)"
| "sh_quoted w [] = None"
| "sh_quoted w (c # cs) =
     (if c = quote then sh_unquoted (Some w) cs else sh_quoted (w @ [c]) cs)"

definition sh_words :: "string \<Rightarrow> string list option" where
  "sh_words line = sh_unquoted None line"

lemma sh_quoted_body:
  "sh_quoted w (replace_all [quote] [quote, backslash, quote, quote] s @ quote # rest) =
     sh_unquoted (Some (w @ s)) rest"
proof (induction s arbitrary: w)
  case Nil
  then show ?case by simp
next
  case (Cons c s)
  show ?case
  proof (cases "c = quote")
    case True
    then have "sh_quoted w (replace_all [quote] [quote, backslash, quote, quote] (c # s) @ quote # rest)
        = sh_quoted (w @ [quote]) (replace_all [quote] [quote, backslash, quote, quote] s @ quote # rest)"
      by simp
    with Cons True show ?thesis by simp
  next
    case False
    then show ?thesis using Cons by simp
  qed
qed

lemma sh_unquoted_shellQuote:
  "sh_unquoted cur (shellQuote s @ rest) =
     sh_unquoted (Some (cur_word cur @ s)) rest"
  using sh_quoted_body [of "cur_word cur" s rest]
  by (cases cur) (simp_all add: shellQuote_def)

lemma sh_unquoted_blank: "sh_unquoted (Some w) (CHR '' '' # rest) = map_option (\<lambda>ws. w # ws) (sh_unquoted None rest)"
  by simp

lemma sh_words_shellQuote: "sh_words (shellQuote s) = Some [s]"
  using sh_unquoted_shellQuote [of None s "[]"] by (simp add: sh_words_def cur_word_def)

lemma sh_unquoted_quoted_arg:
  "sh_unquoted None (shellQuote s @ CHR '' '' # rest) = map_option (\<lambda>ws. s # ws) (sh_unquoted None rest)"
  by (simp only: sh_unquoted_shellQuote sh_unquoted_blank cur_word_def option.case append_Nil)

text \<open>A complete command followed by a blank and more words.\<close>

lemma sh_unquoted_append:
  "sh_unquoted cur p = Some ws \<Longrightarrow>
     sh_unquoted cur (p @ CHR '' '' # rest) = map_option (\<lambda>vs. ws @ vs) (sh_unquoted None rest)"
  and sh_quoted_append:
  "sh_quoted w p = Some ws \<Longrightarrow>
     sh_quoted w (p @ CHR '' '' # rest) = map_option (\<lambda>vs. ws @ vs) (sh_unquoted None rest)"
proof (induction cur p and w p arbitrary: ws and ws rule: sh_unquoted_sh_quoted.induct)
  case 1
  then show ?case by (simp add: option.map_ident)
next
  case (2 w)
  then show ?case by auto
next
  case (3 cur c cs)
  consider (blank) "c = CHR '' '' \<or> c = CHR 0x09" | (quoted) "c = quote" | (escaped) "c = backslash"
    | (plain) "\<not> (c = CHR '' '' \<or> c = CHR 0x09)" "c \<noteq> quote" "c \<noteq> backslash" "plain_char c"
    | (other) "\<not> (c = CHR '' '' \<or> c = CHR 0x09)" "c \<noteq> quote" "c \<noteq> backslash" "\<not> plain_char c"
    by blast
  then show ?case
  proof cases
    case blank
    show ?thesis
    proof (cases cur)
      case None
      with 3(6) blank have "sh_unquoted None cs = Some ws" by (simp split: if_splits)
      from 3(1) [OF blank None this] show ?thesis using None blank by auto
    next
      case (Some w)
      with 3(6) blank obtain vs where vs: "sh_unquoted None cs = Some vs" "ws = w # vs" by auto
      from 3(2) [OF blank Some vs(1)] show ?thesis using Some blank vs(2)
        by (auto simp: option.map_comp o_def)
    qed
  next
    case quoted
    then have "\<not> (c = CHR '' '' \<or> c = CHR 0x09)" by simp
    with 3(3) [OF this quoted] 3(6) quoted show ?thesis by simp
  next
    case escaped
    then have nb: "\<not> (c = CHR '' '' \<or> c = CHR 0x09)" and nq: "c \<noteq> quote" by simp_all
    from 3(6) escaped obtain d ds where cs: "cs = d # ds" and d: "d \<noteq> CHR 0x0A"
      and ws: "sh_unquoted (Some (cur_word cur @ [d])) ds = Some ws"
      by (cases cs) (auto split: if_splits)
    from 3(4) [OF nb nq escaped cs d ws] show ?thesis using cs d escaped by simp
  next
    case plain
    with 3(6) have "sh_unquoted (Some (cur_word cur @ [c])) cs = Some ws" by simp
    from 3(5) [OF plain this] show ?thesis using plain by simp
  next
    case other
    with 3(6) show ?thesis by simp
  qed
next
  case (4 w)
  then show ?case by simp
next
  case (5 w c cs)
  then show ?case by (simp split: if_splits)
qed

lemma sh_words_then_quoted:
  assumes "sh_words p = Some ws"
  shows "sh_words (p @ CHR '' '' # shellQuote s) = Some (ws @ [s])"
  using sh_unquoted_append [OF assms [unfolded sh_words_def], of "shellQuote s"] sh_words_shellQuote [of s]
  by (simp add: sh_words_def)


subsection \<open>Remote file names\<close>

text \<open>\<open>random\<close> are the eight bytes that \<open>rand.Read\<close> delivers, \<open>hex_encode\<close> is \<open>hex.EncodeToString\<close>.\<close>

definition hex_digit :: "nat \<Rightarrow> char" where
  "hex_digit d = ''0123456789abcdef'' ! d"

definition hex_encode :: "8 word list \<Rightarrow> string" where
  "hex_encode bytes = concat (map (\<lambda>b. [hex_digit (unat b div 16), hex_digit (unat b mod 16)]) bytes)"

definition randomSuffix :: "(nat \<Rightarrow> 8 word) \<Rightarrow> string" where
  "randomSuffix random = hex_encode (map random [0..<8])"

definition remoteFinalPath :: "server \<Rightarrow> string \<Rightarrow> string" where
  "remoteFinalPath srv file = path_join (s_remote_zone_dir srv) (path_base file)"

definition remoteTmpPath :: "(nat \<Rightarrow> 8 word) \<Rightarrow> server \<Rightarrow> string \<Rightarrow> string" where
  "remoteTmpPath random srv file =
     path_join (s_remote_zone_dir srv) (''.mrdns-'' @ path_base file @ ''-'' @ randomSuffix random @ ''.tmp'')"

definition remoteFile :: "string \<Rightarrow> string" where
  "remoteFile zoneName = zoneName @ ''.zone''"


lemma hex_encode_no_slash: "slash \<notin> set (hex_encode bytes)"
proof -
  have h: "hex_digit d \<noteq> slash" if "d < 16" for d
  proof -
    have "hex_digit d \<in> set ''0123456789abcdef''"
      unfolding hex_digit_def using that by (intro nth_mem) simp
    moreover have "slash \<notin> set ''0123456789abcdef''" by (simp add: slash_def)
    ultimately show ?thesis by metis
  qed
  have "unat (b :: 8 word) div 16 < 16" "unat b mod 16 < 16" for b
    using unsigned_less [of b, where ?'a = nat] by (simp_all add: less_mult_imp_div_less)
  with h have "slash \<notin> {hex_digit (unat (b :: 8 word) div 16), hex_digit (unat b mod 16)}" for b
    by (metis empty_iff insert_iff)
  then show ?thesis by (auto simp: hex_encode_def)
qed

lemma remoteFile_base:
  "\<exists>b. path_base (remoteFile z) = b @ ''.zone'' \<and> slash \<notin> set b"
  unfolding remoteFile_def by (rule path_base_suffix) (simp_all add: slash_def)

lemma remoteFinalPath_form:
  "\<exists>b. slash \<notin> set b \<and> remoteFinalPath srv (remoteFile z) = dir_prefix (s_remote_zone_dir srv) @ b @ ''.zone''
     \<and> path_base (remoteFile z) = b @ ''.zone''"
proof -
  obtain b where b: "path_base (remoteFile z) = b @ ''.zone''" "slash \<notin> set b"
    using remoteFile_base by blast
  have "plain_name (b @ ''.zone'')"
    using b(2) by (auto simp: plain_name_def slash_def append_eq_Cons_conv)
  from path_join_in_dir [OF this] b show ?thesis unfolding remoteFinalPath_def by metis
qed

lemma remoteTmpPath_form:
  "\<exists>b. slash \<notin> set b \<and> remoteTmpPath random srv (remoteFile z) =
     dir_prefix (s_remote_zone_dir srv) @ ''.mrdns-'' @ b @ ''.zone-'' @ randomSuffix random @ ''.tmp''"
proof -
  obtain b where b: "path_base (remoteFile z) = b @ ''.zone''" "slash \<notin> set b"
    using remoteFile_base by blast
  define t where "t = ''.mrdns-'' @ b @ ''.zone-'' @ randomSuffix random @ ''.tmp''"
  have "plain_name t"
    using b(2) hex_encode_no_slash
    by (auto simp: plain_name_def t_def randomSuffix_def) (simp_all add: slash_def)
  from path_join_in_dir [OF this, of "s_remote_zone_dir srv"]
  have "remoteTmpPath random srv (remoteFile z) = dir_prefix (s_remote_zone_dir srv) @ t"
    by (simp add: remoteTmpPath_def b(1) t_def)
  with b(2) show ?thesis unfolding t_def by blast
qed

lemma remoteTmpPath_nonempty: "remoteTmpPath random srv (remoteFile z) \<noteq> []"
  using remoteTmpPath_form [of random srv z] by auto

text \<open>
  C25: The final and the temporary remote path of any zone name are a file directly inside the
  configured zone directory: the last component has no slash and is not a dot name, whatever
  slashes and dots the zone name has.
\<close>
theorem remote_paths_in_zone_dir:
  "\<exists>f t. remoteFinalPath srv (remoteFile z) = dir_prefix (s_remote_zone_dir srv) @ f
     \<and> remoteTmpPath random srv (remoteFile z) = dir_prefix (s_remote_zone_dir srv) @ t
     \<and> slash \<notin> set f \<and> slash \<notin> set t \<and> suffix ''.zone'' f \<and> suffix ''.tmp'' t
     \<and> f \<notin> {''.'', ''..''} \<and> t \<notin> {''.'', ''..''}"
proof -
  obtain b where b: "slash \<notin> set b"
      "remoteFinalPath srv (remoteFile z) = dir_prefix (s_remote_zone_dir srv) @ b @ ''.zone''"
    using remoteFinalPath_form by blast
  obtain c where c: "slash \<notin> set c" "remoteTmpPath random srv (remoteFile z) =
      dir_prefix (s_remote_zone_dir srv) @ ''.mrdns-'' @ c @ ''.zone-'' @ randomSuffix random @ ''.tmp''"
    using remoteTmpPath_form by blast
  let ?t = "''.mrdns-'' @ c @ ''.zone-'' @ randomSuffix random @ ''.tmp''"
  have "slash \<notin> set (b @ ''.zone'')" "b @ ''.zone'' \<notin> {''.'', ''..''}"
    using b(1) by (auto simp: slash_def append_eq_Cons_conv)
  moreover have "slash \<notin> set ?t"
    using c(1) hex_encode_no_slash by (simp add: randomSuffix_def) (simp add: slash_def)
  moreover have "?t \<notin> {''.'', ''..''}" by simp
  moreover have "suffix ''.zone'' (b @ ''.zone'')" "suffix ''.tmp'' ?t" by (simp_all add: suffix_def)
  ultimately show ?thesis using b(2) c(2) by blast
qed


subsection \<open>The commands of the pipeline\<close>

definition checkCommand :: "server \<Rightarrow> string \<Rightarrow> string \<Rightarrow> string" where
  "checkCommand srv zoneFqdn tmp =
     s_checkzone_cmd srv @ '' '' @ shellQuote zoneFqdn @ '' '' @ shellQuote tmp"

definition moveCommand :: "string \<Rightarrow> string \<Rightarrow> string" where
  "moveCommand tmp dst = ''mv -f -- '' @ shellQuote tmp @ '' '' @ shellQuote dst"

definition removeCommand :: "string \<Rightarrow> string" where
  "removeCommand tmp = ''rm -f -- '' @ shellQuote tmp"

definition reloadCommand :: "server \<Rightarrow> string \<Rightarrow> string" where
  "reloadCommand srv zoneName = replace_all ''{zone}'' (shellQuote zoneName) (s_reload_cmd srv)"

lemma sh_words_mv: "sh_words ''mv -f --'' = Some [''mv'', ''-f'', ''--'']"
  by (simp add: sh_words_def plain_char_def)

lemma sh_words_rm: "sh_words ''rm -f --'' = Some [''rm'', ''-f'', ''--'']"
  by (simp add: sh_words_def plain_char_def)

lemma sh_words_two_quoted:
  assumes "sh_words p = Some ws"
  shows "sh_words (p @ CHR '' '' # shellQuote a @ CHR '' '' # shellQuote b) = Some (ws @ [a, b])"
proof -
  have "sh_unquoted None (shellQuote a @ CHR '' '' # shellQuote b) = Some [a, b]"
    using sh_words_shellQuote [of b] by (simp only: sh_unquoted_quoted_arg sh_words_def) simp
  then show ?thesis
    using sh_unquoted_append [OF assms [unfolded sh_words_def]] by (simp add: sh_words_def)
qed

text \<open>A template in which the placeholder occurs once, at the end.\<close>

lemma replace_all_at_end:
  assumes "\<And>u v. p @ old = u @ old @ v \<Longrightarrow> v = []" and "old \<noteq> []"
  shows "replace_all old new (p @ old) = p @ new"
  using assms(1)
proof (induction p)
  case Nil
  obtain c cs where "old = c # cs" using assms(2) by (cases old) auto
  then show ?case by simp
next
  case (Cons c p)
  have "\<not> prefix old (c # p @ old)"
  proof
    assume "prefix old (c # p @ old)"
    then obtain v where v: "c # p @ old = old @ v" by (auto simp: prefix_def)
    then have "v = []" using Cons.prems [of "[]" v] by simp
    with v show False by (auto dest: arg_cong [where f = length])
  qed
  moreover have "p @ old = u @ old @ v \<Longrightarrow> v = []" for u v
    using Cons.prems [of "c # u" v] by simp
  ultimately show ?case using Cons.IH by simp
qed

lemma placeholder_once:
  assumes "\<And>u v. reload \<noteq> u @ ''{zone}'' @ v"
    and "(reload @ '' '') @ ''{zone}'' = u @ ''{zone}'' @ v"
  shows "v = []"
proof (rule ccontr)
  assume "v \<noteq> []"
  from assms(2) have eq: "reload @ '' {zone}'' = u @ ''{zone}'' @ v" by simp
  then have len: "length reload + 7 = length u + 6 + length v"
    by (auto dest: arg_cong [where f = length])
  with \<open>v \<noteq> []\<close> have u: "length u \<le> length reload" by (cases v) auto
  show False
  proof (cases "length u + 6 \<le> length reload")
    case True
    have "prefix (u @ ''{zone}'') (u @ ''{zone}'' @ v)" by (simp add: prefix_def)
    moreover have "prefix reload (u @ ''{zone}'' @ v)"
      by (subst eq [symmetric]) (rule prefixI, rule refl)
    ultimately have "prefix (u @ ''{zone}'') reload"
      by (rule prefix_length_prefix) (use True in simp)
    then obtain w where "reload = u @ ''{zone}'' @ w" by (auto simp: prefix_def)
    with assms(1) show False by blast
  next
    case False
    have "(reload @ '' {zone}'') ! length reload = CHR '' ''" by simp
    moreover have "(u @ ''{zone}'' @ v) ! length reload = ''{zone}'' ! (length reload - length u)"
    proof -
      have "(u @ P @ v) ! n = P ! (n - length u)"
        if "length u \<le> n" and "n < length u + length P" for P :: string and n
        using that by (auto simp: nth_append)
      from this [of "length reload" "''{zone}''"] u False show ?thesis by simp
    qed
    moreover have "''{zone}'' ! (length reload - length u) \<in> set ''{zone}''"
      using False by (intro nth_mem) simp
    ultimately have "CHR '' '' \<in> set ''{zone}''" using eq by metis
    then show False by simp
  qed
qed

lemma reloadCommand_text:
  assumes "s_reload_cmd srv = reload @ '' {zone}''" and "\<And>u v. reload \<noteq> u @ ''{zone}'' @ v"
  shows "reloadCommand srv zoneName = reload @ CHR '' '' # shellQuote zoneName"
proof -
  have "replace_all ''{zone}'' (shellQuote zoneName) ((reload @ '' '') @ ''{zone}'') = (reload @ '' '') @ shellQuote zoneName"
    by (rule replace_all_at_end [OF placeholder_once [OF assms(2)]]) simp_all
  then show ?thesis using assms(1) by (simp add: reloadCommand_def)
qed

text \<open>
  C24: Read by a POSIX shell, the four remote commands of the pipeline are the configured command
  words followed by the zone name and paths as single words, unchanged, whatever characters they
  contain.
\<close>
theorem commands_pass_arguments_verbatim:
  assumes "sh_words (s_checkzone_cmd srv) = Some check"
    and "s_reload_cmd srv = reload @ '' {zone}''" and "sh_words reload = Some rel"
    and "\<And>u v. reload \<noteq> u @ ''{zone}'' @ v"
  shows "sh_words (checkCommand srv zoneFqdn tmp) = Some (check @ [zoneFqdn, tmp])
    \<and> sh_words (moveCommand tmp dst) = Some [''mv'', ''-f'', ''--'', tmp, dst]
    \<and> sh_words (removeCommand tmp) = Some [''rm'', ''-f'', ''--'', tmp]
    \<and> sh_words (reloadCommand srv zoneName) = Some (rel @ [zoneName])"
proof -
  have "sh_words (checkCommand srv zoneFqdn tmp) = Some (check @ [zoneFqdn, tmp])"
    using sh_words_two_quoted [OF assms(1)] by (simp add: checkCommand_def)
  moreover have "moveCommand tmp dst = ''mv -f --'' @ CHR '' '' # shellQuote tmp @ CHR '' '' # shellQuote dst"
    by (simp add: moveCommand_def)
  then have "sh_words (moveCommand tmp dst) = Some [''mv'', ''-f'', ''--'', tmp, dst]"
    using sh_words_two_quoted [OF sh_words_mv] by simp
  moreover have "removeCommand tmp = ''rm -f --'' @ CHR '' '' # shellQuote tmp"
    by (simp add: removeCommand_def)
  then have "sh_words (removeCommand tmp) = Some [''rm'', ''-f'', ''--'', tmp]"
    using sh_words_then_quoted [OF sh_words_rm] by simp
  moreover have "sh_words (reloadCommand srv zoneName) = Some (rel @ [zoneName])"
    using sh_words_then_quoted [OF assms(3)] by (simp add: reloadCommand_text [OF assms(2,4)])
  ultimately show ?thesis by blast
qed

end
