(* ===== verification/Pipeline.thy ===== *)
theory Pipeline
  imports Ssh_Remote
begin

section \<open>The deploy pipeline\<close>

text \<open>
  The model of \<open>internal/zone/check.go\<close>, \<open>internal/deploy/result.go\<close> and
  \<open>internal/deploy/pipeline.go\<close>. \<open>Deploy\<close> starts one goroutine per target in each phase and waits for
  all of them before the next phase. A goroutine reads and writes index \<open>i\<close> of the slices
  \<open>res.Servers\<close>, \<open>conns\<close> and \<open>tmpPaths\<close> and nothing else of the shared state, so each phase is a map over
  the targets; that every interleaving of the goroutines gives this result is proved in
  \<open>Pipeline_Interleaving\<close>.
\<close>


subsection \<open>Local validation\<close>

text \<open>The errors of \<open>cmd.Run\<close>: a non-zero exit (\<open>*exec.ExitError\<close>), or anything else.\<close>

datatype check_error = Exit_error string | Other_error string

text \<open>The file-system calls and the external program \<open>named-checkzone\<close>: the error of creating, writing
  and closing the temporary file, and the output and error of the run.\<close>

record check_env =
  ce_create :: "string option"
  ce_write :: "string option"
  ce_close :: "string option"
  ce_run :: "string \<Rightarrow> string \<Rightarrow> string \<Rightarrow> string \<times> check_error option"

definition Check ::
    "'r dns_lib \<Rightarrow> check_env \<Rightarrow> string \<Rightarrow> string \<Rightarrow> string \<Rightarrow> string \<times> check_error option" where
  "Check L ce bin0 origin content =
     (let bin = (if bin0 = [] then ''named-checkzone'' else bin0) in
      case ce_create ce of Some e \<Rightarrow> ([], Some (Other_error e))
      | None \<Rightarrow>
       (case ce_write ce of Some e \<Rightarrow> ([], Some (Other_error e))
        | None \<Rightarrow>
         (case ce_close ce of Some e \<Rightarrow> ([], Some (Other_error e))
          | None \<Rightarrow>
           (case ce_run ce bin (dns_fqdn L origin) content of
              (out, Some e) \<Rightarrow> (out, Some e)
            | (out, None) \<Rightarrow> (out, None)))))"


subsection \<open>Results\<close>

datatype status = StatusSuccess | StatusPartial | StatusFailed

record server_result =
  sr_name :: string
  sr_staged :: bool
  sr_checked :: bool
  sr_moved :: bool
  sr_reloaded :: bool
  sr_verified :: bool
  sr_output :: string
  sr_err :: string

definition zero_result :: server_result where
  "zero_result = \<lparr>sr_name = [], sr_staged = False, sr_checked = False, sr_moved = False,
     sr_reloaded = False, sr_verified = False, sr_output = [], sr_err = []\<rparr>"

record deploy_result =
  dr_zone :: string
  dr_old_serial :: u32
  dr_new_serial :: u32
  dr_status :: status
  dr_promoted :: bool
  dr_servers :: "server_result list"

definition AllMoved :: "deploy_result \<Rightarrow> bool" where
  "AllMoved r =
     (if length (dr_servers r) = 0 then False else list_all sr_moved (dr_servers r))"

record request =
  rq_zone :: string
  rq_content :: string
  rq_old_serial :: u32
  rq_new_serial :: u32
  rq_targets :: "string list"

datatype deploy_error = No_targets | Local_check_rejected string


subsection \<open>The remote side\<close>

text \<open>
  What the connections and servers answer, per target position \<open>i\<close>. A target performs each kind of call
  at most once in a deploy, so these functions describe every behaviour the remote side can show in
  one run, whatever it depends on. The error texts are those of Go's \<open>err.Error()\<close>.
\<close>

datatype call = Run_check | Run_move | Run_reload | Run_remove

record remote =
  rm_dial :: "nat \<Rightarrow> server \<Rightarrow> string option"
  rm_upload :: "nat \<Rightarrow> string \<Rightarrow> string \<Rightarrow> string option"
  rm_run :: "nat \<Rightarrow> call \<Rightarrow> string \<Rightarrow> string \<times> string option"
  rm_verify :: "nat \<Rightarrow> string \<Rightarrow> string \<Rightarrow> string + u32"
  rm_random :: "nat \<Rightarrow> nat \<Rightarrow> 8 word"

text \<open>What is done to the servers, in the order it is done.\<close>

datatype event =
    Dialed nat
  | Uploaded nat string string
  | Ran nat call string
  | Queried nat
  | Closed nat

text \<open>The slots of target \<open>i\<close>: \<open>res.Servers[i]\<close>, whether \<open>conns[i]\<close> is set, \<open>tmpPaths[i]\<close>.\<close>

record slot =
  sl_result :: server_result
  sl_conn :: bool
  sl_tmp :: string

definition zero_slot :: slot where
  "zero_slot = \<lparr>sl_result = zero_result, sl_conn = False, sl_tmp = []\<rparr>"


subsection \<open>The three phases on one target\<close>

definition set_result :: "(server_result \<Rightarrow> server_result) \<Rightarrow> slot \<Rightarrow> slot" where
  "set_result f sl = sl\<lparr>sl_result := f (sl_result sl)\<rparr>"

definition phase1_target ::
    "'r dns_lib \<Rightarrow> config \<Rightarrow> remote \<Rightarrow> request \<Rightarrow> nat \<Rightarrow> string \<Rightarrow> slot \<Rightarrow> slot \<times> event list" where
  "phase1_target L cfg rm req i name sl0 =
     (let sl = set_result (\<lambda>r. r\<lparr>sr_name := name\<rparr>) sl0 in
      case map_of (c_servers cfg) name of
        None \<Rightarrow> (set_result (\<lambda>r. r\<lparr>sr_err := ''unknown server in config''\<rparr>) sl, [])
      | Some srv \<Rightarrow>
       (case rm_dial rm i srv of
          Some e \<Rightarrow> (set_result (\<lambda>r. r\<lparr>sr_err := ''connect: '' @ e\<rparr>) sl, [])
        | None \<Rightarrow>
          let tmp = remoteTmpPath (rm_random rm i) srv (remoteFile (rq_zone req));
              sl1 = sl\<lparr>sl_conn := True, sl_tmp := tmp\<rparr>
          in case rm_upload rm i tmp (rq_content req) of
               Some e \<Rightarrow>
                 (set_result (\<lambda>r. r\<lparr>sr_err := ''upload: '' @ e\<rparr>) sl1,
                  [Dialed i, Uploaded i tmp (rq_content req)])
             | None \<Rightarrow>
               let cmd = checkCommand srv (dns_fqdn L (rq_zone req)) tmp;
                   (out, err) = rm_run rm i Run_check cmd;
                   sl2 = set_result (\<lambda>r. r\<lparr>sr_staged := True, sr_output := trim_space out\<rparr>) sl1
               in (set_result (\<lambda>r. case err of
                      Some e \<Rightarrow> r\<lparr>sr_err := ''checkzone: '' @ e\<rparr>
                    | None \<Rightarrow> r\<lparr>sr_checked := True\<rparr>) sl2,
                   [Dialed i, Uploaded i tmp (rq_content req), Ran i Run_check cmd])))"

text \<open>\<open>p.cfg.Servers[name]\<close> without the second result is the zero \<open>Server\<close> for an unknown name.\<close>

definition zero_server :: server where
  "zero_server = \<lparr>s_host = [], s_port = 0, s_user = [], s_ssh_key = [], s_known_hosts = [],
     s_remote_zone_dir = [], s_checkzone_cmd = [], s_reload_cmd = []\<rparr>"

definition server_of :: "config \<Rightarrow> string \<Rightarrow> server" where
  "server_of cfg name = (case map_of (c_servers cfg) name of None \<Rightarrow> zero_server | Some s \<Rightarrow> s)"

definition phase2_target ::
    "config \<Rightarrow> remote \<Rightarrow> request \<Rightarrow> nat \<Rightarrow> string \<Rightarrow> slot \<Rightarrow> slot \<times> event list" where
  "phase2_target cfg rm req i name sl =
     (let srv = server_of cfg name;
          dst = remoteFinalPath srv (remoteFile (rq_zone req));
          mv = moveCommand (sl_tmp sl) dst;
          (mout, merr) = rm_run rm i Run_move mv
      in case merr of
           Some e \<Rightarrow>
             (set_result (\<lambda>r. r\<lparr>sr_output := trim_space mout, sr_err := ''move: '' @ e\<rparr>) sl,
              [Ran i Run_move mv])
         | None \<Rightarrow>
             let reload = reloadCommand srv (rq_zone req);
                 (out, err) = rm_run rm i Run_reload reload;
                 sl1 = set_result (\<lambda>r. r\<lparr>sr_moved := True, sr_output := trim_space out\<rparr>) sl
             in (set_result (\<lambda>r. case err of
                    Some e \<Rightarrow> r\<lparr>sr_err := ''reload: '' @ e\<rparr>
                  | None \<Rightarrow> r\<lparr>sr_reloaded := True\<rparr>) sl1,
                 [Ran i Run_move mv, Ran i Run_reload reload]))"

definition phase3_target ::
    "config \<Rightarrow> remote \<Rightarrow> request \<Rightarrow> nat \<Rightarrow> string \<Rightarrow> slot \<Rightarrow> slot \<times> event list" where
  "phase3_target cfg rm req i name sl =
     (if \<not> sr_reloaded (sl_result sl) then (sl, [])
      else
        ((case rm_verify rm i (s_host (server_of cfg name)) (rq_zone req) of
            Inl err \<Rightarrow> sl
          | Inr got \<Rightarrow>
              if got \<noteq> rq_new_serial req then sl
              else set_result (\<lambda>r. r\<lparr>sr_verified := True\<rparr>) sl),
         [Queried i]))"


subsection \<open>Deploy\<close>

definition cleanup_target :: "remote \<Rightarrow> nat \<Rightarrow> slot \<Rightarrow> event list" where
  "cleanup_target rm i sl =
     (if \<not> sl_conn sl \<or> sl_tmp sl = [] then [] else [Ran i Run_remove (removeCommand (sl_tmp sl))])"

definition cleanup :: "remote \<Rightarrow> slot list \<Rightarrow> event list" where
  "cleanup rm slots = concat (map (\<lambda>(i, sl). cleanup_target rm i sl) (enumerate 0 slots))"

definition closeAll :: "slot list \<Rightarrow> event list" where
  "closeAll slots = concat (map (\<lambda>(i, sl). if sl_conn sl then [Closed i] else []) (enumerate 0 slots))"

definition run_phase ::
    "(nat \<Rightarrow> string \<Rightarrow> slot \<Rightarrow> slot \<times> event list) \<Rightarrow> string list \<Rightarrow> slot list \<Rightarrow> slot list \<times> event list" where
  "run_phase f targets slots =
     (let outs = map (\<lambda>(i, name, sl). f i name sl) (enumerate 0 (zip targets slots))
      in (map fst outs, concat (map snd outs)))"

definition final_status :: "server_result list \<Rightarrow> status" where
  "final_status servers =
     foldl (\<lambda>st r. if \<not> sr_moved r \<or> \<not> sr_reloaded r then StatusPartial else st) StatusSuccess servers"

definition base_result :: "request \<Rightarrow> deploy_result" where
  "base_result req =
     \<lparr>dr_zone = rq_zone req, dr_old_serial = rq_old_serial req, dr_new_serial = rq_new_serial req,
      dr_status = StatusFailed, dr_promoted = False, dr_servers = []\<rparr>"

definition Deploy ::
    "'r dns_lib \<Rightarrow> config \<Rightarrow> check_env \<Rightarrow> remote \<Rightarrow> request \<Rightarrow>
     deploy_result \<times> deploy_error option \<times> event list" where
  "Deploy L cfg ce rm req =
     (let res = base_result req; targets = rq_targets req in
      if length targets = 0 then (res, Some No_targets, [])
      else
        case Check L ce [] (rq_zone req) (rq_content req) of
          (out, Some (Exit_error e)) \<Rightarrow> (res, Some (Local_check_rejected (trim_space out)), [])
        | _ \<Rightarrow>
          let (slots1, log1) = run_phase (phase1_target L cfg rm req) targets
                                 (replicate (length targets) zero_slot)
          in if \<not> list_all (\<lambda>sl. sr_checked (sl_result sl)) slots1 then
               (res\<lparr>dr_servers := map sl_result slots1\<rparr>, None, log1 @ cleanup rm slots1 @ closeAll slots1)
             else
               let (slots2, log2) = run_phase (phase2_target cfg rm req) targets slots1;
                   (slots3, log3) = run_phase (phase3_target cfg rm req) targets slots2;
                   servers = map sl_result slots3
               in (res\<lparr>dr_servers := servers, dr_status := final_status servers\<rparr>, None,
                   log1 @ log2 @ log3 @ closeAll slots3))"

end
