(* ===== verification/Rate_Limit.thy ===== *)
theory Rate_Limit
  imports Prelude
begin

section \<open>The login rate limiter\<close>

text \<open>
  The model of \<open>internal/web/ratelimit.go\<close>. A time is the number of nanoseconds on the clock of the
  process, a duration likewise. \<open>hits\<close> is a Go map: a missing key reads as the empty slice. The
  mutex makes \<open>allow\<close> atomic, so the attempts form a sequence.
\<close>

record rate_limiter =
  rl_hits :: "string \<rightharpoonup> int list"
  rl_max :: int
  rl_window :: int

definition newRateLimiter :: "int \<Rightarrow> int \<Rightarrow> rate_limiter" where
  "newRateLimiter mx window = \<lparr>rl_hits = Map.empty, rl_max = mx, rl_window = window\<rparr>"

definition hits_of :: "rate_limiter \<Rightarrow> string \<Rightarrow> int list" where
  "hits_of rl key = (case rl_hits rl key of None \<Rightarrow> [] | Some ts \<Rightarrow> ts)"

definition allow :: "string \<Rightarrow> int \<Rightarrow> rate_limiter \<Rightarrow> bool \<times> rate_limiter" where
  "allow key now rl =
     (let cutoff = now - rl_window rl;
          kept = filter (\<lambda>t. cutoff < t) (hits_of rl key)
      in if int (length kept) \<ge> rl_max rl
         then (False, rl\<lparr>rl_hits := (rl_hits rl)(key \<mapsto> kept)\<rparr>)
         else (True, rl\<lparr>rl_hits := (rl_hits rl)(key \<mapsto> kept @ [now])\<rparr>))"

text \<open>A sequence of attempts, and the attempts of one key that were let through.\<close>

fun attempts :: "(string \<times> int) list \<Rightarrow> rate_limiter \<Rightarrow> bool list \<times> rate_limiter" where
  "attempts [] rl = ([], rl)"
| "attempts ((key, now) # as) rl =
     (let (ok, rl1) = allow key now rl; (oks, rl2) = attempts as rl1 in (ok # oks, rl2))"

definition granted :: "string \<Rightarrow> (string \<times> int) list \<Rightarrow> bool list \<Rightarrow> int list" where
  "granted key as oks = map (snd \<circ> fst) (filter (\<lambda>(a, ok). fst a = key \<and> ok) (zip as oks))"

lemma allow_fields [simp]:
  "rl_max (snd (allow key now rl)) = rl_max rl" "rl_window (snd (allow key now rl)) = rl_window rl"
  by (simp_all add: allow_def Let_def)

lemma hits_allow:
  "hits_of (snd (allow key now rl)) key' =
     (if key' = key
      then filter (\<lambda>t. now - rl_window rl < t) (hits_of rl key) @ (if fst (allow key now rl) then [now] else [])
      else hits_of rl key')"
  by (simp add: allow_def hits_of_def Let_def)

lemma allow_iff:
  "fst (allow key now rl) \<longleftrightarrow>
     int (length (filter (\<lambda>t. now - rl_window rl < t) (hits_of rl key))) < rl_max rl"
  by (auto simp: allow_def Let_def)


subsection \<open>The number of kept attempts is bounded\<close>

definition hits_bounded :: "rate_limiter \<Rightarrow> bool" where
  "hits_bounded rl \<longleftrightarrow> (\<forall>key. int (length (hits_of rl key)) \<le> max 0 (rl_max rl))"

lemma allow_bounded:
  assumes "hits_bounded rl"
  shows "hits_bounded (snd (allow key now rl))"
proof -
  have "int (length (filter P (hits_of rl key))) \<le> max 0 (rl_max rl)" for P
    using assms length_filter_le [of P "hits_of rl key"] unfolding hits_bounded_def
    by (meson of_nat_mono order_trans)
  moreover have "fst (allow key now rl) \<Longrightarrow>
      int (length (filter (\<lambda>t. now - rl_window rl < t) (hits_of rl key))) < rl_max rl"
    by (simp add: allow_iff)
  ultimately show ?thesis
    using assms unfolding hits_bounded_def by (auto simp: hits_allow)
qed

interpretation limiter: inv_machine "\<lambda>(key, now) rl. snd (allow key now rl)" hits_bounded
  by unfold_locales (auto intro: allow_bounded)


subsection \<open>The limit over time\<close>

lemma attempts_length: "length (fst (attempts as rl)) = length as"
  by (induction as rl rule: attempts.induct) (auto simp: Let_def split: prod.splits)

lemma attempts_snoc:
  "attempts (as @ [(key, now)]) rl =
     (fst (attempts as rl) @ [fst (allow key now (snd (attempts as rl)))],
      snd (allow key now (snd (attempts as rl))))"
  by (induction as rl rule: attempts.induct) (auto simp: Let_def split: prod.splits)

lemma attempts_fields:
  "rl_max (snd (attempts as rl)) = rl_max rl" "rl_window (snd (attempts as rl)) = rl_window rl"
  by (induction as rule: rev_induct) (auto simp: attempts_snoc)

lemma attempts_take: "fst (attempts (take i as) rl) = take i (fst (attempts as rl))"
proof (induction as rule: rev_induct)
  case (snoc a as)
  then show ?case
    by (cases a) (auto simp: attempts_snoc attempts_length take_Cons')
qed simp

lemma granted_snoc:
  "length as = length oks \<Longrightarrow>
     granted key (as @ [a]) (oks @ [ok]) = granted key as oks @ (if fst a = key \<and> ok then [snd a] else [])"
  by (simp add: granted_def)

lemma granted_subset: "set (granted key as oks) \<subseteq> snd ` set as"
  by (force simp: granted_def dest: set_zip_leftD)

text \<open>What the limiter still remembers is all that matters for the attempts to come.\<close>

lemma hits_are_recent_grants:
  assumes "sorted (map snd as)" and "0 < rl_window rl" and "rl_hits rl = Map.empty"
    and "\<forall>a\<in>set as. snd a - rl_window rl \<le> c"
  shows "filter (\<lambda>t. c < t) (hits_of (snd (attempts as rl)) key) =
    filter (\<lambda>t. c < t) (granted key as (fst (attempts as rl)))"
  using assms(1,4)
proof (induction as rule: rev_induct)
  case Nil
  then show ?case using assms(3) by (simp add: hits_of_def granted_def)
next
  case (snoc a as)
  obtain k now where a: "a = (k, now)" by fastforce
  let ?rl = "snd (attempts as rl)"
  have IH: "filter (\<lambda>t. c < t) (hits_of ?rl key) = filter (\<lambda>t. c < t) (granted key as (fst (attempts as rl)))"
    using snoc.prems by (intro snoc.IH) (auto simp: sorted_append)
  have "now - rl_window rl \<le> c" using snoc.prems a by simp
  then have "filter (\<lambda>t. c < t) (filter (\<lambda>t. now - rl_window rl < t) ts) = filter (\<lambda>t. c < t) ts" for ts
    by (auto intro!: filter_cong simp: filter_filter)
  then show ?case
    using IH by (auto simp: a attempts_snoc hits_allow attempts_fields granted_snoc attempts_length)
qed


lemma last_decision:
  assumes "sorted (map snd (as @ [(key, now)]))" and "0 < w"
  shows "fst (allow key now (snd (attempts as (newRateLimiter m w)))) \<longleftrightarrow>
    int (length (filter (\<lambda>t. now - w < t) (granted key as (fst (attempts as (newRateLimiter m w)))))) < m"
proof -
  have "filter (\<lambda>t. now - w < t) (hits_of (snd (attempts as (newRateLimiter m w))) key) =
      filter (\<lambda>t. now - w < t) (granted key as (fst (attempts as (newRateLimiter m w))))"
    using assms by (intro hits_are_recent_grants) (auto simp: newRateLimiter_def sorted_append)
  then show ?thesis by (simp add: allow_iff attempts_fields) (simp add: newRateLimiter_def)
qed

lemma admitted_in_window:
  assumes "sorted (map snd as)" and "0 < w" and "0 \<le> m"
  shows "int (length (filter (\<lambda>t. x - w < t \<and> t \<le> x)
    (granted key as (fst (attempts as (newRateLimiter m w)))))) \<le> m"
  using assms(1)
proof (induction as rule: rev_induct)
  case Nil
  then show ?case using assms(3) by (simp add: granted_def)
next
  case (snoc a as)
  obtain k now where a: "a = (k, now)" by fastforce
  let ?rl = "newRateLimiter m w"
  let ?g = "granted key as (fst (attempts as ?rl))"
  have IH: "int (length (filter (\<lambda>t. x - w < t \<and> t \<le> x) ?g)) \<le> m"
    using snoc by (simp add: sorted_append)
  have step: "granted key (as @ [a]) (fst (attempts (as @ [a]) ?rl)) =
      ?g @ (if k = key \<and> fst (allow k now (snd (attempts as ?rl))) then [now] else [])"
    by (auto simp: a attempts_snoc granted_snoc attempts_length)
  show ?case
  proof (cases "k = key \<and> fst (allow k now (snd (attempts as ?rl))) \<and> x - w < now \<and> now \<le> x")
    case True
    have "length (filter (\<lambda>t. x - w < t \<and> t \<le> x) ?g) = length (filter (\<lambda>t. x - w < t \<and> t \<le> x) (filter (\<lambda>t. now - w < t) ?g))"
      using True by (intro arg_cong [where f = length]) (auto simp: filter_filter intro!: filter_cong)
    also have "\<dots> \<le> length (filter (\<lambda>t. now - w < t) ?g)" by (rule length_filter_le)
    finally have "int (length (filter (\<lambda>t. x - w < t \<and> t \<le> x) ?g)) < m"
      using True last_decision [OF snoc.prems [unfolded a] assms(2), of m] by auto
    with True step show ?thesis by auto
  next
    case False
    with IH step show ?thesis by auto
  qed
qed

text \<open>
  C33: Attempt number i is admitted exactly when fewer than max admitted attempts of the same key
  lie within the window before it: refused attempts do not count and pruning loses nothing.
\<close>
theorem limiter_is_sliding_window:
  assumes "sorted (map snd as)" and "0 < w" and "i < length as"
    and "oks = fst (attempts as (newRateLimiter m w))"
  shows "oks ! i \<longleftrightarrow>
    int (length (filter (\<lambda>t. snd (as ! i) - w < t) (granted (fst (as ! i)) (take i as) (take i oks)))) < m"
proof -
  obtain key now where a: "as ! i = (key, now)" by fastforce
  have pre: "take (Suc i) as = take i as @ [(key, now)]" using assms(3) a by (simp add: take_Suc_conv_app_nth)
  have "sorted (map snd (take (Suc i) as))" using assms(1) by (simp flip: take_map add: sorted_wrt_take)
  then have srt: "sorted (map snd (take i as @ [(key, now)]))" unfolding pre .
  have "oks ! i = take (Suc i) oks ! i" by simp
  also have "\<dots> = fst (attempts (take i as @ [(key, now)]) (newRateLimiter m w)) ! i"
    using attempts_take [of "Suc i" as "newRateLimiter m w"] by (simp add: assms(4) pre)
  also have "\<dots> = fst (allow key now (snd (attempts (take i as) (newRateLimiter m w))))"
    using assms(3) by (simp add: attempts_snoc nth_append attempts_length)
  finally show ?thesis
    unfolding last_decision [OF srt assms(2)] a by (simp add: attempts_take assms(4))
qed

text \<open>
  Over any sequence of attempts in time order, no window of the configured length contains
  more than max admitted attempts of one key, wherever the window begins.
\<close>
theorem limiter_never_exceeds_max:
  assumes "sorted (map snd as)" and "0 < w" and "0 \<le> m"
  shows "int (length (filter (\<lambda>t. x - w < t \<and> t \<le> x)
    (granted key as (fst (attempts as (newRateLimiter m w)))))) \<le> m"
  using assms by (rule admitted_in_window)

theorem limiter_is_sliding_window_witness:
  "fst (attempts [(''a'', 0), (''b'', 1), (''a'', 2), (''a'', 3), (''a'', 11)] (newRateLimiter 2 10)) ! 3 = False"
proof -
  define as where "as = [(''a'', 0 :: int), (''b'', 1), (''a'', 2), (''a'', 3), (''a'', 11)]"
  have "fst (attempts as (newRateLimiter 2 10)) ! 3 \<longleftrightarrow>
      int (length (filter (\<lambda>t. snd (as ! 3) - 10 < t) (granted (fst (as ! 3)) (take 3 as)
        (take 3 (fst (attempts as (newRateLimiter 2 10))))))) < 2"
    by (rule limiter_is_sliding_window) (simp_all add: as_def)
  also have "\<dots> \<longleftrightarrow> False"
    by (simp add: as_def granted_def allow_def newRateLimiter_def hits_of_def Let_def)
  finally show ?thesis by (simp add: as_def)
qed

theorem limiter_never_exceeds_max_witness:
  "int (length (filter (\<lambda>t. 12 - 10 < t \<and> t \<le> 12)
    (granted ''a'' [(''a'', 0), (''a'', 3), (''a'', 4), (''a'', 11), (''a'', 12)]
      (fst (attempts [(''a'', 0), (''a'', 3), (''a'', 4), (''a'', 11), (''a'', 12)] (newRateLimiter 2 10)))))) \<le> 2"
  by (rule limiter_never_exceeds_max) simp_all

end
