(* ===== verification/Line_Diff.thy ===== *)
theory Line_Diff
  imports Go_Strings
begin

section \<open>The line diff and the record type menu\<close>

text \<open>
  The model of \<open>internal/web/diff.go\<close> and \<open>internal/web/types.go\<close>. The map \<open>seen\<close> and the line sets of
  the source are sets of strings.
\<close>

fun distinct_lines :: "string set \<Rightarrow> string list \<Rightarrow> string list" where
  "distinct_lines seen [] = []"
| "distinct_lines seen (raw # raws) =
     (let l = trim_space raw in
      if l = [] \<or> l \<in> seen then distinct_lines seen raws
      else l # distinct_lines (insert l seen) raws)"

definition orderedLines :: "string \<Rightarrow> string list" where
  "orderedLines text = distinct_lines {} (split_on (CHR 0x0A) text)"

definition lineSet :: "string \<Rightarrow> string set" where
  "lineSet text = set (orderedLines text)"

definition computeDiff :: "string \<Rightarrow> string \<Rightarrow> string list \<times> string list" where
  "computeDiff oldText newText =
     (let oldSet = lineSet oldText; newSet = lineSet newText in
      (filter (\<lambda>l. l \<notin> oldSet) (orderedLines newText), filter (\<lambda>l. l \<notin> newSet) (orderedLines oldText)))"


subsection \<open>What the diff is\<close>

text \<open>Apart from the code: the lines of a text are the pieces between its newlines, trimmed, those that are then empty
  left out; of a list with repetitions only the first occurrences are kept.\<close>

definition text_lines :: "string \<Rightarrow> string list" where
  "text_lines text = filter (\<lambda>l. l \<noteq> []) (map trim_space (split_on (CHR 0x0A) text))"

definition first_occurrences :: "'a list \<Rightarrow> 'a list" where
  "first_occurrences xs = rev (remdups (rev xs))"

lemma remdups_snoc: "remdups (xs @ [x]) = remdups (filter (\<lambda>y. y \<noteq> x) xs) @ [x]"
  by (induction xs) auto

lemma first_occurrences_simps [simp]:
  "first_occurrences [] = []"
  "first_occurrences (x # xs) = x # first_occurrences (filter (\<lambda>y. y \<noteq> x) xs)"
  by (simp_all add: first_occurrences_def remdups_snoc rev_filter)

lemma filter_first_occurrences: "filter P (first_occurrences xs) = first_occurrences (filter P xs)"
  by (simp add: first_occurrences_def rev_filter remdups_filter)

lemma set_first_occurrences [simp]: "set (first_occurrences xs) = set xs"
  by (simp add: first_occurrences_def)

lemma distinct_lines_first:
  "distinct_lines seen raws = first_occurrences (filter (\<lambda>l. l \<notin> seen) (filter (\<lambda>l. l \<noteq> []) (map trim_space raws)))"
proof (induction seen raws rule: distinct_lines.induct)
  case (2 seen raw raws)
  let ?l = "trim_space raw"
  have "(\<lambda>y. y \<noteq> [] \<and> y \<noteq> ?l \<and> y \<notin> seen) = (\<lambda>y. y \<noteq> [] \<and> y \<notin> seen \<and> y \<noteq> ?l)" by auto
  with 2 show ?case by (simp add: Let_def)
qed simp

lemma orderedLines_eq: "orderedLines text = first_occurrences (text_lines text)"
  by (simp add: orderedLines_def distinct_lines_first text_lines_def)

text \<open>
  C37: The diff is the lines of the new text that the old text does not have, and the lines of the
  old text that the new one does not have, each at its first occurrence and in the order of its
  text.
\<close>
theorem computeDiff_is_line_difference:
  "computeDiff old new =
     (first_occurrences (filter (\<lambda>l. l \<notin> set (text_lines old)) (text_lines new)),
      first_occurrences (filter (\<lambda>l. l \<notin> set (text_lines new)) (text_lines old)))"
  by (simp add: computeDiff_def Let_def lineSet_def orderedLines_eq filter_first_occurrences)


text \<open>A text and itself have no difference.\<close>

lemma computeDiff_same: "computeDiff text text = ([], [])"
  by (simp add: computeDiff_def lineSet_def)


subsection \<open>The menu of record types\<close>

record type_option =
  to_value :: string
  to_selected :: bool

definition recordTypes :: "string list" where
  "recordTypes = [''A'', ''AAAA'', ''CNAME'', ''MX'', ''NS'', ''TXT'', ''SRV'', ''PTR'', ''CAA'',
     ''SSHFP'', ''TLSA'', ''NAPTR'', ''DNAME'', ''SPF'']"

definition typeOptions :: "(string \<Rightarrow> string) \<Rightarrow> string \<Rightarrow> type_option list" where
  "typeOptions unicode_upper current0 =
     (let current = to_upper unicode_upper (trim_space current0);
          opts = map (\<lambda>t. \<lparr>to_value = t, to_selected = (t = current)\<rparr>) recordTypes;
          found = list_ex (\<lambda>t. t = current) recordTypes
      in if current \<noteq> [] \<and> \<not> found then \<lparr>to_value = current, to_selected = True\<rparr> # opts else opts)"

lemma recordTypes_distinct: "distinct recordTypes"
  by code_simp

text \<open>
  The menu of record types always contains the current type (trimmed, in upper case), with it
  alone selected, besides the offered types and without duplicates.
\<close>
theorem typeOptions_offers_current:
  assumes "to_upper up (trim_space current) = t" and "t \<noteq> []"
  shows "map to_value (filter to_selected (typeOptions up current)) = [t]
    \<and> set (map to_value (typeOptions up current)) = insert t (set recordTypes)
    \<and> distinct (map to_value (typeOptions up current))"
proof -
  have "distinct xs \<Longrightarrow> filter (\<lambda>x. x = t) xs = (if t \<in> set xs then [t] else [])" for xs
    by (induction xs) auto
  from this [OF recordTypes_distinct]
  have one: "filter (\<lambda>x. x = t) recordTypes = (if t \<in> set recordTypes then [t] else [])" .
  have sel: "map to_value (filter to_selected (map (\<lambda>x. \<lparr>to_value = x, to_selected = (x = t)\<rparr>) xs))
      = filter (\<lambda>x. x = t) xs" for xs
    by (induction xs) auto
  show ?thesis
    using assms recordTypes_distinct
    by (auto simp: typeOptions_def Let_def one sel o_def list_ex_iff image_image)
qed

theorem typeOptions_offers_current_witness:
  "map to_value (filter to_selected (typeOptions id '' hinfo'')) = [''HINFO'']"
proof -
  have "to_upper id (trim_space '' hinfo'') = ''HINFO''" by code_simp
  from typeOptions_offers_current [OF this] show ?thesis by simp
qed

end
