(* ===== verification/Metrics.thy ===== *)
theory Metrics
  imports Go_Strings
begin

section \<open>The metrics counters\<close>

text \<open>
  The model of \<open>internal/metrics/metrics.go\<close>. The counters are \<open>atomic.Int64\<close>: 64-bit signed integers
  that wrap around. The status arrives as the string of \<open>deploy.Status\<close>.
\<close>

record metrics =
  m_http_requests :: "64 word"
  m_login_failures :: "64 word"
  m_deploy_success :: "64 word"
  m_deploy_partial :: "64 word"
  m_deploy_failed :: "64 word"

definition new_metrics :: metrics where
  "new_metrics = \<lparr>m_http_requests = 0, m_login_failures = 0, m_deploy_success = 0,
     m_deploy_partial = 0, m_deploy_failed = 0\<rparr>"

definition ObserveDeploy :: "string \<Rightarrow> metrics \<Rightarrow> metrics" where
  "ObserveDeploy status m =
     (if status = ''success'' then m\<lparr>m_deploy_success := m_deploy_success m + 1\<rparr>
      else if status = ''partial'' then m\<lparr>m_deploy_partial := m_deploy_partial m + 1\<rparr>
      else m\<lparr>m_deploy_failed := m_deploy_failed m + 1\<rparr>)"

definition metrics_text :: "metrics \<Rightarrow> string" where
  "metrics_text m =
     (let nl = [CHR 0x0A]; q = [CHR 0x22]; d = (\<lambda>w. dec_int (sint (w :: 64 word))) in
      ''# HELP mrdns_http_requests_total Total HTTP requests served.'' @ nl @
      ''# TYPE mrdns_http_requests_total counter'' @ nl @
      ''mrdns_http_requests_total '' @ d (m_http_requests m) @ nl @
      ''# HELP mrdns_login_failures_total Failed login attempts.'' @ nl @
      ''# TYPE mrdns_login_failures_total counter'' @ nl @
      ''mrdns_login_failures_total '' @ d (m_login_failures m) @ nl @
      ''# HELP mrdns_deploys_total Deploys by outcome.'' @ nl @
      ''# TYPE mrdns_deploys_total counter'' @ nl @
      ''mrdns_deploys_total{status='' @ q @ ''success'' @ q @ ''} '' @ d (m_deploy_success m) @ nl @
      ''mrdns_deploys_total{status='' @ q @ ''partial'' @ q @ ''} '' @ d (m_deploy_partial m) @ nl @
      ''mrdns_deploys_total{status='' @ q @ ''failed'' @ q @ ''} '' @ d (m_deploy_failed m) @ nl)"

lemma ObserveDeploy_counts:
  "m_deploy_success (fold ObserveDeploy ss m) =
     m_deploy_success m + of_nat (length (filter (\<lambda>s. s = ''success'') ss))"
  "m_deploy_partial (fold ObserveDeploy ss m) =
     m_deploy_partial m + of_nat (length (filter (\<lambda>s. s = ''partial'') ss))"
  "m_deploy_failed (fold ObserveDeploy ss m) =
     m_deploy_failed m + of_nat (length (filter (\<lambda>s. s \<noteq> ''success'' \<and> s \<noteq> ''partial'') ss))"
  by (induction ss arbitrary: m) (auto simp: ObserveDeploy_def)

end
