(* ===== verification/Web_Request.thy ===== *)
theory Web_Request
  imports Session Audit_Log Store Pipeline Rate_Limit Line_Diff Metrics
begin

section \<open>Requests, responses, and the state of the web server\<close>

text \<open>
  What the handlers of \<open>internal/web\<close> read and write. A request is what they read of \<open>*http.Request\<close>;
  \<open>hr_form\<close> lists the entries of \<open>PostForm\<close> in order. A response is the call that produced it:
  \<open>http.Redirect\<close> and \<open>http.Error\<close> with their arguments, or a template with its data (the templates
  themselves are not modelled), and the cookies set before it.

  A handler is a function from the server state to the response and the new state. The clock, the
  random source and the outside world of one request are \<open>http_env\<close>.
\<close>

record http_request =
  hr_method :: string
  hr_zone :: string
  hr_remote_addr :: string
  hr_cookie :: "string option"
  hr_csrf_header :: string
  hr_form :: "(string \<times> string) list"
  hr_form_error :: bool
  hr_query :: "(string \<times> string) list"

record http_env =
  he_now :: go_time
  he_clock :: int
  he_created :: string
  he_audit_now :: string
  he_random :: "nat \<Rightarrow> char"
  he_check :: check_env

record 'r web_server =
  ws_cfg :: config
  ws_lib :: "'r dns_lib"
  ws_hmac :: "string \<Rightarrow> string"
  ws_audit :: logger
  ws_deploy :: "request \<Rightarrow> deploy_result option \<times> deploy_error option"

record server_state =
  ss_store :: store
  ss_audit :: "string list"
  ss_metrics :: metrics
  ss_limiter :: rate_limiter

datatype page_error =
    E_text string
  | E_zone string zone_error
  | E_store string store_error
  | E_deploy deploy_error

record record_row_view =
  rv_id :: int
  rv_name :: string
  rv_ttl :: string
  rv_type :: string
  rv_data :: string
  rv_editing :: bool

record zone_card =
  zc_name :: string
  zc_serial :: u32
  zc_records :: nat
  zc_dirty :: bool
  zc_targets :: "string list"

record server_row =
  sv_name :: string
  sv_host :: string
  sv_user :: string
  sv_port :: int
  sv_zones :: nat

record server_detail =
  sd_row_name :: string
  sd_row_host :: string
  sd_row_user :: string
  sd_row_dir :: string
  sd_row_port :: int
  sd_row_zones :: "string list"

record history_row =
  hi_id :: int
  hi_serial :: u32
  hi_when :: string
  hi_size :: nat

type_synonym choices = "(string \<times> bool) list"

datatype content =
    C_login string string
  | C_dashboard "zone_card list" "server_row list" nat nat nat
  | C_servers "server_detail list"
  | C_new_zone store_zone choices "page_error option"
  | C_import choices string string "page_error option"
  | C_settings store_zone choices "page_error option"
  | C_editor string store_zone "record_row_view list" bool bool string
  | C_records string "record_row_view list" "page_error option"
  | C_preview string string
  | C_diff string "(string list \<times> string list) option"
  | C_validate bool page_error
  | C_deploy string "deploy_result option" "page_error option"
  | C_history string "history_row list" string

datatype body =
    Redirect string
  | Http_error nat page_error
  | Page string string content
  | Fragment string content
  | Plain string
  | Static_file
  | Mux_not_found

record response =
  rs_body :: body
  rs_cookies :: "cookie list"

definition respond :: "body \<Rightarrow> response" where
  "respond b = \<lparr>rs_body = b, rs_cookies = []\<rparr>"

type_synonym handler = "http_request \<Rightarrow> server_state \<Rightarrow> response \<times> server_state"


subsection \<open>Reading a request\<close>

definition first_value :: "(string \<times> string) list \<Rightarrow> string \<Rightarrow> string" where
  "first_value kvs key = (case map_of kvs key of None \<Rightarrow> [] | Some v \<Rightarrow> v)"

definition post_value :: "http_request \<Rightarrow> string \<Rightarrow> string" where
  "post_value r = first_value (hr_form r)"

definition query_value :: "http_request \<Rightarrow> string \<Rightarrow> string" where
  "query_value r = first_value (hr_query r)"

definition formUint :: "http_request \<Rightarrow> string \<Rightarrow> u32 \<Rightarrow> u32" where
  "formUint r key d =
     (let v = trim_space (post_value r key) in
      if v = [] then d
      else case parse_uint (2 ^ 32 - 1) v of Inl _ \<Rightarrow> d | Inr n \<Rightarrow> of_nat n)"

definition formTargets :: "config \<Rightarrow> http_request \<Rightarrow> string list" where
  "formTargets cfg r =
     filter (\<lambda>t. map_of (c_servers cfg) t \<noteq> None) (map snd (filter (\<lambda>(k, v). k = ''targets'') (hr_form r)))"

text \<open>\<open>net.SplitHostPort\<close>; only its host is used, and only when there is no error.\<close>

definition last_index :: "char \<Rightarrow> string \<Rightarrow> nat option" where
  "last_index c s = map_option (\<lambda>i. length s - 1 - i) (find_index (\<lambda>x. x = c) (rev s))"

definition first_index :: "char \<Rightarrow> string \<Rightarrow> nat option" where
  "first_index c s = find_index (\<lambda>x. x = c) s"

definition split_host :: "string \<Rightarrow> string option" where
  "split_host hp =
     (case last_index (CHR '':'') hp of
        None \<Rightarrow> None
      | Some i \<Rightarrow>
          let clean = (\<lambda>host j k. if CHR ''['' \<in> set (drop j hp) \<or> CHR '']'' \<in> set (drop k hp)
                                  then None else Some host)
          in if hd hp = CHR ''['' then
               (case first_index (CHR '']'') hp of
                  None \<Rightarrow> None
                | Some e \<Rightarrow> if e + 1 = i then clean (drop 1 (take e hp)) 1 (e + 1) else None)
             else if CHR '':'' \<in> set (take i hp) then None
             else clean (take i hp) 0 0)"

definition clientIP :: "http_request \<Rightarrow> string" where
  "clientIP r = (case split_host (hr_remote_addr r) of Some host \<Rightarrow> host | None \<Rightarrow> hr_remote_addr r)"

definition currentSession :: "'r web_server \<Rightarrow> http_env \<Rightarrow> http_request \<Rightarrow> session option" where
  "currentSession w e r =
     (case hr_cookie r of None \<Rightarrow> None | Some v \<Rightarrow> parseSession (ws_hmac w) (he_now e) v)"

definition csrfOf :: "session option \<Rightarrow> string" where
  "csrfOf s = (case s of None \<Rightarrow> [] | Some s \<Rightarrow> se_csrf s)"

definition page :: "'r web_server \<Rightarrow> http_env \<Rightarrow> http_request \<Rightarrow> string \<Rightarrow> content \<Rightarrow> response" where
  "page w e r title c = respond (Page title (csrfOf (currentSession w e r)) c)"


subsection \<open>Effects\<close>

definition on_store :: "'a store_op \<Rightarrow> server_state \<Rightarrow> (store_error + 'a) \<times> server_state" where
  "on_store m st = (case m (ss_store st) of (x, s') \<Rightarrow> (x, st\<lparr>ss_store := s'\<rparr>))"

definition value_or :: "'a \<Rightarrow> 'e + 'a \<Rightarrow> 'a" where
  "value_or d x = (case x of Inl _ \<Rightarrow> d | Inr y \<Rightarrow> y)"

definition audit :: "'r web_server \<Rightarrow> http_env \<Rightarrow> audit_event \<Rightarrow> server_state \<Rightarrow> server_state" where
  "audit w e ev st = st\<lparr>ss_audit := audit_log (ws_audit w) (he_audit_now e) ev (ss_audit st)\<rparr>"

definition zone_event :: "http_request \<Rightarrow> string \<Rightarrow> string \<Rightarrow> audit_event" where
  "zone_event r action zone = (new_event action)\<lparr>ev_actor := clientIP r, ev_zone := zone\<rparr>"

definition zone_failure :: "store_error \<Rightarrow> response" where
  "zone_failure err =
     respond (if err = ErrNotFound then Http_error 404 (E_text ''unknown zone'')
              else Http_error 500 (E_store ''internal error: '' err))"

end
