(* ===== verification/Web_Handlers.thy ===== *)
theory Web_Handlers
  imports Web_Request
begin

section \<open>Login, dashboard and server list\<close>

text \<open>
  The handlers of \<open>internal/web/handlers.go\<close> and the middleware of \<open>middleware.go\<close>.
\<close>

definition handleHealthz :: handler where
  "handleHealthz r st = (respond (Plain (''ok'' @ [newline])), st)"

definition handleMetrics :: handler where
  "handleMetrics r st = (respond (Plain (metrics_text (ss_metrics st))), st)"

definition set_cookie :: "'r web_server \<Rightarrow> session \<Rightarrow> cookie" where
  "set_cookie w s = setSession (ws_hmac w) (SecureCookiesEnabled (ws_cfg w)) s"

definition handleLoginForm :: "'r web_server \<Rightarrow> http_env \<Rightarrow> handler" where
  "handleLoginForm w e r st =
     (let login = (\<lambda>s cookies. \<lparr>rs_body = Fragment ''login.html'' (C_login (se_csrf s) (query_value r ''error'')),
                               rs_cookies = cookies\<rparr>)
      in case currentSession w e r of
           Some s \<Rightarrow> if se_authed s then (respond (Redirect ''/''), st) else (login s [], st)
         | None \<Rightarrow>
             let s = newSession False (he_now e) (he_random e) in (login s [set_cookie w s], st))"

definition handleLogin :: "'r web_server \<Rightarrow> http_env \<Rightarrow> handler" where
  "handleLogin w e r st =
     (let ip = clientIP r;
          (ok, rl) = allow ip (he_clock e) (ss_limiter st);
          st1 = st\<lparr>ss_limiter := rl\<rparr>
      in if \<not> ok then
           (respond (Http_error 429 (E_text ''too many attempts; try again later'')),
            audit w e ((new_event ''login_rate_limited'')\<lparr>ev_actor := ip\<rparr>) st1)
         else
           case currentSession w e r of
             None \<Rightarrow> (respond (Redirect ''/login''), st1)
           | Some s \<Rightarrow>
               if hr_form_error r then (respond (Http_error 400 (E_text ''bad form'')), st1)
               else if post_value r ''csrf_token'' \<noteq> se_csrf s then
                 (respond (Http_error 403 (E_text ''csrf token mismatch'')), st1)
               else if post_value r ''token'' \<noteq> c_auth_token (ws_cfg w) then
                 (respond (Redirect ''/login?error=Invalid+access+token''),
                  audit w e ((new_event ''login_failed'')\<lparr>ev_actor := ip\<rparr>)
                    (st1\<lparr>ss_metrics := (ss_metrics st1)
                       \<lparr>m_login_failures := m_login_failures (ss_metrics st1) + 1\<rparr>\<rparr>))
               else
                 (\<lparr>rs_body = Redirect ''/'',
                   rs_cookies = [set_cookie w (newSession True (he_now e) (he_random e))]\<rparr>,
                  audit w e ((new_event ''login'')\<lparr>ev_actor := ip\<rparr>) st1))"

definition handleLogout :: "'r web_server \<Rightarrow> handler" where
  "handleLogout w r st =
     (\<lparr>rs_body = Redirect ''/login'', rs_cookies = [clearSession (SecureCookiesEnabled (ws_cfg w))]\<rparr>, st)"


subsection \<open>Dashboard and servers\<close>

text \<open>The loop over the zones: two store calls per zone, whose errors are dropped.\<close>

fun zone_cards :: "'r dns_lib \<Rightarrow> store_zone list \<Rightarrow> server_state \<Rightarrow> zone_card list \<times> server_state" where
  "zone_cards L [] st = ([], st)"
| "zone_cards L (z # zs) st =
     (let (recs, st1) = on_store (RecordsOf (sz_name z)) st;
          (dirty, st2) = on_store (Dirty L (sz_name z)) st1;
          (cards, st3) = zone_cards L zs st2
      in (\<lparr>zc_name = sz_name z, zc_serial = sz_serial z, zc_records = length (value_or [] recs),
           zc_dirty = value_or False dirty, zc_targets = sz_targets z\<rparr> # cards, st3))"

definition port_or_22 :: "server \<Rightarrow> int" where
  "port_or_22 sv = (if s_port sv = 0 then 22 else s_port sv)"

definition dashboard_row :: "config \<Rightarrow> store_zone list \<Rightarrow> string \<Rightarrow> server_row" where
  "dashboard_row cfg zones name =
     (let sv = server_of cfg name in
      \<lparr>sv_name = name, sv_host = s_host sv, sv_user = s_user sv, sv_port = port_or_22 sv,
       sv_zones = length (filter (\<lambda>t. t = name) (concat (map sz_targets zones)))\<rparr>)"

definition handleDashboard :: "'r web_server \<Rightarrow> http_env \<Rightarrow> handler" where
  "handleDashboard w e r st =
     (case on_store ListZones st of
        (Inl err, st1) \<Rightarrow> (respond (Http_error 500 (E_text ''internal error'')), st1)
      | (Inr zones, st1) \<Rightarrow>
          let (cards, st2) = zone_cards (ws_lib w) zones st1;
              servers = map (dashboard_row (ws_cfg w) zones) (ServerNames (ws_cfg w))
          in (page w e r ''Zones'' (C_dashboard cards servers (length cards) (length servers)
                (length (filter zc_dirty cards))), st2))"

definition servers_row :: "config \<Rightarrow> store_zone list \<Rightarrow> string \<Rightarrow> server_detail" where
  "servers_row cfg zones name =
     (let sv = server_of cfg name;
          zs = concat (map (\<lambda>z. map (\<lambda>_. sz_name z) (filter (\<lambda>t. t = name) (sz_targets z))) zones)
      in \<lparr>sd_row_name = name, sd_row_host = s_host sv, sd_row_user = s_user sv,
          sd_row_dir = s_remote_zone_dir sv, sd_row_port = port_or_22 sv, sd_row_zones = sort zs\<rparr>)"

definition handleServers :: "'r web_server \<Rightarrow> http_env \<Rightarrow> handler" where
  "handleServers w e r st =
     (let (zones, st1) = on_store ListZones st in
      (page w e r ''Servers''
         (C_servers (map (servers_row (ws_cfg w) (value_or [] zones)) (ServerNames (ws_cfg w)))), st1))"


subsection \<open>Middleware\<close>

definition isMutating :: "string \<Rightarrow> bool" where
  "isMutating m \<longleftrightarrow> m \<in> {''POST'', ''PUT'', ''PATCH'', ''DELETE''}"

definition csrf_token :: "http_request \<Rightarrow> string" where
  "csrf_token r = (if hr_csrf_header r = [] then post_value r ''csrf_token'' else hr_csrf_header r)"

definition requireAuth :: "'r web_server \<Rightarrow> http_env \<Rightarrow> handler \<Rightarrow> handler" where
  "requireAuth w e next r st =
     (case currentSession w e r of
        None \<Rightarrow> (respond (Redirect ''/login''), st)
      | Some s \<Rightarrow>
          if \<not> se_authed s then (respond (Redirect ''/login''), st)
          else if isMutating (hr_method r) \<and> csrf_token r \<noteq> se_csrf s then
            (respond (Http_error 403 (E_text ''csrf token mismatch'')), st)
          else next r st)"

definition logRequests :: "handler \<Rightarrow> handler" where
  "logRequests next r st =
     next r (st\<lparr>ss_metrics := (ss_metrics st)\<lparr>m_http_requests := m_http_requests (ss_metrics st) + 1\<rparr>\<rparr>)"

end
