(* ===== verification/Web_Zones.thy ===== *)
theory Web_Zones
  imports Web_Handlers
begin

section \<open>The zone handlers\<close>

text \<open>
  The handlers of \<open>internal/web/zones.go\<close>. A store call whose error the source drops (\<open>x, _ := ...\<close>)
  is \<open>value_or\<close> with the zero value Go returns beside the error.
\<close>

definition recordRows :: "(int \<times> zrecord) list \<Rightarrow> record_row_view list" where
  "recordRows recs = map (\<lambda>(i, r).
     \<lparr>rv_id = i, rv_name = r_name r, rv_ttl = dec32 (r_ttl r), rv_type = r_type r, rv_data = r_data r,
      rv_editing = False\<rparr>) recs"

fun markEditing :: "record_row_view list \<Rightarrow> int \<Rightarrow> record_row_view list" where
  "markEditing [] i = []"
| "markEditing (row # rows) i =
     (if rv_id row = i then row\<lparr>rv_editing := True\<rparr> # rows else row # markEditing rows i)"

definition serverChoices :: "config \<Rightarrow> string list \<Rightarrow> choices" where
  "serverChoices cfg selected = map (\<lambda>n. (n, n \<in> set selected)) (ServerNames cfg)"


subsection \<open>New zone and settings\<close>

definition handleNewZoneForm :: "'r web_server \<Rightarrow> http_env \<Rightarrow> handler" where
  "handleNewZoneForm w e r st =
     (page w e r ''New zone''
        (C_new_zone \<lparr>sz_name = [], sz_primary_ns = [], sz_mbox = [], sz_refresh = 7200, sz_retry = 3600,
           sz_expire = 1209600, sz_minimum = 3600, sz_ttl = 3600, sz_serial = 0, sz_targets = []\<rparr>
           (serverChoices (ws_cfg w) []) None), st)"

definition zoneFromForm :: "config \<Rightarrow> http_request \<Rightarrow> store_zone" where
  "zoneFromForm cfg r =
     \<lparr>sz_name = trim_space (post_value r ''name''),
      sz_primary_ns = trim_space (post_value r ''primary_ns''),
      sz_mbox = trim_space (post_value r ''mbox''),
      sz_refresh = formUint r ''refresh'' 7200, sz_retry = formUint r ''retry'' 3600,
      sz_expire = formUint r ''expire'' 1209600, sz_minimum = formUint r ''minimum'' 3600,
      sz_ttl = formUint r ''ttl'' 3600, sz_serial = 0, sz_targets = formTargets cfg r\<rparr>"

definition handleCreateZone :: "'r web_server \<Rightarrow> http_env \<Rightarrow> handler" where
  "handleCreateZone w e r st =
     (let z = zoneFromForm (ws_cfg w) r;
          reErr = (\<lambda>err. page w e r ''New zone''
            (C_new_zone z (serverChoices (ws_cfg w) (sz_targets z)) (Some err)))
      in if sz_name z = [] \<or> sz_primary_ns z = [] \<or> sz_mbox z = [] then
           (reErr (E_text ''name, primary NS, and admin email are required''), st)
         else
           let (ok, st1) = on_store (ZoneExists (sz_name z)) st in
           if value_or False ok then
             (reErr (E_text (''a zone named '' @ sz_name z @ '' already exists'')), st1)
           else
             case Build (ws_lib w) (sz_name z) (SOAData z) [] of
               Inl err \<Rightarrow> (reErr (E_zone ''invalid zone settings: '' err), st1)
             | Inr _ \<Rightarrow>
                 (case on_store (CreateZone z (he_created e)) st1 of
                    (Inl err, st2) \<Rightarrow> (reErr (E_store ''create: '' err), st2)
                  | (Inr _, st2) \<Rightarrow>
                      (respond (Redirect (''/zones/'' @ sz_name z @ ''?flash=Zone+created'')),
                       audit w e (zone_event r ''zone_create'' (sz_name z)) st2)))"

definition handleImportForm :: "'r web_server \<Rightarrow> http_env \<Rightarrow> handler" where
  "handleImportForm w e r st =
     (page w e r ''Import zone'' (C_import (serverChoices (ws_cfg w) []) [] [] None), st)"

definition imported_text :: "nat \<Rightarrow> string" where
  "imported_text n = dec n @ '' records''"

definition handleImport :: "'r web_server \<Rightarrow> http_env \<Rightarrow> handler" where
  "handleImport w e r st =
     (let name = trim_space (post_value r ''name'');
          content = post_value r ''content'';
          targets = formTargets (ws_cfg w) r;
          reErr = (\<lambda>err. page w e r ''Import zone''
            (C_import (serverChoices (ws_cfg w) targets) name content (Some err)))
      in if name = [] \<or> trim_space content = [] then
           (reErr (E_text ''zone name and file content are required''), st)
         else
           case on_store (ImportZone (ws_lib w) name content targets (he_created e)) st of
             (Inl err, st1) \<Rightarrow> (reErr (E_store [] err), st1)
           | (Inr n, st1) \<Rightarrow>
               (respond (Redirect (''/zones/'' @ name @ ''?flash=Imported+'' @ dec n @ ''+records'')),
                audit w e ((zone_event r ''zone_import'' name)\<lparr>ev_detail := imported_text n\<rparr>) st1))"

definition handleSettingsForm :: "'r web_server \<Rightarrow> http_env \<Rightarrow> handler" where
  "handleSettingsForm w e r st =
     (let name = hr_zone r in
      case on_store (GetZone name) st of
        (Inl err, st1) \<Rightarrow> (zone_failure err, st1)
      | (Inr z, st1) \<Rightarrow>
          (page w e r (''Settings '' @ name)
             (C_settings z (serverChoices (ws_cfg w) (sz_targets z)) None), st1))"

definition handleUpdateSettings :: "'r web_server \<Rightarrow> http_env \<Rightarrow> handler" where
  "handleUpdateSettings w e r st =
     (let name = hr_zone r;
          z = (zoneFromForm (ws_cfg w) r)\<lparr>sz_name := name\<rparr>;
          reErr = (\<lambda>err. page w e r (''Settings '' @ name)
            (C_settings z (serverChoices (ws_cfg w) (sz_targets z)) (Some err)))
      in if sz_primary_ns z = [] \<or> sz_mbox z = [] then
           (reErr (E_text ''primary NS and admin email are required''), st)
         else
           case Build (ws_lib w) name (SOAData z) [] of
             Inl err \<Rightarrow> (reErr (E_zone ''invalid zone settings: '' err), st)
           | Inr _ \<Rightarrow>
               (case on_store (UpdateZoneSettings z) st of
                  (Inl err, st1) \<Rightarrow> (reErr (E_store ''update: '' err), st1)
                | (Inr _, st1) \<Rightarrow>
                    (respond (Redirect (''/zones/'' @ name @ ''?flash=Settings+saved'')),
                     audit w e (zone_event r ''zone_settings'' name) st1)))"

definition handleDeleteZone :: "'r web_server \<Rightarrow> http_env \<Rightarrow> handler" where
  "handleDeleteZone w e r st =
     (let name = hr_zone r;
          gone = (\<lambda>st1. (respond (Redirect ''/?flash=Zone+deleted''), audit w e (zone_event r ''zone_delete'' name) st1))
      in case on_store (DeleteZone name) st of
           (Inl err, st1) \<Rightarrow>
             if err \<noteq> ErrNotFound then (respond (Http_error 500 (E_store ''delete: '' err)), st1) else gone st1
         | (Inr _, st1) \<Rightarrow> gone st1)"


subsection \<open>Editor\<close>

definition handleEditor :: "'r web_server \<Rightarrow> http_env \<Rightarrow> handler" where
  "handleEditor w e r st =
     (let name = hr_zone r in
      case on_store (GetZone name) st of
        (Inl err, st1) \<Rightarrow> (zone_failure err, st1)
      | (Inr z, st1) \<Rightarrow>
          let (recs, st2) = on_store (RecordsOf name) st1;
              (dirty, st3) = on_store (Dirty (ws_lib w) name) st2;
              (snap, st4) = on_store (LastSnapshot name) st3
          in (page w e r name (C_editor name z (recordRows (value_or [] recs)) (value_or False dirty)
                (value_or None snap \<noteq> None) (query_value r ''flash'')), st4))"

definition renderRecords ::
    "'r web_server \<Rightarrow> http_env \<Rightarrow> http_request \<Rightarrow> string \<Rightarrow> record_row_view list \<Rightarrow> page_error option \<Rightarrow> response" where
  "renderRecords w e r zoneName rows recErr =
     respond (Fragment (csrfOf (currentSession w e r)) (C_records zoneName rows recErr))"

definition show_records ::
    "'r web_server \<Rightarrow> http_env \<Rightarrow> (record_row_view list \<Rightarrow> record_row_view list) \<Rightarrow> page_error option \<Rightarrow> handler" where
  "show_records w e f recErr r st =
     (let (recs, st1) = on_store (RecordsOf (hr_zone r)) st in
      (renderRecords w e r (hr_zone r) (f (recordRows (value_or [] recs))) recErr, st1))"

definition handleRecordsFragment :: "'r web_server \<Rightarrow> http_env \<Rightarrow> handler" where
  "handleRecordsFragment w e r st =
     (let (ok, st1) = on_store (ZoneExists (hr_zone r)) st in
      if \<not> value_or False ok then (respond (Http_error 404 (E_text ''unknown zone'')), st1)
      else show_records w e id None r st1)"

definition handleEditRecordForm :: "'r web_server \<Rightarrow> http_env \<Rightarrow> handler" where
  "handleEditRecordForm w e r st =
     (let i = fst (parse_int64 (query_value r ''id'')) in
      show_records w e (\<lambda>rows. markEditing rows i) None r st)"

definition form_record :: "'r web_server \<Rightarrow> http_request \<Rightarrow> zone_error + zrecord" where
  "form_record w r =
     NormalizeRecord (ws_lib w) (hr_zone r) (post_value r ''name'') (formUint r ''ttl'' 3600)
       (post_value r ''type'') (post_value r ''data'')"

definition handleAddRecord :: "'r web_server \<Rightarrow> http_env \<Rightarrow> handler" where
  "handleAddRecord w e r st =
     (let name = hr_zone r in
      case form_record w r of
        Inl err \<Rightarrow> show_records w e id (Some (E_zone [] err)) r st
      | Inr rec \<Rightarrow>
          (case on_store (AddRecord name rec) st of
             (Inl err, st1) \<Rightarrow> (respond (Http_error 500 (E_store ''add record: '' err)), st1)
           | (Inr _, st1) \<Rightarrow>
               show_records w e id None r (audit w e (zone_event r ''record_add'' name) st1)))"

definition handleUpdateRecord :: "'r web_server \<Rightarrow> http_env \<Rightarrow> handler" where
  "handleUpdateRecord w e r st =
     (let name = hr_zone r; i = fst (parse_int64 (post_value r ''id'')) in
      case form_record w r of
        Inl err \<Rightarrow> show_records w e (\<lambda>rows. markEditing rows i) (Some (E_zone [] err)) r st
      | Inr rec \<Rightarrow>
          (case on_store (UpdateRecord name i rec) st of
             (Inl err, st1) \<Rightarrow> (respond (Http_error 500 (E_store ''update record: '' err)), st1)
           | (Inr _, st1) \<Rightarrow>
               show_records w e id None r (audit w e (zone_event r ''record_update'' name) st1)))"

definition handleDeleteRecord :: "'r web_server \<Rightarrow> http_env \<Rightarrow> handler" where
  "handleDeleteRecord w e r st =
     (let name = hr_zone r; i = fst (parse_int64 (post_value r ''id''));
          gone = (\<lambda>st1. show_records w e id None r (audit w e (zone_event r ''record_delete'' name) st1))
      in case on_store (DeleteRecord name i) st of
           (Inl err, st1) \<Rightarrow>
             if err \<noteq> ErrNotFound then (respond (Http_error 500 (E_store ''delete record: '' err)), st1)
             else gone st1
         | (Inr _, st1) \<Rightarrow> gone st1)"


subsection \<open>Preview, diff, validation\<close>

definition handlePreview :: "'r web_server \<Rightarrow> http_env \<Rightarrow> handler" where
  "handlePreview w e r st =
     (let name = hr_zone r in
      case on_store (BuildZone (ws_lib w) name) st of
        (Inl err, st1) \<Rightarrow>
          (respond (if err = ErrNotFound then Http_error 404 (E_text ''unknown zone'')
                    else Http_error 500 (E_store ''render: '' err)), st1)
      | (Inr z, st1) \<Rightarrow> (page w e r (''Preview '' @ name) (C_preview name (Render (ws_lib w) z)), st1))"

definition handleDiff :: "'r web_server \<Rightarrow> http_env \<Rightarrow> handler" where
  "handleDiff w e r st =
     (let name = hr_zone r in
      case on_store (BuildZone (ws_lib w) name) st of
        (Inl err, st1) \<Rightarrow> (zone_failure err, st1)
      | (Inr z, st1) \<Rightarrow>
          let (snap, st2) = on_store (LastSnapshot name) st1 in
          (page w e r (''Diff '' @ name)
             (C_diff name
                (case value_or None snap of
                   None \<Rightarrow> None
                 | Some sn \<Rightarrow> Some (computeDiff (snap_content sn) (Render (ws_lib w) z)))), st2))"

definition validate_result :: "bool \<Rightarrow> page_error \<Rightarrow> response" where
  "validate_result ok err = respond (Fragment [] (C_validate ok err))"

definition handleValidate :: "'r web_server \<Rightarrow> http_env \<Rightarrow> handler" where
  "handleValidate w e r st =
     (let name = hr_zone r in
      case on_store (BuildZone (ws_lib w) name) st of
        (Inl err, st1) \<Rightarrow> (validate_result False (E_store [] err), st1)
      | (Inr z, st1) \<Rightarrow>
          (case Check (ws_lib w) (he_check e) [] name (Render (ws_lib w) z) of
             (out, Some (Exit_error _)) \<Rightarrow> (validate_result False (E_text (trim_space out)), st1)
           | (out, Some (Other_error _)) \<Rightarrow>
               (validate_result True (E_text
                  ''Parsed OK (named-checkzone unavailable locally; targets re-validate on deploy).''), st1)
           | (out, None) \<Rightarrow> (validate_result True (E_text ''Zone is valid.''), st1)))"


subsection \<open>Deploy\<close>

definition status_text :: "status \<Rightarrow> string" where
  "status_text s = (case s of StatusSuccess \<Rightarrow> ''success'' | StatusPartial \<Rightarrow> ''partial'' | StatusFailed \<Rightarrow> ''failed'')"

text \<open>\<open>strings.SplitN(err, ":", 2)[0]\<close> is the part before the first colon.\<close>

definition server_summary :: "server_result \<Rightarrow> string" where
  "server_summary sr =
     sr_name sr @ '':'' @
     (if sr_err sr \<noteq> [] then takeWhile (\<lambda>c. c \<noteq> CHR '':'') (sr_err sr)
      else if \<not> sr_verified sr then ''unverified'' else ''reloaded'')"

definition serverSummaries :: "server_result list \<Rightarrow> string list" where
  "serverSummaries srs = map server_summary srs"

definition deploy_error_text :: "deploy_error \<Rightarrow> string" where
  "deploy_error_text err =
     (case err of
        No_targets \<Rightarrow> ''zone has no target servers''
      | Local_check_rejected out \<Rightarrow> ''local named-checkzone rejected zone: '' @ out)"

definition observe :: "deploy_result \<Rightarrow> server_state \<Rightarrow> server_state" where
  "observe res st = st\<lparr>ss_metrics := ObserveDeploy (status_text (dr_status res)) (ss_metrics st)\<rparr>"

text \<open>\<open>res\<close> is not nil when \<open>Deploy\<close> returns no error; the handler dereferences it there.\<close>

definition handleDeploy :: "'r web_server \<Rightarrow> http_env \<Rightarrow> handler" where
  "handleDeploy w e r st =
     (let name = hr_zone r; title = ''Deploy '' @ name in
      case on_store (GetZone name) st of
        (Inl err, st1) \<Rightarrow> (zone_failure err, st1)
      | (Inr z, st1) \<Rightarrow>
        (case on_store (BuildZone (ws_lib w) name) st1 of
           (Inl err, st2) \<Rightarrow> (page w e r title (C_deploy name None (Some (E_store [] err))), st2)
         | (Inr built, st2) \<Rightarrow>
           (case BumpSerial (c_serial_policy (ws_cfg w)) (he_now e) built of
              (Inl err, _) \<Rightarrow> (page w e r title (C_deploy name None (Some (E_zone [] err))), st2)
            | (Inr (old, newSerial), built') \<Rightarrow>
              let content = Render (ws_lib w) built';
                  req = \<lparr>rq_zone = name, rq_content = content, rq_old_serial = old,
                         rq_new_serial = newSerial, rq_targets = sz_targets z\<rparr>
              in case ws_deploy w req of
                   (res, Some derr) \<Rightarrow>
                     (page w e r title (C_deploy name res (Some (E_deploy derr))),
                      audit w e ((zone_event r ''deploy'' name)
                        \<lparr>ev_status := ''error'', ev_detail := deploy_error_text derr\<rparr>) st2)
                 | (None, None) \<Rightarrow> (respond (Http_error 500 (E_text ''internal error'')), st2)
                 | (Some res, None) \<Rightarrow>
                     let st3 = observe res st2;
                         (pub, st4) = (if AllMoved res
                           then on_store (Publish name content newSerial (he_created e)) st3
                           else (Inl ErrNotFound, st3));
                         res' = (if AllMoved res \<and> is_ok pub then res\<lparr>dr_promoted := True\<rparr> else res)
                     in (page w e r title (C_deploy name (Some res') None),
                         audit w e ((zone_event r ''deploy'' name)
                           \<lparr>ev_status := status_text (dr_status res'), ev_old_serial := dr_old_serial res',
                            ev_new_serial := dr_new_serial res',
                            ev_servers := serverSummaries (dr_servers res')\<rparr>) st4))))"


subsection \<open>History and rollback\<close>

text \<open>The source shows the time of a snapshot in a format of its own; here the stored text is kept.\<close>

definition history_row_of :: "snapshot \<Rightarrow> history_row" where
  "history_row_of sn =
     \<lparr>hi_id = snap_id sn, hi_serial = snap_serial sn, hi_when = snap_created_at sn, hi_size = snap_size sn\<rparr>"

definition handleHistory :: "'r web_server \<Rightarrow> http_env \<Rightarrow> handler" where
  "handleHistory w e r st =
     (let name = hr_zone r; (ok, st1) = on_store (ZoneExists name) st in
      if \<not> value_or False ok then (respond (Http_error 404 (E_text ''unknown zone'')), st1)
      else
        let (snaps, st2) = on_store (ListSnapshots name) st1 in
        (page w e r (''History '' @ name)
           (C_history name (map history_row_of (value_or [] snaps)) (query_value r ''flash'')), st2))"

definition handleRollback :: "'r web_server \<Rightarrow> http_env \<Rightarrow> handler" where
  "handleRollback w e r st =
     (let name = hr_zone r; i = fst (parse_int64 (post_value r ''id'')) in
      case on_store (RestoreSnapshot (ws_lib w) name i) st of
        (Inl err, st1) \<Rightarrow>
          (respond (if err = ErrNotFound then Http_error 404 (E_text ''unknown snapshot'')
                    else Http_error 500 (E_store ''rollback: '' err)), st1)
      | (Inr _, st1) \<Rightarrow>
          (respond (Redirect (''/zones/'' @ name @ ''?flash=Restored;+review+and+deploy'')),
           audit w e ((zone_event r ''rollback'' name)\<lparr>ev_detail := dec_int i\<rparr>) st1))"

end
