(* ===== verification/Web_Routes.thy ===== *)
theory Web_Routes
  imports Web_Zones
begin

section \<open>Routing\<close>

text \<open>
  \<open>New\<close> and \<open>Handler\<close> of \<open>internal/web/server.go\<close>. \<open>mux\<close> is the routing table over the method and the path
  segments (the path \<open>/\<close> is the empty list); the literal segment wins over the wildcard, a \<open>GET\<close>
  pattern also serves \<open>HEAD\<close>, and a wildcard does not match an empty segment. Requests that the mux answers
  itself (not found, method not allowed, path cleaning) are \<open>None\<close>.
\<close>

datatype route =
    R_healthz | R_metrics | R_login_form | R_login | R_logout | R_static
  | R_dashboard | R_servers | R_new_zone_form | R_create_zone | R_import_form | R_import
  | R_editor | R_settings_form | R_update_settings | R_delete_zone
  | R_records | R_edit_record_form | R_add_record | R_update_record | R_delete_record
  | R_preview | R_diff | R_validate | R_deploy | R_history | R_rollback

definition get_routes :: "string list \<Rightarrow> (route \<times> string) option" where
  "get_routes path =
     (case path of
        [] \<Rightarrow> Some (R_dashboard, [])
      | [a] \<Rightarrow>
          if a = ''healthz'' then Some (R_healthz, []) else if a = ''metrics'' then Some (R_metrics, [])
          else if a = ''login'' then Some (R_login_form, []) else if a = ''servers'' then Some (R_servers, [])
          else None
      | a # b # rest \<Rightarrow>
          if a = ''static'' then Some (R_static, [])
          else if a \<noteq> ''zones'' \<or> b = [] then None
          else (case rest of
              [] \<Rightarrow>
                if b = ''new'' then Some (R_new_zone_form, []) else if b = ''import'' then Some (R_import_form, [])
                else Some (R_editor, b)
            | [c] \<Rightarrow>
                if c = ''settings'' then Some (R_settings_form, b) else if c = ''records'' then Some (R_records, b)
                else if c = ''preview'' then Some (R_preview, b) else if c = ''diff'' then Some (R_diff, b)
                else if c = ''history'' then Some (R_history, b) else None
            | [c, d] \<Rightarrow> if c = ''records'' \<and> d = ''edit'' then Some (R_edit_record_form, b) else None
            | _ \<Rightarrow> None))"

definition post_routes :: "string list \<Rightarrow> (route \<times> string) option" where
  "post_routes path =
     (case path of
        [a] \<Rightarrow>
          if a = ''login'' then Some (R_login, []) else if a = ''logout'' then Some (R_logout, [])
          else if a = ''zones'' then Some (R_create_zone, []) else None
      | a # b # rest \<Rightarrow>
          if a \<noteq> ''zones'' \<or> b = [] then None
          else (case rest of
              [] \<Rightarrow> if b = ''import'' then Some (R_import, []) else None
            | [c] \<Rightarrow>
                if c = ''settings'' then Some (R_update_settings, b) else if c = ''delete'' then Some (R_delete_zone, b)
                else if c = ''records'' then Some (R_add_record, b) else if c = ''validate'' then Some (R_validate, b)
                else if c = ''deploy'' then Some (R_deploy, b) else if c = ''rollback'' then Some (R_rollback, b)
                else None
            | [c, d] \<Rightarrow>
                if c \<noteq> ''records'' then None
                else if d = ''update'' then Some (R_update_record, b)
                else if d = ''delete'' then Some (R_delete_record, b) else None
            | _ \<Rightarrow> None)
      | _ \<Rightarrow> None)"

definition mux :: "string \<Rightarrow> string list \<Rightarrow> (route \<times> string) option" where
  "mux m path =
     (if m = ''GET'' \<or> m = ''HEAD'' then get_routes path
      else if m = ''POST'' then post_routes path else None)"

definition route_handler :: "'r web_server \<Rightarrow> http_env \<Rightarrow> route \<Rightarrow> handler" where
  "route_handler w e rt =
     (let auth = requireAuth w e in
      case rt of
        R_healthz \<Rightarrow> handleHealthz
      | R_metrics \<Rightarrow> handleMetrics
      | R_login_form \<Rightarrow> handleLoginForm w e
      | R_login \<Rightarrow> handleLogin w e
      | R_logout \<Rightarrow> handleLogout w
      | R_static \<Rightarrow> (\<lambda>r st. (respond Static_file, st))
      | R_dashboard \<Rightarrow> auth (handleDashboard w e)
      | R_servers \<Rightarrow> auth (handleServers w e)
      | R_new_zone_form \<Rightarrow> auth (handleNewZoneForm w e)
      | R_create_zone \<Rightarrow> auth (handleCreateZone w e)
      | R_import_form \<Rightarrow> auth (handleImportForm w e)
      | R_import \<Rightarrow> auth (handleImport w e)
      | R_editor \<Rightarrow> auth (handleEditor w e)
      | R_settings_form \<Rightarrow> auth (handleSettingsForm w e)
      | R_update_settings \<Rightarrow> auth (handleUpdateSettings w e)
      | R_delete_zone \<Rightarrow> auth (handleDeleteZone w e)
      | R_records \<Rightarrow> auth (handleRecordsFragment w e)
      | R_edit_record_form \<Rightarrow> auth (handleEditRecordForm w e)
      | R_add_record \<Rightarrow> auth (handleAddRecord w e)
      | R_update_record \<Rightarrow> auth (handleUpdateRecord w e)
      | R_delete_record \<Rightarrow> auth (handleDeleteRecord w e)
      | R_preview \<Rightarrow> auth (handlePreview w e)
      | R_diff \<Rightarrow> auth (handleDiff w e)
      | R_validate \<Rightarrow> auth (handleValidate w e)
      | R_deploy \<Rightarrow> auth (handleDeploy w e)
      | R_history \<Rightarrow> auth (handleHistory w e)
      | R_rollback \<Rightarrow> auth (handleRollback w e))"

definition serve_mux :: "'r web_server \<Rightarrow> http_env \<Rightarrow> string list \<Rightarrow> handler" where
  "serve_mux w e path r st =
     (case mux (hr_method r) path of
        None \<Rightarrow> (respond Mux_not_found, st)
      | Some (rt, zone) \<Rightarrow> route_handler w e rt (r\<lparr>hr_zone := zone\<rparr>) st)"

text \<open>\<open>Handler\<close>: no handler of the model panics outside \<open>handleDeploy\<close>, so the recovery around it is the
  identity.\<close>

definition serve :: "'r web_server \<Rightarrow> http_env \<Rightarrow> string list \<Rightarrow> handler" where
  "serve w e path = logRequests (serve_mux w e path)"

definition new_server_state :: "store \<Rightarrow> server_state" where
  "new_server_state s =
     \<lparr>ss_store = s, ss_audit = [], ss_metrics = new_metrics,
      ss_limiter = newRateLimiter 5 (60 * 1000000000)\<rparr>"


subsection \<open>Which routes can change the tables\<close>

text \<open>The store as the tables; the schedule of driver faults moves with every statement.\<close>

definition ss_db :: "server_state \<Rightarrow> db" where
  "ss_db st = st_db (ss_store st)"

lemma ss_db_simps [simp]:
  "ss_db (st\<lparr>ss_metrics := m\<rparr>) = ss_db st" "ss_db (st\<lparr>ss_limiter := l\<rparr>) = ss_db st"
  "ss_db (st\<lparr>ss_audit := a\<rparr>) = ss_db st" "ss_db (audit w e ev st) = ss_db st"
  "ss_db (observe res st) = ss_db st"
  by (simp_all add: ss_db_def audit_def observe_def)

definition public_route :: "route \<Rightarrow> bool" where
  "public_route rt \<longleftrightarrow> rt \<in> {R_healthz, R_metrics, R_login_form, R_login, R_logout, R_static}"

definition writing_route :: "route \<Rightarrow> bool" where
  "writing_route rt \<longleftrightarrow> rt \<in> {R_create_zone, R_import, R_update_settings, R_delete_zone, R_add_record,
     R_update_record, R_delete_record, R_deploy, R_rollback}"

lemma post_routes_method: "mux m path = Some (rt, z) \<Longrightarrow> writing_route rt \<Longrightarrow> m = ''POST''"
  by (auto simp: mux_def get_routes_def writing_route_def split: if_splits list.splits)

end
