(* ===== verification/Store_Invariants.thy ===== *)
theory Store_Invariants
  imports Store
begin

section \<open>Invariants of the store\<close>

text \<open>
  What every operation of the store keeps, whatever errors the driver reports: unique zone names,
  unique ids, no record or snapshot of a zone that does not exist; and, for the operations on one
  zone, the rows of all the other zones.
\<close>


subsection \<open>Executing statements\<close>

lemma driver_cases:
  obtains (fault) msg where "fst (driver s) = Inl (Driver msg)"
  | (ok) "fst (driver s) = Inr ()"
proof -
  have "fst (driver s) = Inr () \<or> (\<exists>msg. fst (driver s) = Inl (Driver msg))"
    by (simp add: driver.simps split: list.split option.split)
  with that show thesis by blast
qed

lemma driver_frame [simp]:
  "st_db (snd (driver s)) = st_db s" "st_keep (snd (driver s)) = st_keep s"
  by (auto simp: driver.simps split: list.splits option.splits)

lemma driver_result:
  assumes "driver s = (r, s')"
  shows "st_db s' = st_db s \<and> st_keep s' = st_keep s \<and> (r = Inr () \<or> (\<exists>msg. r = Inl (Driver msg)))"
  using assms driver_frame [of s] by (cases rule: driver_cases [of s]) auto

text \<open>The three ways a statement ends: the driver's error, the statement's own error, success.\<close>

lemma exec_cases:
  assumes "exec stmt s = (r, s')"
  obtains (driver) msg where "r = Inl (Driver msg)" and "st_db s' = st_db s" and "st_keep s' = st_keep s"
  | (error) e where "stmt (st_db s) = Inl e" and "r = Inl e" and "st_db s' = st_db s"
      and "st_keep s' = st_keep s"
  | (ok) x d where "stmt (st_db s) = Inr (x, d)" and "r = Inr x" and "st_db s' = d"
      and "st_keep s' = st_keep s"
proof -
  obtain q t where q: "driver s = (q, t)" by (cases "driver s")
  note t = driver_result [OF q]
  show thesis
  proof (cases q)
    case (Inl e)
    with t obtain msg where "e = Driver msg" by auto
    with Inl assms q t have "r = Inl (Driver msg)" and "s' = t" by (auto simp: exec_def bindE_def)
    with t show thesis using driver by blast
  next
    case (Inr u)
    show thesis
    proof (cases "stmt (st_db s)")
      case e: (Inl e)
      with Inr assms q t have "r = Inl e" and "s' = t" by (auto simp: exec_def bindE_def)
      with e t show thesis using error by blast
    next
      case p: (Inr p)
      obtain x d where xd: "p = (x, d)" by (cases p)
      with p Inr assms q t have "r = Inr x" and "s' = t\<lparr>st_db := d\<rparr>"
        by (auto simp: exec_def bindE_def)
      with p xd t show thesis using ok by simp
    qed
  qed
qed

lemma exec_ok:
  assumes "exec stmt s = (Inr x, s')"
  obtains d where "stmt (st_db s) = Inr (x, d)" and "st_db s' = d" and "st_keep s' = st_keep s"
  using assms by (cases rule: exec_cases) auto

lemma exec_error: "exec stmt s = (Inl e, s') \<Longrightarrow> st_db s' = st_db s \<and> st_keep s' = st_keep s"
  by (erule exec_cases) auto

lemma query_frame [simp]:
  "st_db (snd (query q s)) = st_db s" "st_keep (snd (query q s)) = st_keep s"
  by (cases "exec (\<lambda>d. Inr (q d, d)) s" rule: prod.exhaust; simp add: query_def;
      erule exec_cases; simp)+

lemma query_ok: "query q s = (Inr x, s') \<Longrightarrow> x = q (st_db s) \<and> st_db s' = st_db s \<and> st_keep s' = st_keep s"
  unfolding query_def by (erule exec_ok) auto

lemma query_state: "query q s = (r, s') \<Longrightarrow> st_db s' = st_db s \<and> st_keep s' = st_keep s"
  using query_frame [of q s] by simp

text \<open>A transaction is all or nothing.\<close>

lemma with_tx_cases:
  assumes "with_tx body s = (r, s')"
  obtains (aborted) e where "r = Inl e" and "st_db s' = st_db s"
  | (committed) x t u where "st_db t = st_db s" and "st_keep t = st_keep s" and "body t = (Inr x, u)"
      and "r = Inr x" and "st_db s' = st_db u" and "st_keep s' = st_keep u"
proof -
  obtain q t where q: "driver s = (q, t)" by (cases "driver s")
  note t = driver_result [OF q]
  show thesis
  proof (cases q)
    case (Inl e)
    with assms q t have "r = Inl e" and "st_db s' = st_db s" by (auto simp: with_tx_def bindE_def)
    then show thesis by (rule aborted)
  next
    case (Inr v)
    obtain b u where b: "body t = (b, u)" by (cases "body t")
    obtain c w where c: "driver u = (c, w)" by (cases "driver u")
    note w = driver_result [OF c]
    show thesis
    proof (cases b)
      case (Inl e)
      with \<open>q = Inr v\<close> assms q b t have "r = Inl e" and "st_db s' = st_db s"
        by (auto simp: with_tx_def bindE_def)
      then show thesis by (rule aborted)
    next
      case x: (Inr x)
      show thesis
      proof (cases c)
        case (Inl e)
        with x \<open>q = Inr v\<close> assms q b c t have "r = Inl e" and "st_db s' = st_db s"
          by (auto simp: with_tx_def bindE_def)
        then show thesis by (rule aborted)
      next
        case Inr
        with x \<open>q = Inr v\<close> assms q b c t have "r = Inr x" and "s' = w"
          by (auto simp: with_tx_def bindE_def)
        with committed [of t x u] t b x w show thesis by simp
      qed
    qed
  qed
qed


subsection \<open>Statements that keep a property of the tables\<close>

definition stmt_keeps :: "(db \<Rightarrow> bool) \<Rightarrow> (db \<Rightarrow> store_error + 'a \<times> db) \<Rightarrow> bool" where
  "stmt_keeps I stmt \<longleftrightarrow> (\<forall>d x d'. I d \<longrightarrow> stmt d = Inr (x, d') \<longrightarrow> I d')"

lemma stmt_keepsI [intro?]:
  "(\<And>d x d'. I d \<Longrightarrow> stmt d = Inr (x, d') \<Longrightarrow> I d') \<Longrightarrow> stmt_keeps I stmt"
  by (auto simp: stmt_keeps_def)

abbreviation db_preserves :: "(db \<Rightarrow> bool) \<Rightarrow> 'a store_op \<Rightarrow> bool" where
  "db_preserves I m \<equiv> preserves (\<lambda>s :: store. I (st_db s)) m"

lemma db_preserves_exec [intro]: "stmt_keeps I stmt \<Longrightarrow> db_preserves I (exec stmt)"
proof
  fix s :: store
  assume k: "stmt_keeps I stmt" and I: "I (st_db s)"
  obtain r s' where e: "exec stmt s = (r, s')" by (cases "exec stmt s")
  then have "I (st_db s')"
    using k I by (cases rule: exec_cases) (auto simp: stmt_keeps_def)
  with e show "I (st_db (snd (exec stmt s)))" by simp
qed

lemma db_preserves_query [intro]: "db_preserves I (query q)"
  by (rule preservesI) simp

lemma db_preserves_with_tx [intro]: "db_preserves I body \<Longrightarrow> db_preserves I (with_tx body)"
proof
  fix s :: store
  assume k: "db_preserves I body" and I: "I (st_db s)"
  obtain r s' where r: "with_tx body s = (r, s')" by (cases "with_tx body s")
  from r show "I (st_db (snd (with_tx body s)))"
  proof (cases rule: with_tx_cases)
    case (aborted e)
    with r I show ?thesis by simp
  next
    case (committed x t u)
    with k I have "I (st_db u)" by (metis preserves_def snd_conv)
    with committed r show ?thesis by simp
  qed
qed

lemma db_preserves_notFound [intro]: "db_preserves I (notFoundIfNoRows n)"
  by (auto simp: notFoundIfNoRows_def)


subsection \<open>Integrity of the tables\<close>

definition db_inv :: "db \<Rightarrow> bool" where
  "db_inv d \<longleftrightarrow> distinct (zone_names d)
     \<and> table_ok rc_id rc_zone (zone_names d) (db_records_seq d) (db_records d)
     \<and> table_ok sn_id sn_zone (zone_names d) (db_snapshots_seq d) (db_snapshots d)"

lemma zone_names_update [simp]:
  "zone_names (d\<lparr>db_records := rs\<rparr>) = zone_names d"
  "zone_names (d\<lparr>db_snapshots := ss\<rparr>) = zone_names d"
  "zone_names (d\<lparr>db_records_seq := i\<rparr>) = zone_names d"
  "zone_names (d\<lparr>db_snapshots_seq := i\<rparr>) = zone_names d"
  "zone_names (d\<lparr>db_zones := zs\<rparr>) = map zr_name zs"
  by (simp_all add: zone_names_def)

lemma db_inv_empty: "db_inv empty_db"
  by (simp add: db_inv_def empty_db_def zone_names_def records.empty_ok snapshots.empty_ok)

lemma inv_insert_zone [intro]: "stmt_keeps db_inv (sql_insert_zone row)"
  by rule
     (auto simp: sql_insert_zone_def db_inv_def zone_names_def
       intro: records.rename_ok snapshots.rename_ok split: if_splits)

lemma inv_insert_record [intro]: "stmt_keeps db_inv (sql_insert_record zone name ttl rtype data)"
  by rule
     (auto simp: sql_insert_record_def db_inv_def Let_def
       intro: records.insert_ok split: if_splits)

lemma inv_insert_snapshot [intro]: "stmt_keeps db_inv (sql_insert_snapshot zone serial content created)"
  by rule
     (auto simp: sql_insert_snapshot_def db_inv_def Let_def
       intro: snapshots.insert_ok split: if_splits)

lemma zone_names_map:
  "(\<And>z. zr_name (f z) = zr_name z) \<Longrightarrow>
     map zr_name (map (\<lambda>z. if zr_name z = name then f z else z) zs) = map zr_name zs"
  by (induction zs) auto

lemma inv_update_zones [intro]:
  "(\<And>z. zr_name (f z) = zr_name z) \<Longrightarrow> stmt_keeps db_inv (update_zones name f)"
  by rule (auto simp: update_zones_def db_inv_def zone_names_def zone_names_map simp del: map_map)

lemma inv_set_serial [intro]: "stmt_keeps db_inv (sql_set_serial name serial)"
  unfolding sql_set_serial_def by (rule inv_update_zones) simp

lemma inv_update_settings [intro]: "stmt_keeps db_inv (sql_update_settings name soa targets)"
  unfolding sql_update_settings_def by (rule inv_update_zones) simp

lemma inv_restore_soa [intro]: "stmt_keeps db_inv (sql_restore_soa name soa)"
  unfolding sql_restore_soa_def by (rule inv_update_zones) simp

lemma zone_names_delete:
  "map zr_name (filter (\<lambda>z. zr_name z \<noteq> name) zs) = filter (\<lambda>n. n \<noteq> name) (map zr_name zs)"
  by (induction zs) auto

lemma inv_delete_zone [intro]: "stmt_keeps db_inv (sql_delete_zone name)"
  by rule
     (auto simp: sql_delete_zone_def db_inv_def zone_names_def zone_names_delete
       intro: records.delete_zone_ok snapshots.delete_zone_ok split: if_splits)

lemma inv_update_record [intro]: "stmt_keeps db_inv (sql_update_record zone i name ttl rtype data)"
  by rule
     (auto simp: sql_update_record_def db_inv_def zone_names_def Let_def intro!: records.update_ok)

lemma inv_delete_record [intro]: "stmt_keeps db_inv (sql_delete_record zone i)"
  by rule (auto simp: sql_delete_record_def db_inv_def zone_names_def Let_def intro!: records.filter_ok)

lemma inv_delete_records [intro]: "stmt_keeps db_inv (sql_delete_records zone)"
  by rule (auto simp: sql_delete_records_def db_inv_def zone_names_def intro!: records.filter_ok)

lemma inv_prune_snapshots [intro]: "stmt_keeps db_inv (sql_prune_snapshots zone keep)"
  by rule (auto simp: sql_prune_snapshots_def db_inv_def zone_names_def Let_def intro!: snapshots.filter_ok)


subsection \<open>The rows of the other zones\<close>

definition other_rows :: "string \<Rightarrow> db \<Rightarrow> zone_row list \<times> record_row list \<times> snapshot_row list" where
  "other_rows name d =
     (filter (\<lambda>z. zr_name z \<noteq> name) (db_zones d),
      filter (\<lambda>r. rc_zone r \<noteq> name) (db_records d),
      filter (\<lambda>n. sn_zone n \<noteq> name) (db_snapshots d))"

lemma filter_map_other:
  "(\<And>x. P (f x) = P x) \<Longrightarrow> filter P (map (\<lambda>x. if \<not> P x then f x else x) xs) = filter P xs"
  by (induction xs) auto

lemma filter_map_hit:
  "(\<And>x. hit x \<Longrightarrow> \<not> P x \<and> \<not> P (f x)) \<Longrightarrow> filter P (map (\<lambda>x. if hit x then f x else x) xs) = filter P xs"
  by (induction xs) auto

lemma filter_filter_hit:
  "(\<And>x. P x \<Longrightarrow> Q x) \<Longrightarrow> filter P (filter Q xs) = filter P xs"
  by (induction xs) auto

lemma others_insert_zone [intro]:
  "zr_name row = name \<Longrightarrow> stmt_keeps (\<lambda>d. other_rows name d = X) (sql_insert_zone row)"
  by rule (auto simp: sql_insert_zone_def other_rows_def split: if_splits)

lemma others_insert_record [intro]:
  "stmt_keeps (\<lambda>d. other_rows zone d = X) (sql_insert_record zone name ttl rtype data)"
  by rule (auto simp: sql_insert_record_def other_rows_def Let_def records.zone_mk split: if_splits)

lemma others_insert_snapshot [intro]:
  "stmt_keeps (\<lambda>d. other_rows zone d = X) (sql_insert_snapshot zone serial content created)"
  by rule (auto simp: sql_insert_snapshot_def other_rows_def Let_def snapshots.zone_mk split: if_splits)

lemma others_update_zones [intro]:
  "(\<And>z. zr_name (f z) = zr_name z) \<Longrightarrow> stmt_keeps (\<lambda>d. other_rows name d = X) (update_zones name f)"
  by rule (auto simp: update_zones_def other_rows_def filter_map_hit)

lemma others_set_serial [intro]:
  "stmt_keeps (\<lambda>d. other_rows name d = X) (sql_set_serial name serial)"
  unfolding sql_set_serial_def by (rule others_update_zones) simp

lemma others_update_settings [intro]:
  "stmt_keeps (\<lambda>d. other_rows name d = X) (sql_update_settings name soa targets)"
  unfolding sql_update_settings_def by (rule others_update_zones) simp

lemma others_restore_soa [intro]:
  "stmt_keeps (\<lambda>d. other_rows name d = X) (sql_restore_soa name soa)"
  unfolding sql_restore_soa_def by (rule others_update_zones) simp

lemma others_delete_zone [intro]:
  "stmt_keeps (\<lambda>d. other_rows name d = X) (sql_delete_zone name)"
  by rule (auto simp: sql_delete_zone_def other_rows_def split: if_splits)

lemma others_update_record [intro]:
  "stmt_keeps (\<lambda>d. other_rows zone d = X) (sql_update_record zone i name ttl rtype data)"
proof
  fix d x d'
  assume X: "other_rows zone d = X" and u: "sql_update_record zone i name ttl rtype data d = Inr (x, d')"
  have "filter (\<lambda>r. rc_zone r \<noteq> zone) (db_records d') = filter (\<lambda>r. rc_zone r \<noteq> zone) (db_records d)"
    using u unfolding sql_update_record_def Let_def by (clarsimp) (rule filter_map_hit, simp)
  with X u show "other_rows zone d' = X"
    by (auto simp: sql_update_record_def other_rows_def Let_def)
qed

lemma others_delete_record [intro]:
  "stmt_keeps (\<lambda>d. other_rows zone d = X) (sql_delete_record zone i)"
  by rule (auto simp: sql_delete_record_def other_rows_def Let_def intro!: filter_cong)

lemma others_delete_records [intro]:
  "stmt_keeps (\<lambda>d. other_rows zone d = X) (sql_delete_records zone)"
  by rule (auto simp: sql_delete_records_def other_rows_def)

lemma others_prune_snapshots [intro]:
  "stmt_keeps (\<lambda>d. other_rows zone d = X) (sql_prune_snapshots zone keep)"
proof
  fix d x d'
  assume X: "other_rows zone d = X" and u: "sql_prune_snapshots zone keep d = Inr (x, d')"
  have "filter (\<lambda>n. sn_zone n \<noteq> zone) (db_snapshots d') = filter (\<lambda>n. sn_zone n \<noteq> zone) (db_snapshots d)"
    using u unfolding sql_prune_snapshots_def Let_def by clarsimp (rule filter_cong, auto)
  with X u show "other_rows zone d' = X"
    by (simp add: sql_prune_snapshots_def other_rows_def Let_def) (clarsimp)
qed



subsection \<open>Every operation keeps them\<close>

text \<open>
  Both properties are kept by every operation on a zone for the same reason: the statements it
  executes keep them. The statements an operation on zone \<open>name\<close> executes:
\<close>

definition stmts_keep ::
    "(zrecord \<Rightarrow> bool) \<Rightarrow> (u32 \<Rightarrow> string \<Rightarrow> bool) \<Rightarrow> string \<Rightarrow> (db \<Rightarrow> bool) \<Rightarrow> bool" where
  "stmts_keep okR okS name I \<longleftrightarrow>
     (\<forall>row. zr_name row = name \<longrightarrow> stmt_keeps I (sql_insert_zone row))
   \<and> (\<forall>r. okR r \<longrightarrow> stmt_keeps I (sql_insert_record name (r_name r) (r_ttl r) (r_type r) (r_data r)))
   \<and> (\<forall>n c t. okS n c \<longrightarrow> stmt_keeps I (sql_insert_snapshot name n c t))
   \<and> (\<forall>n. stmt_keeps I (sql_set_serial name n))
   \<and> (\<forall>soa t. stmt_keeps I (sql_update_settings name soa t))
   \<and> (\<forall>soa. stmt_keeps I (sql_restore_soa name soa))
   \<and> stmt_keeps I (sql_delete_zone name)
   \<and> (\<forall>i r. okR r \<longrightarrow> stmt_keeps I (sql_update_record name i (r_name r) (r_ttl r) (r_type r) (r_data r)))
   \<and> (\<forall>i. stmt_keeps I (sql_delete_record name i))
   \<and> stmt_keeps I (sql_delete_records name)
   \<and> (\<forall>k. stmt_keeps I (sql_prune_snapshots name k))"

text \<open>Here \<open>okR\<close> restricts the records that are written and \<open>okS\<close> the serial and text of a new snapshot; often
  neither matters.\<close>

abbreviation zone_stmts_keep :: "string \<Rightarrow> (db \<Rightarrow> bool) \<Rightarrow> bool" where
  "zone_stmts_keep \<equiv> stmts_keep (\<lambda>_. True) (\<lambda>_ _. True)"

lemma zone_stmts_keep_inv: "zone_stmts_keep name db_inv"
  by (auto simp: stmts_keep_def)

lemma zone_stmts_keep_others: "zone_stmts_keep name (\<lambda>d. other_rows name d = X)"
  by (auto simp: stmts_keep_def)

lemma stmts_keep_weaken:
  "stmts_keep okR okS name I \<Longrightarrow> (\<And>r. okR' r \<Longrightarrow> okR r) \<Longrightarrow> (\<And>n c. okS' n c \<Longrightarrow> okS n c)
     \<Longrightarrow> stmts_keep okR' okS' name I"
  by (simp add: stmts_keep_def)

text \<open>The records that the parser gives the store for a zone, from a whole file or from one line.\<close>

definition parses_to :: "'r dns_lib \<Rightarrow> string \<Rightarrow> (zrecord \<Rightarrow> bool) \<Rightarrow> bool" where
  "parses_to L origin okR \<longleftrightarrow>
     (\<forall>content z. Parse L content origin = Inr z \<longrightarrow> (\<forall>r\<in>set (DataRecords L z). okR r))
   \<and> (\<forall>name ttl rtype data r. NormalizeRecord L origin name ttl rtype data = Inr r \<longrightarrow> okR r)"

lemma parses_to_any [simp]: "parses_to L origin (\<lambda>_. True)"
  by (simp add: parses_to_def)

lemmas keep_rules =
  preserves_bindE preserves_returnE preserves_failE db_preserves_exec db_preserves_query
  db_preserves_with_tx db_preserves_notFound

lemma keep_insert_records:
  "stmts_keep okR okS name I \<Longrightarrow> (\<forall>r\<in>set recs. okR r) \<Longrightarrow> db_preserves I (insert_records name recs)"
  by (induction recs) (simp_all add: keep_rules stmts_keep_def)

lemma keep_CreateZone:
  "stmts_keep okR okS (sz_name z) I \<Longrightarrow> db_preserves I (CreateZone z created)"
  by (simp add: keep_rules CreateZone_def stmts_keep_def zone_to_row_def zone_defaults_def)

lemma keep_UpdateZoneSettings:
  "stmts_keep okR okS (sz_name z) I \<Longrightarrow> db_preserves I (UpdateZoneSettings z)"
  by (simp add: keep_rules UpdateZoneSettings_def stmts_keep_def zone_defaults_def Let_def)

lemma keep_SetSerial: "stmts_keep okR okS name I \<Longrightarrow> db_preserves I (SetSerial name serial)"
  by (simp add: keep_rules SetSerial_def stmts_keep_def)

lemma keep_DeleteZone: "stmts_keep okR okS name I \<Longrightarrow> db_preserves I (DeleteZone name)"
  by (simp add: keep_rules DeleteZone_def stmts_keep_def)

lemma keep_AddRecord: "stmts_keep okR okS name I \<Longrightarrow> okR r \<Longrightarrow> db_preserves I (AddRecord name r)"
  by (simp add: keep_rules AddRecord_def stmts_keep_def)

lemma keep_UpdateRecord: "stmts_keep okR okS name I \<Longrightarrow> okR r \<Longrightarrow> db_preserves I (UpdateRecord name i r)"
  by (simp add: keep_rules UpdateRecord_def stmts_keep_def)

lemma keep_DeleteRecord: "stmts_keep okR okS name I \<Longrightarrow> db_preserves I (DeleteRecord name i)"
  by (simp add: keep_rules DeleteRecord_def stmts_keep_def)

lemma keep_ImportZone:
  assumes "stmts_keep okR okS name I" and "parses_to L name okR"
  shows "db_preserves I (ImportZone L name content targets created)"
proof -
  have "db_preserves I (exec (sql_insert_zone (zone_to_row (zone_defaults (zone_of_soa name soa targets)) created)))"
    for soa
    using assms(1)
    by (auto simp: stmts_keep_def zone_to_row_def zone_defaults_def zone_of_soa_def)
  moreover have "db_preserves I (insert_records name (DataRecords L z))" if "Parse L content name = Inr z" for z
    using keep_insert_records [OF assms(1)] assms(2) that by (auto simp: parses_to_def)
  ultimately show ?thesis
    unfolding ImportZone_def ZoneExists_def Let_def
    by (auto simp: keep_rules split: sum.split intro!: preserves_bindE)
qed

lemma keep_prune:
  "stmts_keep okR okS name I \<Longrightarrow> db_preserves I (\<lambda>s. exec (sql_prune_snapshots name (st_keep s)) s)"
  by (rule preservesI, rule db_preserves_exec [THEN preservesD, of I]) (auto simp: stmts_keep_def)

lemma keep_Publish:
  assumes "stmts_keep okR okS name I" and "okS serial content"
  shows "db_preserves I (Publish name content serial created)"
proof -
  have "db_preserves I (exec (sql_insert_snapshot name serial content created))"
    using assms by (auto simp: stmts_keep_def)
  with keep_prune [OF assms(1)] keep_SetSerial [OF assms(1)] show ?thesis
    unfolding Publish_def by (intro preserves_bindE)
qed

lemma keep_RestoreSnapshot:
  assumes "stmts_keep okR okS name I" and "parses_to L name okR"
  shows "db_preserves I (RestoreSnapshot L name i)"
proof -
  have "db_preserves I (exec (sql_restore_soa name soa))" for soa
    using assms(1) by (auto simp: stmts_keep_def)
  moreover have "db_preserves I (exec (sql_delete_records name))"
    using assms(1) by (auto simp: stmts_keep_def)
  moreover have "db_preserves I (insert_records name (DataRecords L z))" if "Parse L content name = Inr z" for content z
    using keep_insert_records [OF assms(1)] assms(2) that by (auto simp: parses_to_def)
  ultimately show ?thesis
    unfolding RestoreSnapshot_def Let_def
    by (auto simp: keep_rules split: option.split sum.split intro!: preserves_bindE)
qed

lemmas keep_ops =
  keep_CreateZone keep_UpdateZoneSettings keep_SetSerial keep_DeleteZone keep_AddRecord
  keep_UpdateRecord keep_DeleteRecord keep_ImportZone keep_Publish keep_RestoreSnapshot

text \<open>The calls that change the store, as one type; a program using the store is a list of them.\<close>

datatype store_call =
    Call_create store_zone string
  | Call_settings store_zone
  | Call_set_serial string u32
  | Call_delete string
  | Call_import string string "string list" string
  | Call_add_record string zrecord
  | Call_update_record string int zrecord
  | Call_delete_record string int
  | Call_publish string string u32 string
  | Call_restore string int

fun call_zone :: "store_call \<Rightarrow> string" where
  "call_zone (Call_create z t) = sz_name z"
| "call_zone (Call_settings z) = sz_name z"
| "call_zone (Call_set_serial name n) = name"
| "call_zone (Call_delete name) = name"
| "call_zone (Call_import name c ts t) = name"
| "call_zone (Call_add_record name r) = name"
| "call_zone (Call_update_record name i r) = name"
| "call_zone (Call_delete_record name i) = name"
| "call_zone (Call_publish name c n t) = name"
| "call_zone (Call_restore name i) = name"

fun store_step :: "'r dns_lib \<Rightarrow> store_call \<Rightarrow> store \<Rightarrow> store" where
  "store_step L (Call_create z t) s = snd (CreateZone z t s)"
| "store_step L (Call_settings z) s = snd (UpdateZoneSettings z s)"
| "store_step L (Call_set_serial name n) s = snd (SetSerial name n s)"
| "store_step L (Call_delete name) s = snd (DeleteZone name s)"
| "store_step L (Call_import name c ts t) s = snd (ImportZone L name c ts t s)"
| "store_step L (Call_add_record name r) s = snd (AddRecord name r s)"
| "store_step L (Call_update_record name i r) s = snd (UpdateRecord name i r s)"
| "store_step L (Call_delete_record name i) s = snd (DeleteRecord name i s)"
| "store_step L (Call_publish name c n t) s = snd (Publish name c n t s)"
| "store_step L (Call_restore name i) s = snd (RestoreSnapshot L name i s)"

lemma store_step_keeps:
  "zone_stmts_keep (call_zone c) I \<Longrightarrow> I (st_db s) \<Longrightarrow> I (st_db (store_step L c s))"
  by (cases c) (auto intro: keep_ops [where okR = "\<lambda>_. True" and okS = "\<lambda>_ _. True", THEN preservesD])

interpretation store_integrity: inv_machine "store_step L" "\<lambda>s. db_inv (st_db s)" for L
  by unfold_locales (rule store_step_keeps [OF zone_stmts_keep_inv])

text \<open>
  The integrity of the tables (unique zone names, unique row ids not above the counter, every
  record and snapshot belonging to a zone that exists) is kept by every sequence of store calls,
  whatever statements fail on the way.
\<close>
theorem store_calls_keep_integrity:
  assumes "db_inv (st_db s)"
  shows "db_inv (st_db (fold (store_step L) calls s))"
  using assms by (rule store_integrity.inv_run)

lemma other_rows_run:
  "\<forall>c\<in>set calls. call_zone c = name \<Longrightarrow>
     other_rows name (st_db (fold (store_step L) calls s)) = other_rows name (st_db s)"
proof (induction calls arbitrary: s)
  case Nil
  then show ?case by simp
next
  case (Cons c calls)
  then have "zone_stmts_keep (call_zone c) (\<lambda>d. other_rows name d = other_rows name (st_db s))"
    by (simp add: zone_stmts_keep_others)
  then have "other_rows name (st_db (store_step L c s)) = other_rows name (st_db s)"
    by (rule store_step_keeps) simp
  with Cons show ?case by simp
qed

end
