(* ===== verification/Web_Safety.thy ===== *)
theory Web_Safety
  imports Web_Routes Store_Invariants
begin

section \<open>Who can change what through the web server\<close>

text \<open>
  The whole server as one function of a request: which properties of the tables each handler keeps,
  what a request must carry to change a table at all, and what it takes to be given the cookie of a
  signed-in session.
\<close>


subsection \<open>Calls that only read\<close>

text \<open>A call that only reads keeps every property of the tables.\<close>

lemma read_GetZone: "db_preserves I (GetZone name)"
  by (auto simp: GetZone_def intro!: keep_rules split: option.split)

lemma read_ZoneExists: "db_preserves I (ZoneExists name)"
  by (simp add: ZoneExists_def keep_rules)

lemma read_ListZones: "db_preserves I ListZones"
  by (simp add: ListZones_def keep_rules)

lemma read_RecordsOf: "db_preserves I (RecordsOf name)"
  by (simp add: RecordsOf_def keep_rules)

lemma read_LastSnapshot: "db_preserves I (LastSnapshot name)"
  by (simp add: LastSnapshot_def keep_rules)

lemma read_ListSnapshots: "db_preserves I (ListSnapshots name)"
  by (simp add: ListSnapshots_def keep_rules)

lemma read_BuildZone: "db_preserves I (BuildZone L name)"
  unfolding BuildZone_def
  by (intro preserves_bindE read_GetZone read_RecordsOf) (auto simp: keep_rules split: sum.split)

lemma read_Dirty: "db_preserves I (Dirty L name)"
  unfolding Dirty_def
  by (intro preserves_bindE read_LastSnapshot)
    (auto intro!: preserves_bindE preserves_tryE read_BuildZone simp: keep_rules split: option.split sum.split)

lemmas read_ops =
  read_GetZone read_ZoneExists read_ListZones read_RecordsOf read_LastSnapshot read_ListSnapshots
  read_BuildZone read_Dirty

lemma on_store_keeps:
  assumes "on_store m st = (x, st')" and "db_preserves I m" and "I (ss_db st)"
  shows "I (ss_db st')"
proof -
  from assms(1) have "ss_db st' = st_db (snd (m (ss_store st)))"
    by (auto simp: on_store_def ss_db_def split: prod.splits)
  with preservesD [OF assms(2)] assms(3) show ?thesis by (simp add: ss_db_def)
qed

lemma on_store_reads:
  assumes "on_store m st = (x, st')" and "\<And>I. db_preserves I m"
  shows "ss_db st' = ss_db st"
  using on_store_keeps [OF assms, of "\<lambda>d. d = ss_db st"] by simp

lemmas on_read = read_ops [THEN on_store_reads [rotated]]

lemma on_store_frame:
  "on_store m st = (x, st') \<Longrightarrow> ss_limiter st' = ss_limiter st \<and> ss_metrics st' = ss_metrics st \<and> ss_audit st' = ss_audit st"
  by (auto simp: on_store_def split: prod.splits)


subsection \<open>The handlers that only read\<close>

lemma read_show_records: "show_records w e f err r st = (resp, st') \<Longrightarrow> ss_db st' = ss_db st"
  by (auto simp: show_records_def dest: on_read split: prod.splits)

lemma read_zone_cards: "zone_cards L zs st = (cards, st') \<Longrightarrow> ss_db st' = ss_db st"
proof (induction zs arbitrary: st cards)
  case Nil
  then show ?case by simp
next
  case (Cons z zs)
  then show ?case by (auto simp: Let_def dest!: on_read split: prod.splits)
qed

lemma read_login: "handleLogin w e r st = (resp, st') \<Longrightarrow> ss_db st' = ss_db st"
  by (auto simp: handleLogin_def Let_def split: prod.splits option.splits if_splits)

lemma read_login_form: "handleLoginForm w e r st = (resp, st') \<Longrightarrow> ss_db st' = ss_db st"
  by (auto simp: handleLoginForm_def Let_def split: option.splits if_splits)

lemma read_dashboard: "handleDashboard w e r st = (resp, st') \<Longrightarrow> ss_db st' = ss_db st"
  by (auto simp: handleDashboard_def Let_def dest!: on_read read_zone_cards split: prod.splits sum.splits)

lemma read_servers: "handleServers w e r st = (resp, st') \<Longrightarrow> ss_db st' = ss_db st"
  by (auto simp: handleServers_def dest!: on_read split: prod.splits)

lemma read_settings_form: "handleSettingsForm w e r st = (resp, st') \<Longrightarrow> ss_db st' = ss_db st"
  by (auto simp: handleSettingsForm_def Let_def dest!: on_read split: prod.splits sum.splits)

lemma read_editor: "handleEditor w e r st = (resp, st') \<Longrightarrow> ss_db st' = ss_db st"
  by (auto simp: handleEditor_def Let_def dest!: on_read split: prod.splits sum.splits)

lemma read_records_fragment: "handleRecordsFragment w e r st = (resp, st') \<Longrightarrow> ss_db st' = ss_db st"
  by (auto simp: handleRecordsFragment_def dest!: on_read read_show_records split: prod.splits if_splits)

lemma read_edit_form: "handleEditRecordForm w e r st = (resp, st') \<Longrightarrow> ss_db st' = ss_db st"
  by (auto simp: handleEditRecordForm_def dest!: read_show_records)

lemma read_preview: "handlePreview w e r st = (resp, st') \<Longrightarrow> ss_db st' = ss_db st"
  by (auto simp: handlePreview_def Let_def dest!: on_read split: prod.splits sum.splits)

lemma read_diff: "handleDiff w e r st = (resp, st') \<Longrightarrow> ss_db st' = ss_db st"
  by (auto simp: handleDiff_def Let_def dest!: on_read split: prod.splits sum.splits)

lemma read_validate: "handleValidate w e r st = (resp, st') \<Longrightarrow> ss_db st' = ss_db st"
  by (auto simp: handleValidate_def Let_def dest!: on_read
      split: prod.splits sum.splits option.splits check_error.splits)

lemma read_history: "handleHistory w e r st = (resp, st') \<Longrightarrow> ss_db st' = ss_db st"
  by (auto simp: handleHistory_def Let_def dest!: on_read split: prod.splits if_splits)

lemmas read_handlers =
  read_login read_login_form read_dashboard read_servers read_settings_form read_editor
  read_records_fragment read_edit_form read_preview read_diff read_validate read_history


subsection \<open>The handlers that write\<close>

text \<open>The zone a request is about: named by the form for the routes that create one, by the path for the
  others.\<close>

definition target_zone :: "route \<Rightarrow> http_request \<Rightarrow> string" where
  "target_zone rt r =
     (if rt = R_create_zone \<or> rt = R_import then trim_space (post_value r ''name'') else hr_zone r)"

text \<open>Each of them executes statements on that zone only; the records it writes come from the parser.\<close>

lemma sz_name_zoneFromForm [simp]: "sz_name (zoneFromForm cfg r) = trim_space (post_value r ''name'')"
  by (simp add: zoneFromForm_def)

lemma form_record_ok: "form_record w r = Inr rec \<Longrightarrow> parses_to (ws_lib w) (hr_zone r) okR \<Longrightarrow> okR rec"
  by (auto simp: form_record_def parses_to_def)

lemma write_create:
  assumes "handleCreateZone w e r st = (resp, st')" and "stmts_keep okR okS (trim_space (post_value r ''name'')) I"
    and "I (ss_db st)"
  shows "I (ss_db st')"
proof -
  let ?z = "zoneFromForm (ws_cfg w) r"
  have "db_preserves I (CreateZone ?z t)" for t
    using keep_CreateZone [of okR okS ?z I t] assms(2) by simp
  note keep = on_store_keeps [OF _ this]
  from assms(1,3) show ?thesis
    by (auto simp: handleCreateZone_def Let_def dest!: on_read dest: keep split: prod.splits sum.splits if_splits)
qed

lemma write_import:
  assumes "handleImport w e r st = (resp, st')" and "stmts_keep okR okS (trim_space (post_value r ''name'')) I"
    and "parses_to (ws_lib w) (trim_space (post_value r ''name'')) okR" and "I (ss_db st)"
  shows "I (ss_db st')"
  using assms(1,4) on_store_keeps [OF _ keep_ImportZone [OF assms(2,3)]]
  by (auto simp: handleImport_def Let_def split: prod.splits sum.splits if_splits)

lemma write_settings:
  assumes "handleUpdateSettings w e r st = (resp, st')" and "stmts_keep okR okS (hr_zone r) I" and "I (ss_db st)"
  shows "I (ss_db st')"
proof -
  let ?z = "(zoneFromForm (ws_cfg w) r)\<lparr>sz_name := hr_zone r\<rparr>"
  have "db_preserves I (UpdateZoneSettings ?z)"
    using keep_UpdateZoneSettings [of okR okS ?z I] assms(2) by simp
  from on_store_keeps [OF _ this] assms(1,3) show ?thesis
    by (auto simp: handleUpdateSettings_def Let_def split: prod.splits sum.splits if_splits)
qed

lemma write_delete_zone:
  assumes "handleDeleteZone w e r st = (resp, st')" and "stmts_keep okR okS (hr_zone r) I" and "I (ss_db st)"
  shows "I (ss_db st')"
  using assms(1,3) on_store_keeps [OF _ keep_DeleteZone [OF assms(2)]]
  by (auto simp: handleDeleteZone_def Let_def split: prod.splits sum.splits if_splits)

lemma write_add_record:
  assumes "handleAddRecord w e r st = (resp, st')" and "stmts_keep okR okS (hr_zone r) I"
    and "parses_to (ws_lib w) (hr_zone r) okR" and "I (ss_db st)"
  shows "I (ss_db st')"
  using assms(1,4) on_store_keeps [OF _ keep_AddRecord [OF assms(2)]] form_record_ok [OF _ assms(3)]
  by (auto simp: handleAddRecord_def Let_def dest!: read_show_records split: prod.splits sum.splits)

lemma write_update_record:
  assumes "handleUpdateRecord w e r st = (resp, st')" and "stmts_keep okR okS (hr_zone r) I"
    and "parses_to (ws_lib w) (hr_zone r) okR" and "I (ss_db st)"
  shows "I (ss_db st')"
  using assms(1,4) on_store_keeps [OF _ keep_UpdateRecord [OF assms(2)]] form_record_ok [OF _ assms(3)]
  by (auto simp: handleUpdateRecord_def Let_def dest!: read_show_records split: prod.splits sum.splits)

lemma write_delete_record:
  assumes "handleDeleteRecord w e r st = (resp, st')" and "stmts_keep okR okS (hr_zone r) I" and "I (ss_db st)"
  shows "I (ss_db st')"
  using assms(1,3) on_store_keeps [OF _ keep_DeleteRecord [OF assms(2)]]
  by (auto simp: handleDeleteRecord_def Let_def dest!: read_show_records split: prod.splits sum.splits if_splits)

lemma write_rollback:
  assumes "handleRollback w e r st = (resp, st')" and "stmts_keep okR okS (hr_zone r) I"
    and "parses_to (ws_lib w) (hr_zone r) okR" and "I (ss_db st)"
  shows "I (ss_db st')"
  using assms(1,4) on_store_keeps [OF _ keep_RestoreSnapshot [OF assms(2,3)]]
  by (auto simp: handleRollback_def Let_def split: prod.splits sum.splits)

lemma write_deploy:
  assumes "handleDeploy w e r st = (resp, st')" and "stmts_keep okR okS (hr_zone r) I"
    and "\<And>n c. okS n c" and "I (ss_db st)"
  shows "I (ss_db st')"
  using assms(1,4) on_store_keeps [OF _ keep_Publish [OF assms(2,3)]]
  by (auto simp: handleDeploy_def Let_def dest!: on_read split: prod.splits sum.splits option.splits if_splits)

lemmas write_handlers =
  write_create write_import write_settings write_delete_zone write_add_record write_update_record
  write_delete_record write_rollback write_deploy


subsection \<open>What a request can change\<close>

lemma requireAuth_cases:
  assumes "requireAuth w e next r st = (resp, st')"
  obtains (refused) "st' = st" and "rs_cookies resp = []"
  | (passed) s where "currentSession w e r = Some s" and "se_authed s"
      and "isMutating (hr_method r) \<Longrightarrow> csrf_token r = se_csrf s" and "next r st = (resp, st')"
  using assms by (auto simp: requireAuth_def respond_def split: option.splits if_splits)

lemma read_new_zone_form: "handleNewZoneForm w e r st = (resp, st') \<Longrightarrow> ss_db st' = ss_db st"
  by (simp add: handleNewZoneForm_def)

lemma read_import_form: "handleImportForm w e r st = (resp, st') \<Longrightarrow> ss_db st' = ss_db st"
  by (simp add: handleImportForm_def)

lemma read_public:
  "handleHealthz r st = (resp, st') \<Longrightarrow> ss_db st' = ss_db st"
  "handleMetrics r st = (resp, st') \<Longrightarrow> ss_db st' = ss_db st"
  "handleLogout w r st = (resp, st') \<Longrightarrow> ss_db st' = ss_db st"
  by (simp_all add: handleHealthz_def handleMetrics_def handleLogout_def)

lemmas all_read_handlers = read_handlers read_new_zone_form read_import_form read_public

lemma route_reads:
  "route_handler w e rt r st = (resp, st') \<Longrightarrow> \<not> writing_route rt \<Longrightarrow> ss_db st' = ss_db st"
  by (cases rt)
    (auto simp: route_handler_def writing_route_def Let_def
      elim!: requireAuth_cases dest: all_read_handlers)

text \<open>A deploy also adds to the history: it keeps \<open>I\<close> when nothing restricts the snapshots.\<close>

lemma route_writes_with:
  assumes "route_handler w e rt r st = (resp, st')" and "writing_route rt"
  obtains (refused) "st' = st"
  | (passed) s where "currentSession w e r = Some s" and "se_authed s"
      and "isMutating (hr_method r) \<Longrightarrow> csrf_token r = se_csrf s"
      and "\<And>okR okS I. stmts_keep okR okS (target_zone rt r) I \<Longrightarrow> parses_to (ws_lib w) (target_zone rt r) okR \<Longrightarrow>
             (\<And>n c. rt = R_deploy \<Longrightarrow> okS n c) \<Longrightarrow> I (ss_db st) \<Longrightarrow> I (ss_db st')"
proof -
  obtain h where h: "route_handler w e rt = requireAuth w e h"
    and keep: "\<And>okR okS I r st resp st'. h r st = (resp, st') \<Longrightarrow> stmts_keep okR okS (target_zone rt r) I
      \<Longrightarrow> parses_to (ws_lib w) (target_zone rt r) okR \<Longrightarrow> (\<And>n c. rt = R_deploy \<Longrightarrow> okS n c) \<Longrightarrow> I (ss_db st) \<Longrightarrow> I (ss_db st')"
    using assms(2) unfolding writing_route_def insert_iff
    apply (elim disjE emptyE)
    apply (simp_all add: route_handler_def Let_def target_zone_def)
    apply (blast intro: write_create)
    apply (blast intro: write_import)
    apply (blast intro: write_settings)
    apply (blast intro: write_delete_zone)
    apply (blast intro: write_add_record)
    apply (blast intro: write_update_record)
    apply (blast intro: write_delete_record)
    apply (blast intro: write_deploy)
    apply (blast intro: write_rollback)
    done
  from assms(1) [unfolded h] show thesis
  proof (cases rule: requireAuth_cases)
    case refused
    with that(1) show thesis by blast
  next
    case (passed s)
    show thesis
      by (rule that(2) [OF passed(1-3)]) (use keep [OF passed(4)] in blast)+
  qed
qed

lemma route_writes:
  assumes "route_handler w e rt r st = (resp, st')" and "writing_route rt"
  obtains (refused) "st' = st"
  | (passed) s where "currentSession w e r = Some s" and "se_authed s"
      and "isMutating (hr_method r) \<Longrightarrow> csrf_token r = se_csrf s"
      and "\<And>I. zone_stmts_keep (target_zone rt r) I \<Longrightarrow> I (ss_db st) \<Longrightarrow> I (ss_db st')"
  using assms
proof (cases rule: route_writes_with)
  case refused
  with that(1) show thesis by blast
next
  case (passed s)
  show thesis
    by (rule that(2) [OF passed(1-3)]) (use passed(4) [of "\<lambda>_. True" "\<lambda>_ _. True"] in simp_all)
qed

lemma serve_cases:
  assumes "serve w e path r st = (resp, st')"
  obtains (unrouted) "mux (hr_method r) path = None" and "resp = respond Mux_not_found"
      and "ss_db st' = ss_db st" and "ss_limiter st' = ss_limiter st"
  | (routed) rt zone st1 where "mux (hr_method r) path = Some (rt, zone)"
      and "route_handler w e rt (r\<lparr>hr_zone := zone\<rparr>) st1 = (resp, st')"
      and "ss_db st1 = ss_db st" and "ss_limiter st1 = ss_limiter st"
proof (cases "mux (hr_method r) path")
  case None
  with assms unrouted show thesis by (auto simp: serve_def logRequests_def serve_mux_def)
next
  case (Some p)
  with assms routed show thesis by (cases p) (auto simp: serve_def logRequests_def serve_mux_def)
qed

lemma request_zone_simps [simp]:
  "currentSession w e (r\<lparr>hr_zone := z\<rparr>) = currentSession w e r"
  "csrf_token (r\<lparr>hr_zone := z\<rparr>) = csrf_token r"
  "clientIP (r\<lparr>hr_zone := z\<rparr>) = clientIP r"
  "post_value (r\<lparr>hr_zone := z\<rparr>) k = post_value r k"
  by (simp_all add: currentSession_def csrf_token_def clientIP_def post_value_def cong: option.case_cong)

lemma currentSession_signed:
  assumes "currentSession w e r = Some s"
  shows "\<exists>enc. hr_cookie r = Some (enc @ ''.'' @ mac (ws_hmac w) enc)" and "unix_sec (he_now e) < se_expiry s"
  using assms by (auto simp: currentSession_def dest!: session_needs_signature split: option.splits)

text \<open>
  C5: A request changes a table only if it is a POST to one of nine routes, with a cookie signed
  by the server for a signed-in session that has not expired and the CSRF token of that session;
  and then only the rows of the one zone it names.
\<close>
theorem store_changes_are_authorized:
  assumes "serve w e path r st = (resp, st')" and "ss_db st' \<noteq> ss_db st"
  shows "\<exists>rt zone s enc. mux (hr_method r) path = Some (rt, zone) \<and> writing_route rt \<and> hr_method r = ''POST''
    \<and> currentSession w e r = Some s \<and> se_authed s \<and> unix_sec (he_now e) < se_expiry s
    \<and> hr_cookie r = Some (enc @ ''.'' @ mac (ws_hmac w) enc) \<and> csrf_token r = se_csrf s
    \<and> (let name = target_zone rt (r\<lparr>hr_zone := zone\<rparr>)
       in other_rows name (ss_db st') = other_rows name (ss_db st))"
  using assms(1)
proof (cases rule: serve_cases)
  case unrouted
  with assms(2) show ?thesis by simp
next
  case (routed rt zone st1)
  have wr: "writing_route rt"
    using route_reads [OF routed(2)] routed(3) assms(2) by metis
  have post: "hr_method r = ''POST''" by (rule post_routes_method [OF routed(1) wr])
  from routed(2) wr show ?thesis
  proof (cases rule: route_writes)
    case refused
    with routed(3) assms(2) show ?thesis by simp
  next
    case (passed s)
    let ?name = "target_zone rt (r\<lparr>hr_zone := zone\<rparr>)"
    have "other_rows ?name (ss_db st') = other_rows ?name (ss_db st)"
      by (rule passed(4)) (simp_all add: zone_stmts_keep_others routed(3))
    moreover from passed(1) obtain enc where "hr_cookie r = Some (enc @ ''.'' @ mac (ws_hmac w) enc)"
      using currentSession_signed(1) by fastforce
    moreover from passed(1) have "unix_sec (he_now e) < se_expiry s"
      using currentSession_signed(2) by fastforce
    ultimately show ?thesis
      using routed(1) wr post passed(1-3) by (auto simp: Let_def isMutating_def)
  qed
qed


subsection \<open>Every sequence of requests\<close>

text \<open>A request with the circumstances it is served in: the server (its deployer may answer differently each
  time), the clock and the random source, the path.\<close>

type_synonym 'r served = "'r web_server \<times> http_env \<times> string list \<times> http_request"

definition serve_step :: "'r served \<Rightarrow> server_state \<Rightarrow> server_state" where
  "serve_step q st = (case q of (w, e, path, r) \<Rightarrow> snd (serve w e path r st))"

definition server_inv :: "server_state \<Rightarrow> bool" where
  "server_inv st \<longleftrightarrow> db_inv (ss_db st) \<and> hits_bounded (ss_limiter st)
     \<and> rl_max (ss_limiter st) = 5 \<and> rl_window (ss_limiter st) = 60 * 1000000000"

lemma on_store_limiter: "on_store m st = (x, st') \<Longrightarrow> ss_limiter st' = ss_limiter st"
  by (auto simp: on_store_def split: prod.splits)

lemma audit_limiter [simp]: "ss_limiter (audit w e ev st) = ss_limiter st"
  by (simp add: audit_def)

lemma observe_limiter [simp]: "ss_limiter (observe res st) = ss_limiter st"
  by (simp add: observe_def)

lemma show_records_limiter: "show_records w e f err r st = (resp, st') \<Longrightarrow> ss_limiter st' = ss_limiter st"
  by (auto simp: show_records_def dest: on_store_limiter split: prod.splits)

lemma zone_cards_limiter: "zone_cards L zs st = (cards, st') \<Longrightarrow> ss_limiter st' = ss_limiter st"
proof (induction zs arbitrary: st cards)
  case (Cons z zs)
  then show ?case by (auto simp: Let_def dest!: on_store_limiter split: prod.splits)
qed simp

lemma login_limiter:
  "handleLogin w e r st = (resp, st') \<Longrightarrow>
     ss_limiter st' = snd (allow (clientIP r) (he_clock e) (ss_limiter st))"
  by (auto simp: handleLogin_def Let_def split: prod.splits option.splits if_splits)

lemma handler_limiter:
  "handleLoginForm w e r st = (resp, st') \<Longrightarrow> ss_limiter st' = ss_limiter st"
  "handleHealthz r st = (resp, st') \<Longrightarrow> ss_limiter st' = ss_limiter st"
  "handleMetrics r st = (resp, st') \<Longrightarrow> ss_limiter st' = ss_limiter st"
  "handleLogout w r st = (resp, st') \<Longrightarrow> ss_limiter st' = ss_limiter st"
  "handleDashboard w e r st = (resp, st') \<Longrightarrow> ss_limiter st' = ss_limiter st"
  "handleServers w e r st = (resp, st') \<Longrightarrow> ss_limiter st' = ss_limiter st"
  "handleNewZoneForm w e r st = (resp, st') \<Longrightarrow> ss_limiter st' = ss_limiter st"
  "handleCreateZone w e r st = (resp, st') \<Longrightarrow> ss_limiter st' = ss_limiter st"
  "handleImportForm w e r st = (resp, st') \<Longrightarrow> ss_limiter st' = ss_limiter st"
  "handleImport w e r st = (resp, st') \<Longrightarrow> ss_limiter st' = ss_limiter st"
  "handleEditor w e r st = (resp, st') \<Longrightarrow> ss_limiter st' = ss_limiter st"
  "handleSettingsForm w e r st = (resp, st') \<Longrightarrow> ss_limiter st' = ss_limiter st"
  "handleUpdateSettings w e r st = (resp, st') \<Longrightarrow> ss_limiter st' = ss_limiter st"
  "handleDeleteZone w e r st = (resp, st') \<Longrightarrow> ss_limiter st' = ss_limiter st"
  "handleRecordsFragment w e r st = (resp, st') \<Longrightarrow> ss_limiter st' = ss_limiter st"
  "handleEditRecordForm w e r st = (resp, st') \<Longrightarrow> ss_limiter st' = ss_limiter st"
  "handleAddRecord w e r st = (resp, st') \<Longrightarrow> ss_limiter st' = ss_limiter st"
  "handleUpdateRecord w e r st = (resp, st') \<Longrightarrow> ss_limiter st' = ss_limiter st"
  "handleDeleteRecord w e r st = (resp, st') \<Longrightarrow> ss_limiter st' = ss_limiter st"
  "handlePreview w e r st = (resp, st') \<Longrightarrow> ss_limiter st' = ss_limiter st"
  "handleDiff w e r st = (resp, st') \<Longrightarrow> ss_limiter st' = ss_limiter st"
  "handleValidate w e r st = (resp, st') \<Longrightarrow> ss_limiter st' = ss_limiter st"
  "handleHistory w e r st = (resp, st') \<Longrightarrow> ss_limiter st' = ss_limiter st"
  "handleRollback w e r st = (resp, st') \<Longrightarrow> ss_limiter st' = ss_limiter st"
  by (auto simp: handleLoginForm_def handleHealthz_def handleMetrics_def handleLogout_def handleDashboard_def
      handleServers_def handleNewZoneForm_def handleCreateZone_def handleImportForm_def handleImport_def
      handleEditor_def handleSettingsForm_def handleUpdateSettings_def handleDeleteZone_def
      handleRecordsFragment_def handleEditRecordForm_def handleAddRecord_def handleUpdateRecord_def
      handleDeleteRecord_def handlePreview_def handleDiff_def handleValidate_def handleHistory_def
      handleRollback_def Let_def
      dest!: on_store_limiter zone_cards_limiter show_records_limiter
      split: prod.splits sum.splits option.splits check_error.splits if_splits)

lemma deploy_limiter: "handleDeploy w e r st = (resp, st') \<Longrightarrow> ss_limiter st' = ss_limiter st"
  by (auto simp: handleDeploy_def Let_def dest!: on_store_limiter
      split: prod.splits sum.splits option.splits if_splits)

lemma route_limiter:
  "route_handler w e rt r st = (resp, st') \<Longrightarrow> ss_limiter st' =
     (if rt = R_login then snd (allow (clientIP r) (he_clock e) (ss_limiter st)) else ss_limiter st)"
  by (cases rt)
    (auto simp: route_handler_def Let_def elim!: requireAuth_cases
      dest: handler_limiter deploy_limiter login_limiter)

lemma serve_inv:
  assumes "server_inv st"
  shows "server_inv (serve_step q st)"
proof -
  obtain w e path r where q: "q = (w, e, path, r)" by (cases q)
  obtain resp st' where s: "serve w e path r st = (resp, st')" by fastforce
  have "server_inv st'"
    using s
  proof (cases rule: serve_cases)
    case unrouted
    with assms show ?thesis by (simp add: server_inv_def)
  next
    case (routed rt zone st1)
    have "db_inv (ss_db st')"
    proof (cases "writing_route rt")
      case True
      with routed(2) show ?thesis
        by (cases rule: route_writes)
          (use assms routed(3) zone_stmts_keep_inv in \<open>auto simp: server_inv_def\<close>)
    next
      case False
      with route_reads [OF routed(2)] routed(3) assms show ?thesis by (simp add: server_inv_def)
    qed
    with assms route_limiter [OF routed(2)] routed(4) show ?thesis
      by (auto simp: server_inv_def intro: allow_bounded)
  qed
  with q s show ?thesis by (simp add: serve_step_def)
qed

interpretation server: inv_machine serve_step server_inv
  by unfold_locales (rule serve_inv)

lemma server_inv_new: "db_inv (st_db s) \<Longrightarrow> server_inv (new_server_state s)"
  by (simp add: server_inv_def new_server_state_def ss_db_def newRateLimiter_def hits_bounded_def hits_of_def)

text \<open>
  Every sequence of HTTP requests, whatever they carry, keeps the integrity of the tables and
  the bounds of the limiter.
\<close>
theorem requests_keep_integrity:
  assumes "db_inv (st_db s)"
  shows "server_inv (fold serve_step reqs (new_server_state s))"
  using server_inv_new [OF assms] by (rule server.inv_run)

end
