(* ===== verification/Web_Login.thy ===== *)
theory Web_Login
  imports Web_Safety
begin

section \<open>Signing in to the web server\<close>

text \<open>
  What it takes to be given the cookie of a signed-in session, and how often the token can be guessed: the
  cookies of all handlers, and the rate limiter inside a sequence of requests.
\<close>

subsection \<open>Signing in\<close>

lemma respond_cookies [simp]: "rs_cookies (respond b) = []"
  by (simp add: respond_def)

lemma view_cookies [simp]:
  "rs_cookies (page w e r t c) = []" "rs_cookies (zone_failure err) = []"
  "rs_cookies (renderRecords w e r n rows err2) = []" "rs_cookies (validate_result ok err3) = []"
  by (simp_all add: page_def zone_failure_def renderRecords_def validate_result_def)

lemma show_records_cookies: "show_records w e f err r st = (resp, st') \<Longrightarrow> rs_cookies resp = []"
  by (auto simp: show_records_def split: prod.splits)

lemma handler_cookies:
  "handleHealthz r st = (resp, st') \<Longrightarrow> rs_cookies resp = []"
  "handleMetrics r st = (resp, st') \<Longrightarrow> rs_cookies resp = []"
  "handleDashboard w e r st = (resp, st') \<Longrightarrow> rs_cookies resp = []"
  "handleServers w e r st = (resp, st') \<Longrightarrow> rs_cookies resp = []"
  "handleNewZoneForm w e r st = (resp, st') \<Longrightarrow> rs_cookies resp = []"
  "handleCreateZone w e r st = (resp, st') \<Longrightarrow> rs_cookies resp = []"
  "handleImportForm w e r st = (resp, st') \<Longrightarrow> rs_cookies resp = []"
  "handleImport w e r st = (resp, st') \<Longrightarrow> rs_cookies resp = []"
  "handleEditor w e r st = (resp, st') \<Longrightarrow> rs_cookies resp = []"
  "handleSettingsForm w e r st = (resp, st') \<Longrightarrow> rs_cookies resp = []"
  "handleUpdateSettings w e r st = (resp, st') \<Longrightarrow> rs_cookies resp = []"
  "handleDeleteZone w e r st = (resp, st') \<Longrightarrow> rs_cookies resp = []"
  "handleRecordsFragment w e r st = (resp, st') \<Longrightarrow> rs_cookies resp = []"
  "handleEditRecordForm w e r st = (resp, st') \<Longrightarrow> rs_cookies resp = []"
  "handleAddRecord w e r st = (resp, st') \<Longrightarrow> rs_cookies resp = []"
  "handleUpdateRecord w e r st = (resp, st') \<Longrightarrow> rs_cookies resp = []"
  "handleDeleteRecord w e r st = (resp, st') \<Longrightarrow> rs_cookies resp = []"
  "handlePreview w e r st = (resp, st') \<Longrightarrow> rs_cookies resp = []"
  "handleDiff w e r st = (resp, st') \<Longrightarrow> rs_cookies resp = []"
  "handleValidate w e r st = (resp, st') \<Longrightarrow> rs_cookies resp = []"
  "handleHistory w e r st = (resp, st') \<Longrightarrow> rs_cookies resp = []"
  "handleRollback w e r st = (resp, st') \<Longrightarrow> rs_cookies resp = []"
  by (auto simp: handleHealthz_def handleMetrics_def handleDashboard_def
      handleServers_def handleNewZoneForm_def handleCreateZone_def handleImportForm_def handleImport_def
      handleEditor_def handleSettingsForm_def handleUpdateSettings_def handleDeleteZone_def
      handleRecordsFragment_def handleEditRecordForm_def handleAddRecord_def handleUpdateRecord_def
      handleDeleteRecord_def handlePreview_def handleDiff_def handleValidate_def handleHistory_def
      handleRollback_def Let_def
      dest!: show_records_cookies
      split: prod.splits sum.splits option.splits check_error.splits if_splits)

lemma deploy_cookies: "handleDeploy w e r st = (resp, st') \<Longrightarrow> rs_cookies resp = []"
  by (auto simp: handleDeploy_def Let_def split: prod.splits sum.splits option.splits if_splits)

lemma route_cookies:
  "route_handler w e rt r st = (resp, st') \<Longrightarrow> rs_cookies resp \<noteq> [] \<Longrightarrow> rt \<in> {R_login_form, R_login, R_logout}"
  by (cases rt)
    (auto simp: route_handler_def Let_def elim!: requireAuth_cases dest: handler_cookies deploy_cookies)

lemma newSession_payload:
  assumes "0 \<le> unix_sec now" and "unix_sec now < 2 ^ 62"
  shows "unmarshal_session (marshal_session (newSession authed now random)) = Some (newSession authed now random)"
  using assms by (intro unmarshal_marshal)
    (auto simp: newSession_def newCSRF_def sessionTTL_def dest: b64_json_plain)

lemma parse_set_cookie:
  assumes "unmarshal_session (marshal_session s0) = Some s0"
    and "parseSession (ws_hmac w) now (ck_value (set_cookie w s0)) = Some s"
  shows "s = s0"
  using assms parse_sign [OF assms(1), of "ws_hmac w" now]
  by (auto simp: set_cookie_def setSession_def split: if_splits)

lemma newSession_authed [simp]: "se_authed (newSession a now random) = a"
  by (simp add: newSession_def)

lemma get_routes_login: "get_routes path \<noteq> Some (R_login, z)"
  unfolding get_routes_def by (simp split: list.split)

lemma login_path: "mux m path = Some (R_login, z) \<Longrightarrow> m = ''POST'' \<and> path = [''login''] \<and> z = []"
  unfolding mux_def post_routes_def using get_routes_login by (simp split: list.splits if_split_asm)

text \<open>
  C6: A response sets the cookie of a signed-in session only when it answers a POST to /login that
  the rate limiter admitted and whose form carries the access token and the CSRF token of the
  session the request came with; the new session has a fresh CSRF token.
\<close>
theorem signed_in_only_by_token:
  assumes "serve w e path r st = (resp, st')"
    and "c \<in> set (rs_cookies resp)" and "parseSession (ws_hmac w) later (ck_value c) = Some s" and "se_authed s"
    and "0 \<le> unix_sec (he_now e)" and "unix_sec (he_now e) < 2 ^ 62"
  shows "hr_method r = ''POST'' \<and> path = [''login''] \<and> \<not> hr_form_error r
    \<and> post_value r ''token'' = c_auth_token (ws_cfg w)
    \<and> (\<exists>s0. currentSession w e r = Some s0 \<and> post_value r ''csrf_token'' = se_csrf s0)
    \<and> fst (allow (clientIP r) (he_clock e) (ss_limiter st))
    \<and> s = newSession True (he_now e) (he_random e)"
  using assms(1)
proof (cases rule: serve_cases)
  case unrouted
  with assms(2) show ?thesis by simp
next
  case (routed rt zone st1)
  note payload = newSession_payload [OF assms(5,6)]
  have "rs_cookies resp \<noteq> []" using assms(2) by auto
  then have "rt \<in> {R_login_form, R_login, R_logout}" by (rule route_cookies [OF routed(2)])
  moreover have "rt \<noteq> R_logout"
    using routed(2) assms(2,3)
    by (auto simp: route_handler_def handleLogout_def clearSession_def parseSession_def str_cut_def)
  moreover have "rt \<noteq> R_login_form"
    using routed(2) assms(2-4)
    by (auto simp: route_handler_def handleLoginForm_def Let_def split: option.splits if_splits
        dest!: parse_set_cookie [OF payload [of False]])
  ultimately have rt: "rt = R_login" by auto
  then have "hr_method r = ''POST'' \<and> path = [''login'']"
    using routed(1) login_path by blast
  moreover have "\<not> hr_form_error r \<and> post_value r ''token'' = c_auth_token (ws_cfg w)
    \<and> (\<exists>s0. currentSession w e r = Some s0 \<and> post_value r ''csrf_token'' = se_csrf s0)
    \<and> fst (allow (clientIP r) (he_clock e) (ss_limiter st))
    \<and> s = newSession True (he_now e) (he_random e)"
    using routed(2,4) assms(2,3) unfolding rt
    by (auto simp: route_handler_def handleLogin_def Let_def split: option.splits if_splits prod.splits
        dest!: parse_set_cookie [OF payload [of True]])
  ultimately show ?thesis by blast
qed


subsection \<open>Guessing the token\<close>

fun serve_all :: "'r served list \<Rightarrow> server_state \<Rightarrow> response list \<times> server_state" where
  "serve_all [] st = ([], st)"
| "serve_all ((w, e, path, r) # qs) st =
     (let (resp, st1) = serve w e path r st; (resps, st2) = serve_all qs st1 in (resp # resps, st2))"

definition login_attempt :: "'r served \<Rightarrow> (string \<times> int) list" where
  "login_attempt q = (case q of (w, e, path, r) \<Rightarrow>
     if mux (hr_method r) path = Some (R_login, []) then [(clientIP r, he_clock e)] else [])"

definition served_at :: "'r served \<Rightarrow> int" where
  "served_at q = (case q of (w, e, path, r) \<Rightarrow> he_clock e)"

definition refused_attempt :: "response \<Rightarrow> bool" where
  "refused_attempt resp \<longleftrightarrow> rs_body resp = Http_error 429 (E_text ''too many attempts; try again later'')"

text \<open>The times of the login requests from \<open>ip\<close> that were not turned away, with the replies they got.\<close>

definition admitted_logins :: "string \<Rightarrow> 'r served list \<Rightarrow> response list \<Rightarrow> int list" where
  "admitted_logins ip qs resps =
     concat (map (\<lambda>(q, resp). if refused_attempt resp then []
       else map snd (filter (\<lambda>a. fst a = ip) (login_attempt q))) (zip qs resps))"

lemma login_reply:
  assumes "handleLogin w e r st = (resp, st')"
  shows "refused_attempt resp \<longleftrightarrow> \<not> fst (allow (clientIP r) (he_clock e) (ss_limiter st))"
  using assms
  by (auto simp: handleLogin_def refused_attempt_def respond_def Let_def
      split: prod.splits option.splits if_splits)

lemma serve_attempt:
  assumes "serve w e path r st = (resp, st')"
  shows "login_attempt (w, e, path, r) = [] \<and> ss_limiter st' = ss_limiter st
    \<or> login_attempt (w, e, path, r) = [(clientIP r, he_clock e)]
      \<and> ss_limiter st' = snd (allow (clientIP r) (he_clock e) (ss_limiter st))
      \<and> (refused_attempt resp \<longleftrightarrow> \<not> fst (allow (clientIP r) (he_clock e) (ss_limiter st)))"
  using assms
proof (cases rule: serve_cases)
  case unrouted
  then show ?thesis by (simp add: login_attempt_def)
next
  case (routed rt zone st1)
  show ?thesis
  proof (cases "rt = R_login")
    case True
    with routed(2) have "handleLogin w e (r\<lparr>hr_zone := zone\<rparr>) st1 = (resp, st')"
      by (simp add: route_handler_def)
    from login_reply [OF this] login_limiter [OF this] True routed login_path
    show ?thesis by (auto simp: login_attempt_def)
  next
    case False
    with route_limiter [OF routed(2)] routed show ?thesis by (simp add: login_attempt_def)
  qed
qed

lemma granted_Cons:
  "granted ip (a # as) (ok # oks) = (if fst a = ip \<and> ok then [snd a] else []) @ granted ip as oks"
  by (simp add: granted_def)

lemma admitted_logins_granted:
  "admitted_logins ip qs (fst (serve_all qs st)) =
     granted ip (concat (map login_attempt qs)) (fst (attempts (concat (map login_attempt qs)) (ss_limiter st)))"
proof (induction qs arbitrary: st)
  case Nil
  then show ?case by (simp add: admitted_logins_def granted_def)
next
  case (Cons q qs)
  obtain w e path r where q: "q = (w, e, path, r)" by (cases q)
  obtain resp st1 where s: "serve w e path r st = (resp, st1)" by fastforce
  obtain ok rl where a: "allow (clientIP r) (he_clock e) (ss_limiter st) = (ok, rl)" by fastforce
  from serve_attempt [OF s] show ?case
    using Cons.IH [of st1] a
    by (auto simp: q s admitted_logins_def Let_def granted_Cons split: prod.splits)
qed

lemma login_attempt_time:
  "a \<in> set (login_attempt q) \<Longrightarrow> snd a = served_at q"
  by (auto simp: login_attempt_def served_at_def split: prod.splits if_splits)

lemma attempts_sorted:
  "sorted (map served_at qs) \<Longrightarrow> sorted (map snd (concat (map login_attempt qs)))"
proof (induction qs)
  case (Cons q qs)
  have IH: "sorted (map snd (concat (map login_attempt qs)))" and q: "\<forall>q'\<in>set qs. served_at q \<le> served_at q'"
    using Cons by simp_all
  have "\<forall>a\<in>set (concat (map login_attempt qs)). served_at q \<le> snd a"
  proof
    fix a assume "a \<in> set (concat (map login_attempt qs))"
    then obtain q' where q': "q' \<in> set qs" "a \<in> set (login_attempt q')" by auto
    have "served_at q \<le> served_at q'" using q q'(1) by blast
    with login_attempt_time [OF q'(2)] show "served_at q \<le> snd a" by simp
  qed
  moreover have "login_attempt q = [] \<or> (\<exists>k. login_attempt q = [(k, served_at q)])"
    by (simp add: login_attempt_def served_at_def split: prod.split)
  ultimately show ?case using IH by auto
qed simp

text \<open>
  C15: In any sequence of requests in clock order to a fresh server, at most five login requests
  of one client address within any minute get past the limiter to the comparison of the token.
\<close>
theorem login_guesses_bounded:
  assumes "sorted (map served_at qs)"
  shows "length (filter (\<lambda>t. x - 60 * 1000000000 < t \<and> t \<le> x)
    (admitted_logins ip qs (fst (serve_all qs (new_server_state s))))) \<le> 5"
proof -
  have "int (length (filter (\<lambda>t. x - 60 * 1000000000 < t \<and> t \<le> x)
      (admitted_logins ip qs (fst (serve_all qs (new_server_state s)))))) \<le> 5"
    unfolding admitted_logins_granted
    using admitted_in_window [OF attempts_sorted [OF assms], of "60 * 1000000000" 5 x ip]
    by (simp add: new_server_state_def)
  then show ?thesis by linarith
qed

end
