(* ===== verification/Example_Library.thy ===== *)
theory Example_Library
  imports Zone_File
begin

section \<open>A concrete library for the witnesses\<close>

text \<open>
  The definitions of the development take the DNS library as a parameter. To evaluate them on
  closed inputs, this theory gives one small instance: a parser and printer for one record
  per line, with explicit TTL and class, over a few record types. It is no model of
  \<open>miekg/dns\<close>; no theorem but the witnesses mentions it.
\<close>

definition words_of :: "string \<Rightarrow> string list" where
  "words_of s = filter (\<lambda>w. w \<noteq> []) (split_on (CHR '' '') s)"

definition ex_fqdn :: "string \<Rightarrow> string" where
  "ex_fqdn s = (if s \<noteq> [] \<and> last s = CHR ''.'' then s else s @ ''.'')"

definition ex_owner :: "string \<Rightarrow> string \<Rightarrow> string" where
  "ex_owner origin w =
     (if w = ''@'' then origin
      else if w \<noteq> [] \<and> last w = CHR ''.'' then w else w @ ''.'' @ origin)"

definition ex_types :: "(string \<times> 16 word) list" where
  "ex_types = [(''A'', 1), (''NS'', 2), (''CNAME'', 5), (''SOA'', 6), (''MX'', 15), (''TXT'', 16)]"

definition ex_type_string :: "16 word \<Rightarrow> string" where
  "ex_type_string t =
     (case List.find (\<lambda>(n, c). c = t) ex_types of None \<Rightarrow> [] | Some (n, c) \<Rightarrow> n)"

definition ex_class_string :: "16 word \<Rightarrow> string" where
  "ex_class_string c = (if c = 1 then ''IN'' else [])"

definition ex_num :: "string \<Rightarrow> u32 option" where
  "ex_num s = (case parse_uint (2 ^ 32 - 1) s of Inl _ \<Rightarrow> None | Inr n \<Rightarrow> Some (of_nat n))"

definition ex_nums :: "string list \<Rightarrow> u32 list option" where
  "ex_nums ws =
     (if list_all (\<lambda>w. ex_num w \<noteq> None) ws then Some (map (the \<circ> ex_num) ws) else None)"

definition ex_soa :: "rr_header \<Rightarrow> string list \<Rightarrow> string rr option" where
  "ex_soa h ws =
     (case filter (\<lambda>w. w \<noteq> ''('' \<and> w \<noteq> '')'') ws of
        ns # mbox # nums \<Rightarrow>
          (case ex_nums nums of
             Some [serial, refresh, retry, expire, minttl] \<Rightarrow>
               Some (SOA_rr h \<lparr>soa_ns = ns, soa_mbox = mbox, soa_serial = serial, soa_refresh = refresh,
                 soa_retry = retry, soa_expire = expire, soa_minttl = minttl\<rparr>)
           | _ \<Rightarrow> None)
      | _ \<Rightarrow> None)"

definition ex_record :: "string \<Rightarrow> string list \<Rightarrow> string rr option" where
  "ex_record origin ws =
     (case ws of
        owner # ttl # cls # rtype # data \<Rightarrow>
          (case (ex_num ttl, map_of ex_types rtype) of
             (Some t, Some code) \<Rightarrow>
               (let h = \<lparr>h_name = ex_owner origin owner, h_rrtype = code, h_class = 1, h_ttl = t\<rparr> in
                if cls \<noteq> ''IN'' \<or> data = [] then None
                else if code = 6 then ex_soa h data
                else Some (Other_rr h (join_str '' '' data)))
           | _ \<Rightarrow> None)
      | _ \<Rightarrow> None)"

fun ex_lines :: "string \<Rightarrow> string list \<Rightarrow> string rr list \<times> string option" where
  "ex_lines origin [] = ([], None)"
| "ex_lines origin (l # ls) =
     (case words_of l of
        [] \<Rightarrow> ex_lines origin ls
      | w # ws \<Rightarrow>
          if w = ''$ORIGIN'' \<or> w = ''$TTL'' then ex_lines origin ls
          else (case ex_record origin (w # ws) of
                  None \<Rightarrow> ([], Some ''syntax'')
                | Some rr \<Rightarrow> (case ex_lines origin ls of (rrs, e) \<Rightarrow> (rr # rrs, e))))"

definition ex_parse :: "string \<Rightarrow> string \<Rightarrow> string rr list \<times> string option" where
  "ex_parse content origin = ex_lines origin (split_on newline content)"

definition ex_header_string :: "rr_header \<Rightarrow> string" where
  "ex_header_string h =
     h_name h @ '' '' @ dec32 (h_ttl h) @ '' IN '' @ ex_type_string (h_rrtype h) @ '' ''"

fun ex_string :: "string rr \<Rightarrow> string" where
  "ex_string (SOA_rr h s) =
     ex_header_string h @ soa_ns s @ '' '' @ soa_mbox s @ '' '' @ dec32 (soa_serial s) @ '' ''
     @ dec32 (soa_refresh s) @ '' '' @ dec32 (soa_retry s) @ '' '' @ dec32 (soa_expire s) @ '' ''
     @ dec32 (soa_minttl s)"
| "ex_string (Other_rr h d) = ex_header_string h @ d"

definition ex_lib :: "string dns_lib" where
  "ex_lib =
     \<lparr>dns_fqdn = ex_fqdn, dns_parse = ex_parse, dns_string = ex_string,
      dns_header_string = ex_header_string, dns_type_string = ex_type_string,
      dns_class_string = ex_class_string, dns_type_soa = 6, unicode_upper = id\<rparr>"

definition ex_soa_data :: soa_data where
  "ex_soa_data =
     \<lparr>sd_primary_ns = ''ns1.a'', sd_mbox = ''adm@a'', sd_refresh = 7200, sd_retry = 3600,
      sd_expire = 1209600, sd_minimum = 3600, sd_ttl = 0, sd_serial = 7\<rparr>"

definition ex_www :: zrecord where
  "ex_www = \<lparr>r_name = ''www'', r_ttl = 0, r_class = ''IN'', r_type = ''A'', r_data = ''192.0.2.2''\<rparr>"

end
