(* ===== verification/Store_Behaviour.thy ===== *)
theory Store_Behaviour
  imports Store_Invariants Example_Library "HOL-Library.Multiset"
begin

section \<open>What the store operations do\<close>

text \<open>
  The effect of each operation that succeeds, and what is left when it fails, for every schedule
  of driver errors.
\<close>


subsection \<open>Target lists\<close>

definition good_target :: "string \<Rightarrow> bool" where
  "good_target t \<longleftrightarrow> t \<noteq> [] \<and> CHR '','' \<notin> set t \<and> trimmed t"

lemma splitTargets_good: "t \<in> set (splitTargets s) \<Longrightarrow> good_target t"
  using set_trim_space split_on_parts
  by (fastforce simp: splitTargets_def good_target_def trimmed_trim_space)

lemma splitTargets_joinTargets_good:
  assumes "\<forall>t\<in>set ts. good_target t"
  shows "splitTargets (joinTargets ts) = ts"
proof (cases "ts = []")
  case True
  then show ?thesis by (simp add: joinTargets_def splitTargets_def)
next
  case False
  with assms have "split_on (CHR '','') (joinTargets ts) = ts"
    unfolding joinTargets_def by (intro split_on_join) (auto simp: good_target_def)
  moreover from assms have "map trim_space ts = ts"
    by (intro map_idI) (simp add: good_target_def trim_space_id)
  moreover from assms have "filter (\<lambda>p. p \<noteq> []) ts = ts"
    by (auto simp: good_target_def filter_id_conv)
  ultimately show ?thesis by (simp add: splitTargets_def)
qed

text \<open>
  C36: A list of targets is read back from its column as it was written exactly when every target
  is non-empty, has no comma and no white space around it.
\<close>
theorem targets_roundtrip_iff:
  "splitTargets (joinTargets ts) = ts \<longleftrightarrow> (\<forall>t\<in>set ts. good_target t)"
  using splitTargets_good [of _ "joinTargets ts"] splitTargets_joinTargets_good [of ts] by auto


subsection \<open>Reading rows\<close>

definition records_view :: "string \<Rightarrow> db \<Rightarrow> (int \<times> zrecord) list" where
  "records_view name d = map scanRecord (records_of name d)"

lemma mset_records_of:
  "mset (map f (records_of name d)) = mset (map f (filter (\<lambda>r. rc_zone r = name) (db_records d)))"
  by (simp add: records_of_def)

lemma set_records_of: "set (records_of name d) = {r \<in> set (db_records d). rc_zone r = name}"
  by (auto simp: records_of_def)

lemma zone_row_of_None: "zone_row_of name d = None \<longleftrightarrow> name \<notin> set (zone_names d)"
  by (auto simp: zone_row_of_def find_None_iff zone_names_def)

lemma zone_row_of_Some: "zone_row_of name d = Some row \<Longrightarrow> zr_name row = name \<and> row \<in> set (db_zones d)"
  by (auto simp: zone_row_of_def find_Some_iff)

lemma find_append: "List.find P (xs @ ys) = (case List.find P xs of None \<Rightarrow> List.find P ys | Some x \<Rightarrow> Some x)"
  by (induction xs) auto

lemma find_map_update:
  "(\<And>z. zr_name (f z) = zr_name z) \<Longrightarrow>
     List.find (\<lambda>z. zr_name z = name) (map (\<lambda>z. if zr_name z = name then f z else z) zs)
     = map_option f (List.find (\<lambda>z. zr_name z = name) zs)"
  by (induction zs) auto

lemma update_zones_row:
  assumes "update_zones name f d = Inr (n, d')" and "\<And>z. zr_name (f z) = zr_name z"
  shows "zone_row_of name d' = map_option f (zone_row_of name d) \<and> db_records d' = db_records d
    \<and> db_snapshots d' = db_snapshots d \<and> db_records_seq d' = db_records_seq d
    \<and> db_snapshots_seq d' = db_snapshots_seq d \<and> (n = 0 \<longleftrightarrow> zone_row_of name d = None)"
proof -
  have d': "d' = d\<lparr>db_zones := map (\<lambda>z. if zr_name z = name then f z else z) (db_zones d)\<rparr>"
    and n: "n = length (filter (\<lambda>z. zr_name z = name) (db_zones d))"
    using assms(1) by (auto simp: update_zones_def)
  have "n = 0 \<longleftrightarrow> zone_row_of name d = None"
    by (auto simp: n zone_row_of_def find_None_iff filter_empty_conv)
  then show ?thesis by (simp add: d' zone_row_of_def find_map_update [OF assms(2)])
qed


subsection \<open>Inserting a list of records\<close>

fun new_rows :: "string \<Rightarrow> int \<Rightarrow> zrecord list \<Rightarrow> record_row list" where
  "new_rows name i [] = []"
| "new_rows name i (r # rs) =
     mk_record (i + 1) name (r_name r, r_ttl r, r_type r, r_data r) # new_rows name (i + 1) rs"

definition as_stored :: "zrecord \<Rightarrow> zrecord" where
  "as_stored r = r\<lparr>r_class := ''IN''\<rparr>"

lemma new_rows_zone: "r \<in> set (new_rows name i recs) \<Longrightarrow> rc_zone r = name"
  by (induction name i recs rule: new_rows.induct) (auto simp: records.zone_mk)

lemma new_rows_view: "map (snd \<circ> scanRecord) (new_rows name i recs) = map as_stored recs"
  by (induction name i recs rule: new_rows.induct) (auto simp: scanRecord_def mk_record_def as_stored_def)

lemma insert_records_ok:
  "insert_records name recs s = (Inr (), s') \<Longrightarrow>
     st_db s' = (st_db s)\<lparr>db_records := db_records (st_db s) @ new_rows name (db_records_seq (st_db s)) recs,
       db_records_seq := db_records_seq (st_db s) + int (length recs)\<rparr> \<and> st_keep s' = st_keep s"
proof (induction recs arbitrary: s)
  case Nil
  then show ?case by simp
next
  case (Cons r recs)
  from Cons.prems obtain i t where
    t: "exec (sql_insert_record name (r_name r) (r_ttl r) (r_type r) (r_data r)) s = (Inr i, t)"
    and rest: "insert_records name recs t = (Inr (), s')"
    by (auto elim: bindE_cases)
  from t obtain d where d: "sql_insert_record name (r_name r) (r_ttl r) (r_type r) (r_data r) (st_db s) = Inr (i, d)"
    and td: "st_db t = d" "st_keep t = st_keep s"
    by (rule exec_ok)
  from d have "d = (st_db s)\<lparr>db_records := db_records (st_db s) @
      [mk_record (db_records_seq (st_db s) + 1) name (r_name r, r_ttl r, r_type r, r_data r)],
      db_records_seq := db_records_seq (st_db s) + 1\<rparr>"
    by (auto simp: sql_insert_record_def Let_def split: if_splits)
  with Cons.IH [OF rest] td show ?case by (simp add: algebra_simps)
qed


subsection \<open>Import\<close>

lemma ZoneExists_ok:
  "ZoneExists name s = (Inr b, s') \<Longrightarrow> b = (name \<in> set (zone_names (st_db s)))"
  unfolding ZoneExists_def
  by (drule query_ok) (auto simp: zone_names_def filter_empty_conv)

lemma no_records_without_zone:
  "db_inv d \<Longrightarrow> name \<notin> set (zone_names d) \<Longrightarrow> filter (\<lambda>r. rc_zone r = name) (db_records d) = []"
  by (auto simp: db_inv_def table_ok_def filter_empty_conv)

lemma no_snapshots_without_zone:
  "db_inv d \<Longrightarrow> name \<notin> set (zone_names d) \<Longrightarrow> filter (\<lambda>n. sn_zone n = name) (db_snapshots d) = []"
  by (auto simp: db_inv_def table_ok_def filter_empty_conv)

lemma zone_to_row_name [simp]: "zr_name (zone_to_row z t) = sz_name z"
  by (simp add: zone_to_row_def)

lemma zone_defaults_name [simp]: "sz_name (zone_defaults z) = sz_name z"
  by (simp add: zone_defaults_def)

lemma zone_of_soa_name [simp]: "sz_name (zone_of_soa name soa targets) = name"
  by (simp add: zone_of_soa_def)

lemma import_body_ok:
  assumes "bindE (exec (sql_insert_zone row)) (\<lambda>_. insert_records name recs) t = (Inr (), u)"
    and "zr_name row = name" and "db_inv (st_db t)"
  shows "name \<notin> set (zone_names (st_db t)) \<and> zone_row_of name (st_db u) = Some row
    \<and> mset (map (snd \<circ> scanRecord) (records_of name (st_db u))) = mset (map as_stored recs)
    \<and> snapshots_desc name (st_db u) = []"
proof -
  from assms(1) obtain v where v: "exec (sql_insert_zone row) t = (Inr (), v)"
    and ins: "insert_records name recs v = (Inr (), u)"
    by (auto elim: bindE_cases)
  from v obtain d where "sql_insert_zone row (st_db t) = Inr ((), d)" and "st_db v = d"
    by (rule exec_ok)
  then have fresh: "name \<notin> set (zone_names (st_db t))"
    and vd: "st_db v = (st_db t)\<lparr>db_zones := db_zones (st_db t) @ [row]\<rparr>"
    using assms(2) by (auto simp: sql_insert_zone_def split: if_splits)
  note u = insert_records_ok [OF ins, THEN conjunct1]
  have row: "zone_row_of name (st_db u) = Some row"
    using fresh assms(2) zone_row_of_None [of name "st_db t"]
    by (simp add: u vd zone_row_of_def find_append)
  have "filter (\<lambda>r. rc_zone r = name) (db_records (st_db u)) = new_rows name (db_records_seq (st_db t)) recs"
    using no_records_without_zone [OF assms(3) fresh] new_rows_zone
    by (auto simp: u vd filter_id_conv)
  then have "mset (map (snd \<circ> scanRecord) (records_of name (st_db u))) = mset (map as_stored recs)"
    by (simp only: mset_records_of new_rows_view)
  moreover have "snapshots_desc name (st_db u) = []"
    using no_snapshots_without_zone [OF assms(3) fresh] by (simp add: u vd snapshots_desc_def)
  ultimately show ?thesis using fresh row by blast
qed

lemma ImportZone_others:
  "ImportZone L name content targets created s = (res, s') \<Longrightarrow>
     other_rows name (st_db s') = other_rows name (st_db s)"
  using preservesD [OF keep_ImportZone [OF zone_stmts_keep_others parses_to_any]] by (metis snd_conv)

lemma ImportZone_cases:
  assumes imp: "ImportZone L name content targets created s = (res, s')"
    and inv: "db_inv (st_db s)"
  obtains (nothing) e where "res = Inl e" and "st_db s' = st_db s"
  | (imported) z soa where "res = Inr (length (DataRecords L z))"
      and "Parse L content name = Inr z" and "SOA z = Inr soa"
      and "name \<notin> set (zone_names (st_db s))"
      and "zone_row_of name (st_db s') =
            Some (zone_to_row (zone_defaults (zone_of_soa name soa targets)) created)"
      and "mset (map (snd \<circ> scanRecord) (records_of name (st_db s'))) =
            mset (map as_stored (DataRecords L z))"
      and "snapshots_desc name (st_db s') = []"
proof -
  obtain r0 t where r0: "ZoneExists name s = (r0, t)" by (cases "ZoneExists name s")
  then have t: "st_db t = st_db s" by (simp add: ZoneExists_def query_state)
  show thesis
  proof (cases r0)
    case (Inl e)
    with imp r0 t have "res = Inl e" and "st_db s' = st_db s" by (auto simp: ImportZone_def bindE_def)
    then show thesis by (rule nothing)
  next
    case ok: (Inr ok)
    show thesis
    proof (cases "\<not> ok \<and> (\<exists>z soa. Parse L content name = Inr z \<and> SOA z = Inr soa)")
      case False
      with imp r0 ok t have "\<exists>e. res = Inl e \<and> st_db s' = st_db s"
        by (auto simp: ImportZone_def bindE_def Let_def split: sum.splits if_splits)
      then obtain e where "res = Inl e" and "st_db s' = st_db s" by blast
      then show thesis by (rule nothing)
    next
      case True
      then obtain z soa where z: "Parse L content name = Inr z" and soa: "SOA z = Inr soa" by blast
      let ?row = "zone_to_row (zone_defaults (zone_of_soa name soa targets)) created"
      let ?body = "bindE (exec (sql_insert_zone ?row)) (\<lambda>_. insert_records name (DataRecords L z))"
      obtain b w where b: "with_tx ?body t = (b, w)" by (cases "with_tx ?body t")
      have res: "(res, s') = (map_sum id (\<lambda>_. length (DataRecords L z)) b, w)"
        using imp r0 ok True z soa b
        by (simp add: ImportZone_def bindE_def Let_def split: sum.splits)
      from b show thesis
      proof (cases rule: with_tx_cases)
        case (aborted e)
        with res t have "res = Inl e" and "st_db s' = st_db s" by simp_all
        then show thesis by (rule nothing)
      next
        case (committed x t' u)
        with inv t have "db_inv (st_db t')" by simp
        with committed(3) have "name \<notin> set (zone_names (st_db t')) \<and> zone_row_of name (st_db u) = Some ?row
          \<and> mset (map (snd \<circ> scanRecord) (records_of name (st_db u))) = mset (map as_stored (DataRecords L z))
          \<and> snapshots_desc name (st_db u) = []"
          by (intro import_body_ok) simp_all
        with committed res t show thesis using imported [OF _ z soa] by simp
      qed
    qed
  qed
qed

text \<open>
  C28: An import that fails, at whatever statement, changes no table; one that succeeds adds the
  zone with the settings of the SOA record and exactly the data records of the file, where no zone
  of the name was, and changes nothing of the other zones.
\<close>
theorem ImportZone_all_or_nothing:
  assumes imp: "ImportZone L name content targets created s = (res, s')"
    and inv: "db_inv (st_db s)"
  shows "case res of
      Inl e \<Rightarrow> st_db s' = st_db s
    | Inr n \<Rightarrow> \<exists>z soa. Parse L content name = Inr z \<and> SOA z = Inr soa \<and> n = length (DataRecords L z)
        \<and> name \<notin> set (zone_names (st_db s))
        \<and> zone_row_of name (st_db s') =
            Some (zone_to_row (zone_defaults (zone_of_soa name soa targets)) created)
        \<and> mset (map (snd \<circ> scanRecord) (records_of name (st_db s'))) =
            mset (map as_stored (DataRecords L z))
        \<and> snapshots_desc name (st_db s') = []
        \<and> other_rows name (st_db s') = other_rows name (st_db s)"
  using imp inv
  by (cases rule: ImportZone_cases) (use ImportZone_others [OF imp] in auto)

end
