(* ===== verification/Store_Snapshots.thy ===== *)
theory Store_Snapshots
  imports Store_Behaviour
begin

section \<open>Records, deletion, snapshots and rollback\<close>


subsection \<open>Records of a zone\<close>

text \<open>
  The editable rows of a zone form a collection with generated ids. What the store promises to the
  editor: adding a record adds exactly it under a new id; changing and deleting touch exactly the
  row with the id given, and only if it belongs to the zone named.
\<close>

definition row_ids :: "string \<Rightarrow> db \<Rightarrow> int list" where
  "row_ids name d = map rc_id (filter (\<lambda>r. rc_zone r = name) (db_records d))"

lemma AddRecord_ok:
  assumes "AddRecord name r s = (Inr i, s')" and "db_inv (st_db s)"
  shows "name \<in> set (zone_names (st_db s))
    \<and> i \<notin> rc_id ` set (db_records (st_db s))
    \<and> mset (records_view name (st_db s')) = add_mset (i, as_stored r) (mset (records_view name (st_db s)))
    \<and> zone_names (st_db s') = zone_names (st_db s)"
proof -
  from assms(1) obtain d where d: "sql_insert_record name (r_name r) (r_ttl r) (r_type r) (r_data r) (st_db s) = Inr (i, d)"
    and s': "st_db s' = d"
    unfolding AddRecord_def by (rule exec_ok)
  then have i: "i = db_records_seq (st_db s) + 1" and n: "name \<in> set (zone_names (st_db s))"
    and d': "d = (st_db s)\<lparr>db_records := db_records (st_db s) @ [mk_record i name (r_name r, r_ttl r, r_type r, r_data r)],
      db_records_seq := i\<rparr>"
    by (auto simp: sql_insert_record_def Let_def split: if_splits)
  have "i \<notin> rc_id ` set (db_records (st_db s))"
    unfolding i using assms(2) by (intro records.insert_fresh) (auto simp: db_inv_def)
  moreover have "mset (records_view name d) = add_mset (i, as_stored r) (mset (records_view name (st_db s)))"
    unfolding records_view_def mset_records_of
    by (simp add: d' records.zone_mk) (simp add: mk_record_def scanRecord_def as_stored_def)
  ultimately show ?thesis using n by (simp add: s' d')
qed

lemma hit_at_most_one:
  assumes "distinct (map rc_id rows)"
  shows "length (filter (\<lambda>r. rc_id r = i \<and> rc_zone r = name) rows) \<le> 1"
proof -
  have "distinct (map rc_id (filter (\<lambda>r. rc_id r = i \<and> rc_zone r = name) rows))"
    using assms by (rule distinct_map_filter)
  moreover have "set (map rc_id (filter (\<lambda>r. rc_id r = i \<and> rc_zone r = name) rows)) \<subseteq> {i}"
    by auto
  ultimately have "card (set (map rc_id (filter (\<lambda>r. rc_id r = i \<and> rc_zone r = name) rows)))
      = length (filter (\<lambda>r. rc_id r = i \<and> rc_zone r = name) rows)"
    by (simp only: distinct_card length_map)
  moreover have "card (set (map rc_id (filter (\<lambda>r. rc_id r = i \<and> rc_zone r = name) rows))) \<le> card {i}"
    by (rule card_mono) auto
  ultimately show ?thesis by simp
qed

lemma notFoundIfNoRows_cases:
  assumes "notFoundIfNoRows n s = (r, s')"
  shows "s' = s \<and> r = (if n = 0 then Inl ErrNotFound else Inr ())"
  using assms by (auto simp: notFoundIfNoRows_def)

text \<open>A statement that counts rows, followed by the check of the count.\<close>

lemma counted_cases:
  assumes "bindE (exec stmt) notFoundIfNoRows s = (r, s')"
  obtains (driver) msg where "r = Inl (Driver msg)" and "st_db s' = st_db s"
  | (error) e where "stmt (st_db s) = Inl e" and "r = Inl e" and "st_db s' = st_db s"
  | (missing) d where "stmt (st_db s) = Inr (0, d)" and "r = Inl ErrNotFound" and "st_db s' = d"
  | (hit) n d where "stmt (st_db s) = Inr (n, d)" and "n \<noteq> 0" and "r = Inr ()" and "st_db s' = d"
      and "st_keep s' = st_keep s"
  using assms
proof (cases rule: bindE_cases)
  case (err e)
  from err(1) show thesis
    by (cases rule: exec_cases) (use err(2) driver error in auto)
next
  case (ok n t)
  from ok(1) obtain d where "stmt (st_db s) = Inr (n, d)" "st_db t = d" "st_keep t = st_keep s"
    by (rule exec_ok)
  with notFoundIfNoRows_cases [OF ok(2)] missing hit show thesis by (cases "n = 0") auto
qed

lemma map_filter_update:
  "(\<And>x. g (f x) = g x \<and> P (f x) = P x) \<Longrightarrow> map g (filter P (map f xs)) = map g (filter P xs)"
  by (induction xs) auto

text \<open>
  UpdateRecord replaces the one record of the zone with that id and no other row; when it
  fails nothing changed, and it reports not found exactly when the zone has no record of that id.
\<close>
theorem UpdateRecord_exact:
  assumes upd: "UpdateRecord name i r s = (res, s')" and inv: "db_inv (st_db s)"
  shows "case res of
      Inl e \<Rightarrow> st_db s' = st_db s
        \<and> (e = ErrNotFound \<and> i \<notin> set (row_ids name (st_db s)) \<or> (\<exists>msg. e = Driver msg))
    | Inr _ \<Rightarrow> i \<in> set (row_ids name (st_db s))
        \<and> set (records_view name (st_db s')) =
            insert (i, as_stored r) {p \<in> set (records_view name (st_db s)). fst p \<noteq> i}
        \<and> row_ids name (st_db s') = row_ids name (st_db s)
        \<and> other_rows name (st_db s') = other_rows name (st_db s)"
proof -
  let ?hit = "\<lambda>x. rc_id x = i \<and> rc_zone x = name"
  let ?f = "\<lambda>x. if ?hit x then x\<lparr>rc_name := r_name r, rc_ttl := r_ttl r, rc_type := r_type r, rc_data := r_data r\<rparr> else x"
  let ?d = "(st_db s)\<lparr>db_records := map ?f (db_records (st_db s))\<rparr>"
  have stmt: "sql_update_record name i (r_name r) (r_ttl r) (r_type r) (r_data r) (st_db s)
      = Inr (length (filter ?hit (db_records (st_db s))), ?d)"
    by (simp add: sql_update_record_def Let_def)
  have hits: "filter ?hit (db_records (st_db s)) = [] \<longleftrightarrow> i \<notin> set (row_ids name (st_db s))"
    by (auto simp: row_ids_def filter_empty_conv)
  have others: "other_rows name (st_db s') = other_rows name (st_db s)"
    using preservesD [OF keep_UpdateRecord [OF zone_stmts_keep_others TrueI]] upd by (metis snd_conv)
  from upd show ?thesis unfolding UpdateRecord_def
  proof (cases rule: counted_cases)
    case (driver msg)
    then show ?thesis by simp
  next
    case (error e)
    with stmt show ?thesis by simp
  next
    case (missing d)
    with stmt hits have none: "filter ?hit (db_records (st_db s)) = []" and "d = ?d" by auto
    moreover from none have "map ?f (db_records (st_db s)) = db_records (st_db s)"
      by (intro map_idI) (auto simp: filter_empty_conv)
    ultimately show ?thesis using missing hits by simp
  next
    case (hit n d)
    with stmt have d: "st_db s' = ?d" and "filter ?hit (db_records (st_db s)) \<noteq> []" by auto
    with hits have i: "i \<in> set (row_ids name (st_db s))" by blast
    have ids: "row_ids name (st_db s') = row_ids name (st_db s)"
      unfolding d row_ids_def by (simp del: map_map) (rule map_filter_update, simp)
    have "set (records_view name (st_db s')) =
        insert (i, as_stored r) {p \<in> set (records_view name (st_db s)). fst p \<noteq> i}"
    proof -
      let ?R = "{x \<in> set (db_records (st_db s)). rc_zone x = name}"
      have scan: "scanRecord (?f x) = (if rc_id x = i then (i, as_stored r) else scanRecord x)"
        if "x \<in> ?R" for x
        using that by (simp add: scanRecord_def as_stored_def)
      have "set (records_view name (st_db s')) = scanRecord ` ?f ` ?R"
        by (auto simp: d records_view_def set_records_of)
      also have "\<dots> = (\<lambda>x. if rc_id x = i then (i, as_stored r) else scanRecord x) ` ?R"
        unfolding image_image by (rule image_cong [OF refl scan])
      also have "\<dots> = insert (i, as_stored r) {p \<in> scanRecord ` ?R. fst p \<noteq> i}"
        using i by (auto simp: row_ids_def scanRecord_def)
      finally show ?thesis by (simp add: records_view_def set_records_of)
    qed
    with i ids others hit show ?thesis by simp
  qed
qed



subsection \<open>Deleting a zone\<close>

text \<open>
  DeleteZone removes the zone with all its records and snapshots and nothing of other zones;
  when it fails nothing changed, and it reports not found exactly when there is no such zone.
\<close>
theorem DeleteZone_cascades:
  assumes del: "DeleteZone name s = (res, s')" and inv: "db_inv (st_db s)"
  shows "case res of
      Inl e \<Rightarrow> st_db s' = st_db s
        \<and> (e = ErrNotFound \<and> name \<notin> set (zone_names (st_db s)) \<or> (\<exists>msg. e = Driver msg))
    | Inr _ \<Rightarrow> name \<in> set (zone_names (st_db s)) \<and> name \<notin> set (zone_names (st_db s'))
        \<and> records_view name (st_db s') = [] \<and> snapshots_desc name (st_db s') = []
        \<and> other_rows name (st_db s') = other_rows name (st_db s)"
proof -
  have others: "other_rows name (st_db s') = other_rows name (st_db s)"
    using preservesD [OF keep_DeleteZone [OF zone_stmts_keep_others]] del by (metis snd_conv)
  have hits: "filter (\<lambda>z. zr_name z = name) (db_zones (st_db s)) = [] \<longleftrightarrow> name \<notin> set (zone_names (st_db s))"
    by (auto simp: zone_names_def filter_empty_conv)
  from del show ?thesis unfolding DeleteZone_def
  proof (cases rule: counted_cases)
    case (driver msg)
    then show ?thesis by simp
  next
    case (error e)
    then show ?thesis by (simp add: sql_delete_zone_def)
  next
    case (missing d)
    with hits have "name \<notin> set (zone_names (st_db s))" and "st_db s' = st_db s"
      by (auto simp: sql_delete_zone_def split: if_splits)
    with missing show ?thesis by simp
  next
    case (hit n d)
    with hits have n: "name \<in> set (zone_names (st_db s))"
      by (auto simp: sql_delete_zone_def)
    with hit have d: "st_db s' = (st_db s)\<lparr>db_zones := filter (\<lambda>z. zr_name z \<noteq> name) (db_zones (st_db s)),
        db_records := filter (\<lambda>r. rc_zone r \<noteq> name) (db_records (st_db s)),
        db_snapshots := filter (\<lambda>n. sn_zone n \<noteq> name) (db_snapshots (st_db s))\<rparr>"
      by (auto simp: sql_delete_zone_def)
    then have "name \<notin> set (zone_names (st_db s'))" by (auto simp: zone_names_def)
    moreover have "records_view name (st_db s') = []" "snapshots_desc name (st_db s') = []"
      by (simp_all add: d records_view_def records_of_def snapshots_desc_def filter_empty_conv)
    ultimately show ?thesis using n others hit by simp
  qed
qed


subsection \<open>Publishing\<close>

lemma insort_key_snoc: "f y \<le> f x \<Longrightarrow> \<forall>z\<in>set zs. f z \<le> f x \<Longrightarrow> insort_key f y (zs @ [x]) = insort_key f y zs @ [x]"
  by (induction zs) auto

lemma sort_key_snoc: "\<forall>y\<in>set xs. f y \<le> f x \<Longrightarrow> sort_key f (xs @ [x]) = sort_key f xs @ [x]"
proof (induction xs)
  case Nil
  then show ?case by simp
next
  case (Cons y xs)
  then have "sort_key f ((y # xs) @ [x]) = insort_key f y (sort_key f xs @ [x])" by simp
  also have "\<dots> = insort_key f y (sort_key f xs) @ [x]"
    using Cons.prems by (intro insort_key_snoc) auto
  finally show ?case by simp
qed

lemma snapshots_desc_insert:
  assumes ins: "sql_insert_snapshot name serial content created d = Inr ((), d')" and inv: "db_inv d"
  shows "\<exists>new. snapshots_desc name d' = new # snapshots_desc name d
    \<and> sn_id new = db_snapshots_seq d + 1 \<and> sn_serial new = serial \<and> sn_content new = content
    \<and> db_zones d' = db_zones d \<and> db_records d' = db_records d"
proof -
  define new where "new = mk_snapshot (db_snapshots_seq d + 1) name (serial, content, created)"
  have d': "d' = d\<lparr>db_snapshots := db_snapshots d @ [new], db_snapshots_seq := db_snapshots_seq d + 1\<rparr>"
    using ins by (auto simp: sql_insert_snapshot_def Let_def new_def split: if_splits)
  have "\<forall>n\<in>set (filter (\<lambda>n. sn_zone n = name) (db_snapshots d)). sn_id n \<le> sn_id new"
    using inv by (force simp: db_inv_def table_ok_def new_def snapshots.id_mk)
  then have "sort_key sn_id (filter (\<lambda>n. sn_zone n = name) (db_snapshots d) @ [new])
      = sort_key sn_id (filter (\<lambda>n. sn_zone n = name) (db_snapshots d)) @ [new]"
    by (rule sort_key_snoc)
  moreover have "sn_zone new = name" by (simp add: new_def snapshots.zone_mk)
  ultimately have "snapshots_desc name d' = new # snapshots_desc name d"
    by (simp add: snapshots_desc_def d')
  then show ?thesis by (intro exI [of _ new]) (simp add: d' new_def mk_snapshot_def)
qed

lemma filter_first_ids:
  assumes "distinct (map g xs)"
  shows "filter (\<lambda>x. g x \<in> set (map g (take k xs))) xs = take k xs"
proof -
  have split: "filter (\<lambda>x. g x \<in> set (map g (take k xs))) (take k xs @ drop k xs) = take k xs"
  proof -
    have "set (map g (take k xs)) \<inter> set (map g (drop k xs)) = {}"
      using assms by (metis append_take_drop_id distinct_append map_append)
    then have "filter (\<lambda>x. g x \<in> set (map g (take k xs))) (drop k xs) = []"
      by (auto simp: filter_empty_conv)
    moreover have "filter (\<lambda>x. g x \<in> set (map g (take k xs))) (take k xs) = take k xs"
      by (auto simp: filter_id_conv)
    ultimately show ?thesis by (simp del: append_take_drop_id)
  qed
  then show ?thesis by simp
qed

lemma distinct_snapshots_desc: "db_inv d \<Longrightarrow> distinct (map sn_id (snapshots_desc name d))"
proof -
  assume "db_inv d"
  then have "distinct (map sn_id (db_snapshots d))" by (simp add: db_inv_def table_ok_def)
  then have "distinct (map sn_id (filter (\<lambda>n. sn_zone n = name) (db_snapshots d)))"
    by (rule distinct_map_filter)
  then show ?thesis
    by (simp add: snapshots_desc_def distinct_map rev_map [symmetric])
qed

lemma rev_sort_filter: "rev (sort_key f (filter P xs)) = filter P (rev (sort_key f xs))"
  by (simp add: filter_sort rev_filter [symmetric])

lemma snapshots_desc_prune:
  assumes pr: "sql_prune_snapshots name keep d = Inr (u, d')" and inv: "db_inv d"
  shows "snapshots_desc name d' = sql_limit keep (snapshots_desc name d)
    \<and> db_zones d' = db_zones d \<and> db_records d' = db_records d"
proof -
  let ?L = "snapshots_desc name d"
  let ?kept = "map sn_id (sql_limit keep ?L)"
  have d': "d' = d\<lparr>db_snapshots := filter (\<lambda>n. \<not> (sn_zone n = name \<and> sn_id n \<notin> set ?kept)) (db_snapshots d)\<rparr>"
    using pr by (simp add: sql_prune_snapshots_def Let_def)
  have "filter (\<lambda>n. sn_zone n = name) (db_snapshots d')
      = filter (\<lambda>n. sn_id n \<in> set ?kept) (filter (\<lambda>n. sn_zone n = name) (db_snapshots d))"
    unfolding d' by (simp, rule filter_cong) auto
  then have "snapshots_desc name d' = filter (\<lambda>n. sn_id n \<in> set ?kept) ?L"
    by (simp only: snapshots_desc_def rev_sort_filter)
  also have "\<dots> = sql_limit keep ?L"
  proof (cases "keep < 0")
    case True
    then show ?thesis by (auto simp: sql_limit_def filter_id_conv)
  next
    case False
    then show ?thesis
      using filter_first_ids [OF distinct_snapshots_desc [OF inv], where k = "nat keep"]
      by (simp add: sql_limit_def)
  qed
  finally show ?thesis by (simp add: d')
qed

lemma SetSerial_cases:
  assumes "SetSerial name serial s = (res, s')"
  obtains (fail) e where "res = Inl e" and "st_db s' = st_db s"
  | (ok) row where "res = Inr ()" and "zone_row_of name (st_db s) = Some row"
      and "zone_row_of name (st_db s') = Some (row\<lparr>zr_serial := serial\<rparr>)"
      and "db_records (st_db s') = db_records (st_db s)"
      and "db_snapshots (st_db s') = db_snapshots (st_db s)"
      and "db_snapshots_seq (st_db s') = db_snapshots_seq (st_db s)"
      and "st_keep s' = st_keep s"
  using assms unfolding SetSerial_def
proof (cases rule: counted_cases)
  case (driver msg)
  then show thesis using fail by blast
next
  case (error e)
  then show thesis using fail by blast
next
  case (missing d)
  then have "update_zones name (\<lambda>z. z\<lparr>zr_serial := serial\<rparr>) (st_db s) = Inr (0, d)"
    by (simp add: sql_set_serial_def)
  moreover from this have "map (\<lambda>z. if zr_name z = name then z\<lparr>zr_serial := serial\<rparr> else z) (db_zones (st_db s)) = db_zones (st_db s)"
    by (intro map_idI) (auto simp: update_zones_def filter_empty_conv)
  ultimately have "d = st_db s" by (auto simp: update_zones_def)
  with missing show thesis using fail by blast
next
  case (hit n d)
  then have "update_zones name (\<lambda>z. z\<lparr>zr_serial := serial\<rparr>) (st_db s) = Inr (n, d)"
    by (simp add: sql_set_serial_def)
  from update_zones_row [OF this] hit show thesis by (auto intro: ok)
qed

text \<open>The three statements of \<open>Publish\<close>, and where it can stop between them.\<close>

lemma Publish_cases:
  assumes pub: "Publish name content serial created s = (res, s')" and inv: "db_inv (st_db s)"
  obtains (nothing) e where "res = Inl e" and "st_db s' = st_db s"
  | (serial) e row where "res = Inl e" and "zone_row_of name (st_db s) = Some row"
      and "zone_row_of name (st_db s') = Some (row\<lparr>zr_serial := serial\<rparr>)"
      and "records_view name (st_db s') = records_view name (st_db s)"
      and "snapshots_desc name (st_db s') = snapshots_desc name (st_db s)"
  | (unpruned) e row new where "res = Inl e" and "zone_row_of name (st_db s) = Some row"
      and "zone_row_of name (st_db s') = Some (row\<lparr>zr_serial := serial\<rparr>)"
      and "records_view name (st_db s') = records_view name (st_db s)"
      and "sn_serial new = serial" and "sn_content new = content"
      and "sn_id new = db_snapshots_seq (st_db s) + 1"
      and "snapshots_desc name (st_db s') = new # snapshots_desc name (st_db s)"
  | (published) row new where "res = Inr ()" and "zone_row_of name (st_db s) = Some row"
      and "zone_row_of name (st_db s') = Some (row\<lparr>zr_serial := serial\<rparr>)"
      and "records_view name (st_db s') = records_view name (st_db s)"
      and "sn_serial new = serial" and "sn_content new = content"
      and "sn_id new = db_snapshots_seq (st_db s) + 1"
      and "snapshots_desc name (st_db s') = sql_limit (st_keep s) (new # snapshots_desc name (st_db s))"
proof -
  let ?ins = "exec (sql_insert_snapshot name serial content created)"
  let ?pr = "\<lambda>s. exec (sql_prune_snapshots name (st_keep s)) s"
  obtain r1 s1 where r1: "SetSerial name serial s = (r1, s1)" by (cases "SetSerial name serial s")
  have inv1: "db_inv (st_db s1)"
    using preservesD [OF keep_SetSerial [OF zone_stmts_keep_inv]] inv r1 by (metis snd_conv)
  from r1 show thesis
  proof (cases rule: SetSerial_cases)
    case (fail e)
    with pub r1 have "res = Inl e" and "s' = s1" by (auto simp: Publish_def bindE_def)
    with fail have "st_db s' = st_db s" by simp
    with \<open>res = Inl e\<close> show thesis by (rule nothing)
  next
    case (ok row)
    have view1: "records_view name (st_db s1) = records_view name (st_db s)"
      and desc1: "snapshots_desc name (st_db s1) = snapshots_desc name (st_db s)"
      using ok by (simp_all add: records_view_def records_of_def snapshots_desc_def)
    obtain r2 s2 where r2: "?ins s1 = (r2, s2)" by (cases "?ins s1")
    show thesis
    proof (cases r2)
      case (Inl e)
      with r2 have "st_db s2 = st_db s1" by (auto dest: exec_error)
      moreover have "res = Inl e" "s' = s2"
        using pub r1 ok(1) r2 Inl by (auto simp: Publish_def bindE_def)
      ultimately show thesis using serial [of e row] ok(2,3) view1 desc1 by simp
    next
      case (Inr u)
      with r2 obtain d where "sql_insert_snapshot name serial content created (st_db s1) = Inr ((), d)"
        and s2: "st_db s2 = d" "st_keep s2 = st_keep s1"
        by (auto elim: exec_ok)
      from snapshots_desc_insert [OF this(1) inv1] obtain new where
        new: "snapshots_desc name d = new # snapshots_desc name (st_db s1)"
          "sn_id new = db_snapshots_seq (st_db s1) + 1" "sn_serial new = serial" "sn_content new = content"
        and frame: "db_zones d = db_zones (st_db s1)" "db_records d = db_records (st_db s1)"
        by blast
      have inv2: "db_inv (st_db s2)"
        using preservesD [OF db_preserves_exec [OF inv_insert_snapshot]] inv1 r2 by (metis snd_conv)
      have row2: "zone_row_of name d = Some (row\<lparr>zr_serial := serial\<rparr>)"
        using ok(3) frame(1) by (simp add: zone_row_of_def)
      have view2: "records_view name d = records_view name (st_db s)"
        using view1 frame(2) by (simp add: records_view_def records_of_def)
      have final: "?pr s2 = (res, s')"
        using pub r1 ok(1) r2 Inr by (auto simp: Publish_def bindE_def)
      show thesis
      proof (cases res)
        case (Inl e)
        with final have "st_db s' = d" using s2(1) exec_error by blast
        with unpruned [of e row new] Inl ok row2 view2 new desc1 show thesis by simp
      next
        case res: (Inr v)
        from final obtain d' where pr: "sql_prune_snapshots name (st_keep s2) (st_db s2) = Inr (v, d')"
          and s': "st_db s' = d'" unfolding res by (rule exec_ok)
        note p = snapshots_desc_prune [OF pr inv2]
        have "zone_row_of name d' = Some (row\<lparr>zr_serial := serial\<rparr>)"
          using p row2 s2 by (simp add: zone_row_of_def)
        moreover have "records_view name d' = records_view name (st_db s)"
          using p view2 s2 by (simp add: records_view_def records_of_def)
        ultimately show thesis
          using published [of row new] res ok new desc1 p s2 s' by simp
      qed
    qed
  qed
qed

text \<open>
  C29: Publish sets the serial and puts one new snapshot with a fresh id in front of the history,
  cut to the newest st_keep entries; a Publish that fails leaves the history with at most that one
  entry in front, and then the serial is already set.
\<close>
theorem Publish_snapshot_history:
  assumes pub: "Publish name content serial created s = (res, s')"
    and inv: "db_inv (st_db s)" and keep: "0 < st_keep s"
  shows "case res of
      Inr _ \<Rightarrow> \<exists>row new. zone_row_of name (st_db s) = Some row
        \<and> zone_row_of name (st_db s') = Some (row\<lparr>zr_serial := serial\<rparr>)
        \<and> sn_serial new = serial \<and> sn_content new = content
        \<and> sn_id new \<notin> sn_id ` set (db_snapshots (st_db s))
        \<and> snapshots_desc name (st_db s') = take (nat (st_keep s)) (new # snapshots_desc name (st_db s))
        \<and> records_view name (st_db s') = records_view name (st_db s)
    | Inl e \<Rightarrow> map_option zr_serial (zone_row_of name (st_db s'))
          \<in> {map_option zr_serial (zone_row_of name (st_db s)), Some serial}
        \<and> (\<exists>news. snapshots_desc name (st_db s') = news @ snapshots_desc name (st_db s)
             \<and> map sn_content news \<in> {[], [content]}
             \<and> (news \<noteq> [] \<longrightarrow> map_option zr_serial (zone_row_of name (st_db s')) = Some serial))"
  using pub inv
proof (cases rule: Publish_cases)
  case (nothing e)
  then show ?thesis by simp
next
  case (serial e row)
  then show ?thesis by simp
next
  case (unpruned e row new)
  then show ?thesis by (auto intro!: exI [of _ "[new]"])
next
  case (published row new)
  have "sn_id new \<notin> sn_id ` set (db_snapshots (st_db s))"
    unfolding published(7) using inv by (intro snapshots.insert_fresh) (auto simp: db_inv_def)
  moreover have "sql_limit (st_keep s) (new # snapshots_desc name (st_db s))
      = take (nat (st_keep s)) (new # snapshots_desc name (st_db s))"
    using keep by (simp add: sql_limit_def)
  ultimately show ?thesis using published by simp (intro exI [of _ new], simp)
qed

end
