(* ===== verification/Store_Rollback.thy ===== *)
theory Store_Rollback
  imports Store_Snapshots
begin

section \<open>Rollback, the unpublished-changes flag, isolation of zones\<close>


subsection \<open>Restoring a snapshot\<close>

definition zone_settings :: "string \<Rightarrow> db \<Rightarrow> soa_data option" where
  "zone_settings name d = map_option (SOAData \<circ> scanZone) (zone_row_of name d)"

definition zone_targets :: "string \<Rightarrow> db \<Rightarrow> string list option" where
  "zone_targets name d = map_option (sz_targets \<circ> scanZone) (zone_row_of name d)"

lemma snapshot_zone_exists:
  assumes "snapshot_content_of name i d = Some content" and "db_inv d"
  shows "zone_row_of name d \<noteq> None"
proof -
  from assms(1) obtain n where "n \<in> set (db_snapshots d)" and "sn_zone n = name"
    unfolding snapshot_content_of_def by (auto simp: find_Some_iff dest: nth_mem)
  with assms(2) have "name \<in> set (zone_names d)" by (auto simp: db_inv_def table_ok_def)
  then show ?thesis by (simp add: zone_row_of_None)
qed

lemma restore_body_ok:
  assumes body: "bindE (exec (sql_restore_soa name soa)) (\<lambda>_.
      bindE (exec (sql_delete_records name)) (\<lambda>_. insert_records name recs)) t = (Inr (), u)"
    and row: "zone_row_of name (st_db t) = Some row"
  shows "zone_settings name (st_db u) = Some soa
    \<and> zone_targets name (st_db u) = Some (sz_targets (scanZone row))
    \<and> mset (map (snd \<circ> scanRecord) (records_of name (st_db u))) = mset (map as_stored recs)
    \<and> snapshots_desc name (st_db u) = snapshots_desc name (st_db t)"
proof -
  from body obtain n t1 where t1: "exec (sql_restore_soa name soa) t = (Inr n, t1)"
    and body1: "bindE (exec (sql_delete_records name)) (\<lambda>_. insert_records name recs) t1 = (Inr (), u)"
    by (auto elim: bindE_cases)
  from body1 obtain t2 where t2: "exec (sql_delete_records name) t1 = (Inr (), t2)"
    and ins: "insert_records name recs t2 = (Inr (), u)"
    by (auto elim: bindE_cases)
  from t1 obtain d1 where d1: "sql_restore_soa name soa (st_db t) = Inr (n, d1)" "st_db t1 = d1"
    by (rule exec_ok)
  note up = update_zones_row [OF d1(1) [unfolded sql_restore_soa_def]]
  from t2 obtain d2 where "sql_delete_records name (st_db t1) = Inr ((), d2)" "st_db t2 = d2"
    by (rule exec_ok)
  then have d2: "st_db t2 = d1\<lparr>db_records := filter (\<lambda>r. rc_zone r \<noteq> name) (db_records d1)\<rparr>"
    by (simp add: sql_delete_records_def d1(2))
  note u = insert_records_ok [OF ins, THEN conjunct1]
  have zone: "zone_row_of name (st_db u) = zone_row_of name d1"
    by (simp add: u d2 zone_row_of_def)
  have "filter (\<lambda>r. rc_zone r = name) (db_records (st_db u)) = new_rows name (db_records_seq d1) recs"
    using new_rows_zone by (auto simp: u d2 filter_id_conv filter_empty_conv)
  then have "mset (map (snd \<circ> scanRecord) (records_of name (st_db u))) = mset (map as_stored recs)"
    by (simp only: mset_records_of new_rows_view)
  moreover have "snapshots_desc name (st_db u) = snapshots_desc name (st_db t)"
    using up by (simp add: u d2 snapshots_desc_def)
  ultimately show ?thesis
    using up row by (simp add: zone_settings_def zone_targets_def zone SOAData_def scanZone_def)
qed

lemma RestoreSnapshot_cases:
  assumes res: "RestoreSnapshot L name i s = (res, s')" and inv: "db_inv (st_db s)"
  obtains (nothing) e where "res = Inl e" and "st_db s' = st_db s"
  | (restored) content z soa where "res = Inr ()"
      and "snapshot_content_of name i (st_db s) = Some content"
      and "Parse L content name = Inr z" and "SOA z = Inr soa"
      and "zone_settings name (st_db s') = Some soa"
      and "zone_targets name (st_db s') = zone_targets name (st_db s)"
      and "mset (map (snd \<circ> scanRecord) (records_of name (st_db s'))) = mset (map as_stored (DataRecords L z))"
      and "snapshots_desc name (st_db s') = snapshots_desc name (st_db s)"
proof -
  let ?q = "query (snapshot_content_of name i)"
  obtain c t where q: "?q s = (c, t)" by (cases "?q s")
  then have t: "st_db t = st_db s" by (simp add: query_state)
  show thesis
  proof (cases "\<exists>content z soa. c = Inr (Some content) \<and> Parse L content name = Inr z \<and> SOA z = Inr soa")
    case False
    with res q have "\<exists>e. res = Inl e \<and> s' = t"
      by (auto simp: RestoreSnapshot_def bindE_def Let_def split: sum.splits option.splits)
    then obtain e where "res = Inl e" and "s' = t" by blast
    from this(1) show thesis by (rule nothing) (simp add: \<open>s' = t\<close> t)
  next
    case True
    then obtain content z soa where c: "c = Inr (Some content)" and z: "Parse L content name = Inr z"
      and soa: "SOA z = Inr soa" by blast
    from q c have content: "snapshot_content_of name i (st_db s) = Some content"
      using query_ok by fastforce
    from snapshot_zone_exists [OF this inv] obtain row where row: "zone_row_of name (st_db s) = Some row"
      by blast
    let ?body = "bindE (exec (sql_restore_soa name soa)) (\<lambda>_.
      bindE (exec (sql_delete_records name)) (\<lambda>_. insert_records name (DataRecords L z)))"
    have "with_tx ?body t = (res, s')"
      using res q c z soa by (simp add: RestoreSnapshot_def bindE_def Let_def split: sum.splits)
    then show thesis
    proof (cases rule: with_tx_cases)
      case (aborted e)
      from aborted(1) show thesis by (rule nothing) (simp add: aborted(2) t)
    next
      case (committed x t' u)
      with row t have "zone_row_of name (st_db t') = Some row" by simp
      from restore_body_ok [OF _ this] committed(3) have u: "zone_settings name (st_db u) = Some soa
          \<and> zone_targets name (st_db u) = Some (sz_targets (scanZone row))
          \<and> mset (map (snd \<circ> scanRecord) (records_of name (st_db u))) = mset (map as_stored (DataRecords L z))
          \<and> snapshots_desc name (st_db u) = snapshots_desc name (st_db t')" by simp
      moreover have "zone_targets name (st_db s) = Some (sz_targets (scanZone row))"
        by (simp add: zone_targets_def row)
      ultimately show thesis
        using restored [OF _ content z soa] committed t by simp
    qed
  qed
qed

text \<open>
  C26: A rollback that fails, at whatever statement, changes no table; one that succeeds gives the
  zone the settings and exactly the records of the snapshot, keeps its targets and its snapshots,
  and changes nothing of the other zones.
\<close>
theorem RestoreSnapshot_all_or_nothing:
  assumes res: "RestoreSnapshot L name i s = (res, s')" and inv: "db_inv (st_db s)"
  shows "case res of
      Inl e \<Rightarrow> st_db s' = st_db s
    | Inr _ \<Rightarrow> \<exists>content z soa. snapshot_content_of name i (st_db s) = Some content
        \<and> Parse L content name = Inr z \<and> SOA z = Inr soa
        \<and> zone_settings name (st_db s') = Some soa
        \<and> zone_targets name (st_db s') = zone_targets name (st_db s)
        \<and> mset (map (snd \<circ> scanRecord) (records_of name (st_db s'))) = mset (map as_stored (DataRecords L z))
        \<and> snapshots_desc name (st_db s') = snapshots_desc name (st_db s)
        \<and> other_rows name (st_db s') = other_rows name (st_db s)"
proof -
  have others: "other_rows name (st_db s') = other_rows name (st_db s)"
    using preservesD [OF keep_RestoreSnapshot [OF zone_stmts_keep_others parses_to_any]] res by (metis snd_conv)
  from res inv show ?thesis
    by (cases rule: RestoreSnapshot_cases) (use others in auto)
qed


subsection \<open>Unpublished changes\<close>

text \<open>What the zone-file format gives: the serial written in the SOA line is the serial of the SOA
  record that is read back, and nothing else depends on it.\<close>

definition serial_read_back :: "'r dns_lib \<Rightarrow> string \<Rightarrow> soa_data \<Rightarrow> zrecord list \<Rightarrow> u32 \<Rightarrow> bool" where
  "serial_read_back L name soa recs n \<longleftrightarrow>
     Build L name (soa\<lparr>sd_serial := n\<rparr>) recs =
     map_sum id (\<lambda>z. z\<lparr>z_records := set_soa_serial n (z_records z)\<rparr>) (Build L name soa recs)"

lemma driver_no_faults: "st_faults s = [] \<Longrightarrow> driver s = (Inr (), s)"
  by (simp add: driver.simps)

lemma query_no_faults: "st_faults s = [] \<Longrightarrow> query q s = (Inr (q (st_db s)), s)"
  by (simp add: query_def exec_def bindE_def driver_no_faults)

lemma BuildZone_no_faults:
  assumes "st_faults s = []" and "zone_row_of name (st_db s) = Some row"
  shows "BuildZone L name s =
    (map_sum Zone_failure id (Build L name (SOAData (scanZone row)) (map snd (records_view name (st_db s)))), s)"
proof -
  have "zr_name row = name" using zone_row_of_Some [OF assms(2)] ..
  then show ?thesis
    using assms
    by (simp add: BuildZone_def GetZone_def RecordsOf_def bindE_def query_no_faults records_view_def
        scanZone_def split: sum.split)
qed

text \<open>
  C30: Right after a successful Publish of the zone built from the store with its serial advanced,
  Dirty reports no unpublished changes, given that the zone-file reader reads the serial back from
  where Build writes it.
\<close>
theorem clean_after_publish:
  assumes row: "zone_row_of name (st_db s) = Some row"
    and built: "Build L name (SOAData (scanZone row)) (map snd (records_view name (st_db s))) = Inr z"
    and bump: "BumpSerial policy now z = (Inr (old, new), z')"
    and pub: "Publish name (Render L z') new created s = (Inr (), s')"
    and inv: "db_inv (st_db s)" and keep: "0 < st_keep s" and quiet: "st_faults s' = []"
    and lib: "serial_read_back L name (SOAData (scanZone row)) (map snd (records_view name (st_db s))) new"
  shows "Dirty L name s' = (Inr False, s')"
  using pub inv
proof (cases rule: Publish_cases)
  case (published row' sn)
  from bump have z': "z' = z\<lparr>z_records := set_soa_serial new (z_records z)\<rparr>"
    unfolding BumpSerial_ok_iff by blast
  have soa: "SOAData (scanZone (row\<lparr>zr_serial := new\<rparr>)) = (SOAData (scanZone row))\<lparr>sd_serial := new\<rparr>"
    by (simp add: SOAData_def scanZone_def)
  have "zone_row_of name (st_db s') = Some (row\<lparr>zr_serial := new\<rparr>)"
    using published row by simp
  from BuildZone_no_faults [OF quiet this, of L] have "BuildZone L name s' = (Inr z', s')"
    using lib built published(4) by (simp add: soa serial_read_back_def z')
  moreover have "sql_limit 1 (snapshots_desc name (st_db s')) = [sn]"
    using published(8) keep by (simp add: sql_limit_def take_Cons split: nat.split)
  moreover have "snap_content (scanSnapshot sn) = Render L z'"
    using published by (simp add: scanSnapshot_def)
  ultimately show ?thesis
    by (simp add: Dirty_def LastSnapshot_def bindE_def tryE_def query_no_faults quiet)
qed auto


subsection \<open>The deploy after a rollback\<close>

text \<open>
  C34: A rollback takes the serial of the zone back, below what has been live: when the restored
  snapshot has a smaller serial than the newest one, the zone then built from the tables has that
  smaller serial, and the next deploy under the increment policy publishes a serial not larger
  than that of the snapshot before it in the history.
\<close>
theorem rollback_takes_serial_back:
  assumes res: "RestoreSnapshot L name i s = (Inr (), s1)" and inv: "db_inv (st_db s)"
    and content: "snapshot_content_of name i (st_db s) = Some content"
    and parsed: "Parse L content name = Inr z" "SOA z = Inr soa"
    and live: "snapshots_desc name (st_db s) = newest # older" "sd_serial soa < sn_serial newest"
    and row: "zone_row_of name (st_db s1) = Some row"
    and lib: "serial_read_back L name (SOAData (scanZone row)) (map snd (records_view name (st_db s1))) (zr_serial row)"
    and built: "Build L name (SOAData (scanZone row)) (map snd (records_view name (st_db s1))) = Inr b"
    and bump: "BumpSerial SerialIncrement now b = (Inr (old, new), b')"
    and pub: "Publish name (Render L b') new created s1 = (Inr (), s2)"
  shows "\<exists>sn. snapshots_desc name (st_db s2) = sql_limit (st_keep s1) (sn # newest # older)
    \<and> sn_content sn = Render L b' \<and> sn_serial sn = new \<and> old = sd_serial soa \<and> new \<le> sn_serial newest"
proof -
  have restored: "zone_settings name (st_db s1) = Some soa" "snapshots_desc name (st_db s1) = newest # older"
    using res inv by (cases rule: RestoreSnapshot_cases; use content parsed live in auto)+
  have serial: "zr_serial row = sd_serial soa"
    using restored(1) row by (auto simp: zone_settings_def SOAData_def scanZone_def)
  obtain h d where soa: "find_soa (z_records b) = Some (h, d)" and old: "old = soa_serial d"
    and new: "new = next_serial SerialIncrement old now"
    using bump unfolding BumpSerial_ok_iff by blast
  have "(SOAData (scanZone row))\<lparr>sd_serial := zr_serial row\<rparr> = SOAData (scanZone row)"
    by (simp add: SOAData_def scanZone_def)
  with lib built have "b = b\<lparr>z_records := set_soa_serial (zr_serial row) (z_records b)\<rparr>"
    by (simp add: serial_read_back_def)
  then have "z_records b = set_soa_serial (zr_serial row) (z_records b)"
    by (metis zone.select_convs(2) zone.surjective zone.update_convs(2))
  with soa have "d = d\<lparr>soa_serial := zr_serial row\<rparr>"
    using find_soa_set_serial [of "zr_serial row" "z_records b"] by simp
  then have "soa_serial d = soa_serial (d\<lparr>soa_serial := zr_serial row\<rparr>)" by (rule arg_cong)
  then have "soa_serial d = zr_serial row" by simp
  with old serial have o: "old = sd_serial soa" by simp
  have "new \<le> sn_serial newest"
    using inc_le [OF live(2)] by (simp add: new o next_serial_def SerialIncrement_def SerialUnixtime_def)
  moreover have "db_inv (st_db s1)"
    using preservesD [OF keep_RestoreSnapshot [OF zone_stmts_keep_inv parses_to_any] inv] res by (metis snd_conv)
  from pub this obtain sn where "snapshots_desc name (st_db s2) = sql_limit (st_keep s1) (sn # newest # older)"
      "sn_content sn = Render L b'" "sn_serial sn = new"
    by (cases rule: Publish_cases) (use restored(2) in auto)
  ultimately show ?thesis using o by blast
qed


subsection \<open>Zones are independent\<close>

definition zone_view ::
    "string \<Rightarrow> db \<Rightarrow> zone_row option \<times> (int \<times> zrecord) list \<times> snapshot_row list" where
  "zone_view name d = (zone_row_of name d, records_view name d, snapshots_desc name d)"

lemma find_filter: "(\<And>x. P x \<Longrightarrow> Q x) \<Longrightarrow> List.find P (filter Q xs) = List.find P xs"
  by (induction xs) auto

lemma zone_view_other_rows:
  assumes "other_rows name d = other_rows name d'" and "m \<noteq> name"
  shows "zone_view m d = zone_view m d'"
proof -
  have f: "filter (\<lambda>x. g x = m) xs = filter (\<lambda>x. g x = m) (filter (\<lambda>x. g x \<noteq> name) xs)"
    for g :: "'a \<Rightarrow> string" and xs
    using assms(2) by (auto intro: filter_cong)
  have "zone_row_of m e = List.find (\<lambda>z. zr_name z = m) (filter (\<lambda>z. zr_name z \<noteq> name) (db_zones e))" for e
    unfolding zone_row_of_def using assms(2) by (subst find_filter) auto
  then have "zone_row_of m d = zone_row_of m d'"
    using assms(1) by (simp add: other_rows_def)
  moreover have "filter (\<lambda>r. rc_zone r = m) (db_records d) = filter (\<lambda>r. rc_zone r = m) (db_records d')"
    using assms(1) f [of rc_zone "db_records d"] f [of rc_zone "db_records d'"]
    by (simp add: other_rows_def)
  moreover have "filter (\<lambda>n. sn_zone n = m) (db_snapshots d) = filter (\<lambda>n. sn_zone n = m) (db_snapshots d')"
    using assms(1) f [of sn_zone "db_snapshots d"] f [of sn_zone "db_snapshots d'"]
    by (simp add: other_rows_def)
  ultimately show ?thesis
    by (simp add: zone_view_def records_view_def records_of_def snapshots_desc_def)
qed

text \<open>
  C35: A sequence of store calls leaves the settings, the records and the snapshots of every zone
  it does not name as they were, whatever statements fail.
\<close>
theorem calls_leave_other_zones:
  assumes "m \<notin> call_zone ` set calls"
  shows "zone_view m (st_db (fold (store_step L) calls s)) = zone_view m (st_db s)"
  using assms
proof (induction calls arbitrary: s)
  case Nil
  then show ?case by simp
next
  case (Cons c calls)
  have "other_rows (call_zone c) (st_db (fold (store_step L) [c] s)) = other_rows (call_zone c) (st_db s)"
    by (rule other_rows_run) simp
  then have "zone_view m (st_db (store_step L c s)) = zone_view m (st_db s)"
    using Cons.prems by (intro zone_view_other_rows [of "call_zone c"]) auto
  with Cons show ?case by simp
qed

end
