(* ===== verification/Store_Refinement.thy ===== *)
theory Store_Refinement
  imports Store_Rollback "HOL-Library.Multiset"
begin

section \<open>The store as a map of zones\<close>

text \<open>
  The contract of \<open>internal/store\<close> for its callers, without tables: a map from zone names to a zone's
  settings, its records under their ids, and the history of its published contents, newest first.
  \<open>store_spec\<close> says what a successful call does to that map; every call of the store that returns
  no error does that, and every call but \<open>Publish\<close> that returns an error does nothing.
\<close>

record azone =
  az_settings :: store_zone
  az_records :: "(int \<times> zrecord) multiset"
  az_history :: "(int \<times> u32 \<times> string) list"

type_synonym azones = "string \<Rightarrow> azone option"

definition history_entry :: "snapshot_row \<Rightarrow> int \<times> u32 \<times> string" where
  "history_entry n = (sn_id n, sn_serial n, sn_content n)"

definition abs_zone :: "string \<Rightarrow> db \<Rightarrow> azone option" where
  "abs_zone name d = map_option (\<lambda>row.
     \<lparr>az_settings = scanZone row, az_records = mset (records_view name d),
      az_history = map history_entry (snapshots_desc name d)\<rparr>) (zone_row_of name d)"

definition abs_db :: "db \<Rightarrow> azones" where
  "abs_db d = (\<lambda>name. abs_zone name d)"

text \<open>The targets pass through their comma-separated form.\<close>

definition as_read :: "store_zone \<Rightarrow> store_zone" where
  "as_read z = z\<lparr>sz_targets := splitTargets (joinTargets (sz_targets z))\<rparr>"

definition read_from :: "'r dns_lib \<Rightarrow> string \<Rightarrow> string \<Rightarrow> soa_data \<Rightarrow> (int \<times> zrecord) multiset \<Rightarrow> bool" where
  "read_from L name content soa M \<longleftrightarrow> (\<exists>z. Parse L content name = Inr z \<and> SOA z = Inr soa
     \<and> image_mset snd M = mset (map as_stored (DataRecords L z)))"

definition change_zone :: "string \<Rightarrow> (azone \<Rightarrow> azone \<Rightarrow> bool) \<Rightarrow> azones \<Rightarrow> azones \<Rightarrow> bool" where
  "change_zone name R A A' \<longleftrightarrow> (\<exists>a a'. A name = Some a \<and> R a a' \<and> A' = A(name \<mapsto> a'))"

definition new_zone :: "string \<Rightarrow> (azone \<Rightarrow> bool) \<Rightarrow> azones \<Rightarrow> azones \<Rightarrow> bool" where
  "new_zone name R A A' \<longleftrightarrow> (\<exists>a'. A name = None \<and> R a' \<and> A' = A(name \<mapsto> a'))"

fun store_spec :: "'r dns_lib \<Rightarrow> int \<Rightarrow> store_call \<Rightarrow> azones \<Rightarrow> azones \<Rightarrow> bool" where
  "store_spec L keep (Call_create z t) =
     new_zone (sz_name z) (\<lambda>a. a = \<lparr>az_settings = as_read (zone_defaults z), az_records = {#}, az_history = []\<rparr>)"
| "store_spec L keep (Call_settings z) =
     change_zone (sz_name z) (\<lambda>a a'. a' = a\<lparr>az_settings :=
       (as_read (zone_defaults z))\<lparr>sz_serial := sz_serial (az_settings a)\<rparr>\<rparr>)"
| "store_spec L keep (Call_set_serial name n) =
     change_zone name (\<lambda>a a'. a' = a\<lparr>az_settings := (az_settings a)\<lparr>sz_serial := n\<rparr>\<rparr>)"
| "store_spec L keep (Call_delete name) = (\<lambda>A A'. A name \<noteq> None \<and> A' = A(name := None))"
| "store_spec L keep (Call_import name content targets t) =
     new_zone name (\<lambda>a. \<exists>soa. read_from L name content soa (az_records a) \<and> az_history a = []
       \<and> az_settings a = as_read (zone_defaults (zone_of_soa name soa targets)))"
| "store_spec L keep (Call_add_record name r) =
     change_zone name (\<lambda>a a'. \<exists>i. i \<notin># image_mset fst (az_records a)
       \<and> a' = a\<lparr>az_records := add_mset (i, as_stored r) (az_records a)\<rparr>)"
| "store_spec L keep (Call_update_record name i r) =
     change_zone name (\<lambda>a a'. i \<in># image_mset fst (az_records a)
       \<and> a' = a\<lparr>az_records := image_mset (\<lambda>p. if fst p = i then (i, as_stored r) else p) (az_records a)\<rparr>)"
| "store_spec L keep (Call_delete_record name i) =
     change_zone name (\<lambda>a a'. i \<in># image_mset fst (az_records a)
       \<and> a' = a\<lparr>az_records := filter_mset (\<lambda>p. fst p \<noteq> i) (az_records a)\<rparr>)"
| "store_spec L keep (Call_publish name content n t) =
     change_zone name (\<lambda>a a'. \<exists>i. i \<notin> fst ` set (az_history a)
       \<and> a' = a\<lparr>az_settings := (az_settings a)\<lparr>sz_serial := n\<rparr>,
                az_history := sql_limit keep ((i, n, content) # az_history a)\<rparr>)"
| "store_spec L keep (Call_restore name i) =
     change_zone name (\<lambda>a a'. \<exists>n content soa. (i, n, content) \<in> set (az_history a)
       \<and> read_from L name content soa (az_records a') \<and> az_history a' = az_history a
       \<and> az_settings a' = zone_of_soa name soa (sz_targets (az_settings a)))"

fun run_call :: "'r dns_lib \<Rightarrow> store_call \<Rightarrow> unit store_op" where
  "run_call L (Call_create z t) = CreateZone z t"
| "run_call L (Call_settings z) = UpdateZoneSettings z"
| "run_call L (Call_set_serial name n) = SetSerial name n"
| "run_call L (Call_delete name) = DeleteZone name"
| "run_call L (Call_import name c ts t) = bindE (ImportZone L name c ts t) (\<lambda>_. returnE ())"
| "run_call L (Call_add_record name r) = bindE (AddRecord name r) (\<lambda>_. returnE ())"
| "run_call L (Call_update_record name i r) = UpdateRecord name i r"
| "run_call L (Call_delete_record name i) = DeleteRecord name i"
| "run_call L (Call_publish name c n t) = Publish name c n t"
| "run_call L (Call_restore name i) = RestoreSnapshot L name i"

lemma bindE_return_unit: "bindE m (\<lambda>_. returnE ()) s = (map_sum id (\<lambda>_. ()) (fst (m s)), snd (m s))"
  by (simp add: bindE_def split: prod.split sum.split)

lemma run_call_step: "snd (run_call L c s) = store_step L c s"
  by (cases c) (simp_all add: bindE_return_unit)

lemma abs_zone_view: "zone_view m d = zone_view m d' \<Longrightarrow> abs_zone m d = abs_zone m d'"
  by (simp add: zone_view_def abs_zone_def)

text \<open>A call changes the map at the zone it names, at most.\<close>

lemma abs_db_call:
  assumes "run_call L c s = (res, s')"
  shows "abs_db (st_db s') = (abs_db (st_db s))(call_zone c := abs_zone (call_zone c) (st_db s'))"
proof -
  have "other_rows (call_zone c) (st_db (fold (store_step L) [c] s)) = other_rows (call_zone c) (st_db s)"
    by (rule other_rows_run) simp
  then have "other_rows (call_zone c) (st_db s') = other_rows (call_zone c) (st_db s)"
    using run_call_step [of L c s] assms by simp
  then have "abs_zone m (st_db s') = abs_zone m (st_db s)" if "m \<noteq> call_zone c" for m
    using that by (intro abs_zone_view zone_view_other_rows)
  then show ?thesis by (auto simp: abs_db_def)
qed

lemma change_zoneI:
  assumes "run_call L c s = (res, s')" and "abs_zone (call_zone c) (st_db s) = Some a"
    and "abs_zone (call_zone c) (st_db s') = Some a'" and "R a a'"
  shows "change_zone (call_zone c) R (abs_db (st_db s)) (abs_db (st_db s'))"
  using assms unfolding abs_db_call [OF assms(1)] by (auto simp: change_zone_def abs_db_def)

lemma new_zoneI:
  assumes "run_call L c s = (res, s')" and "abs_zone (call_zone c) (st_db s) = None"
    and "abs_zone (call_zone c) (st_db s') = Some a'" and "R a'"
  shows "new_zone (call_zone c) R (abs_db (st_db s)) (abs_db (st_db s'))"
  using assms unfolding abs_db_call [OF assms(1)] by (auto simp: new_zone_def abs_db_def)

subsection \<open>Statements that count rows\<close>

lemma abs_zone_row:
  "zone_row_of name d = Some row \<Longrightarrow> abs_zone name d = Some
     \<lparr>az_settings = scanZone row, az_records = mset (records_view name d),
      az_history = map history_entry (snapshots_desc name d)\<rparr>"
  by (simp add: abs_zone_def)

lemma counted_update [consumes 2]:
  assumes "bindE (exec (update_zones name f)) notFoundIfNoRows s = (res, s')"
    and "\<And>z. zr_name (f z) = zr_name z"
  obtains (failed) e where "res = Inl e" and "st_db s' = st_db s"
  | (updated) row a where "res = Inr ()" and "zone_row_of name (st_db s) = Some row"
      and "abs_zone name (st_db s) = Some a" and "az_settings a = scanZone row"
      and "abs_zone name (st_db s') = Some (a\<lparr>az_settings := scanZone (f row)\<rparr>)"
  using assms(1)
proof (cases rule: counted_cases)
  case (driver msg)
  then show thesis using failed by blast
next
  case (error e)
  then show thesis by (simp add: update_zones_def)
next
  case (missing d)
  then have "filter (\<lambda>z. zr_name z = name) (db_zones (st_db s)) = []"
    and d: "d = (st_db s)\<lparr>db_zones := map (\<lambda>z. if zr_name z = name then f z else z) (db_zones (st_db s))\<rparr>"
    by (auto simp: update_zones_def)
  then have "map (\<lambda>z. if zr_name z = name then f z else z) (db_zones (st_db s)) = db_zones (st_db s)"
    by (intro map_idI) (auto simp: filter_empty_conv)
  with d missing show thesis using failed by simp
next
  case (hit n d)
  note up = update_zones_row [OF hit(1) assms(2)]
  with hit(2) obtain row where row: "zone_row_of name (st_db s) = Some row" by blast
  have "abs_zone name (st_db s') = Some
     \<lparr>az_settings = scanZone (f row), az_records = mset (records_view name (st_db s)),
      az_history = map history_entry (snapshots_desc name (st_db s))\<rparr>"
    using up row hit(4) by (simp add: abs_zone_def records_view_def records_of_def snapshots_desc_def)
  then show thesis by (intro updated [OF hit(3) row abs_zone_row [OF row]]) simp_all
qed

lemma scanZone_settings:
  "zr_name row = sz_name z \<Longrightarrow>
     scanZone (row\<lparr>zr_primary_ns := sd_primary_ns (SOAData z), zr_mbox := sd_mbox (SOAData z),
       zr_refresh := sd_refresh (SOAData z), zr_retry := sd_retry (SOAData z), zr_expire := sd_expire (SOAData z),
       zr_minimum := sd_minimum (SOAData z), zr_ttl := sd_ttl (SOAData z), zr_targets := joinTargets (sz_targets z)\<rparr>)
     = (as_read z)\<lparr>sz_serial := zr_serial row\<rparr>"
  by (simp add: scanZone_def SOAData_def as_read_def)

lemma settings_refine:
  assumes "UpdateZoneSettings z s = (res, s')"
  shows "case res of Inl e \<Rightarrow> st_db s' = st_db s
    | Inr _ \<Rightarrow> store_spec L keep (Call_settings z) (abs_db (st_db s)) (abs_db (st_db s'))"
proof -
  let ?z = "zone_defaults z"
  let ?f = "\<lambda>row. row\<lparr>zr_primary_ns := sd_primary_ns (SOAData ?z), zr_mbox := sd_mbox (SOAData ?z),
     zr_refresh := sd_refresh (SOAData ?z), zr_retry := sd_retry (SOAData ?z), zr_expire := sd_expire (SOAData ?z),
     zr_minimum := sd_minimum (SOAData ?z), zr_ttl := sd_ttl (SOAData ?z), zr_targets := joinTargets (sz_targets ?z)\<rparr>"
  have "bindE (exec (update_zones (sz_name z) ?f)) notFoundIfNoRows s = (res, s')"
    using assms by (simp add: UpdateZoneSettings_def Let_def sql_update_settings_def)
  moreover have "zr_name (?f row) = zr_name row" for row by simp
  ultimately show ?thesis
  proof (cases rule: counted_update)
    case (updated row a)
    have "zr_name row = sz_name ?z" using zone_row_of_Some [OF updated(2)] by simp
    from updated(5) [unfolded scanZone_settings [OF this]] updated(1,3,4) show ?thesis
      using change_zoneI [of L "Call_settings z"] assms by (simp add: scanZone_def)
  qed simp_all
qed

lemma set_serial_refine:
  assumes "SetSerial name n s = (res, s')"
  shows "case res of Inl e \<Rightarrow> st_db s' = st_db s
    | Inr _ \<Rightarrow> store_spec L keep (Call_set_serial name n) (abs_db (st_db s)) (abs_db (st_db s'))"
proof -
  let ?f = "\<lambda>row. row\<lparr>zr_serial := n\<rparr>"
  have "zr_name (?f row) = zr_name row" for row by simp
  with assms [unfolded SetSerial_def sql_set_serial_def] show ?thesis
  proof (cases rule: counted_update)
    case (updated row a)
    moreover have "scanZone (?f row) = (scanZone row)\<lparr>sz_serial := n\<rparr>"
      by (simp add: scanZone_def)
    ultimately show ?thesis
      using change_zoneI [of L "Call_set_serial name n"] assms by simp
  qed simp_all
qed

lemma delete_zone_refine:
  assumes "DeleteZone name s = (res, s')" and "db_inv (st_db s)"
  shows "case res of Inl e \<Rightarrow> st_db s' = st_db s
    | Inr _ \<Rightarrow> store_spec L keep (Call_delete name) (abs_db (st_db s)) (abs_db (st_db s'))"
proof (cases res)
  case (Inl e)
  with DeleteZone_cascades [OF assms] show ?thesis by simp
next
  case (Inr u)
  with DeleteZone_cascades [OF assms]
  have "zone_row_of name (st_db s) \<noteq> None" and "zone_row_of name (st_db s') = None"
    by (simp_all add: zone_row_of_None)
  with abs_db_call [of L "Call_delete name" s] assms(1) Inr show ?thesis
    by (simp add: abs_db_def abs_zone_def)
qed

subsection \<open>Records\<close>

lemma abs_zone_records:
  assumes "zone_row_of name (st_db s') = zone_row_of name (st_db s)"
    and "snapshots_desc name (st_db s') = snapshots_desc name (st_db s)"
    and "abs_zone name (st_db s) = Some a"
  shows "abs_zone name (st_db s') = Some (a\<lparr>az_records := mset (records_view name (st_db s'))\<rparr>)"
  using assms by (auto simp: abs_zone_def)

lemma mset_records_view:
  "mset (records_view name d) = image_mset scanRecord (mset (filter (\<lambda>r. rc_zone r = name) (db_records d)))"
  by (simp add: records_view_def mset_records_of del: mset_map) simp

lemma view_ids: "image_mset fst (mset (records_view name d)) = mset (row_ids name d)"
  by (simp add: mset_records_view row_ids_def image_mset.compositionality o_def scanRecord_def)

lemma update_record_rows:
  assumes "sql_update_record name i (r_name r) (r_ttl r) (r_type r) (r_data r) d = Inr (n, d')"
  shows "mset (records_view name d') =
      image_mset (\<lambda>p. if fst p = i then (i, as_stored r) else p) (mset (records_view name d))"
    and "db_zones d' = db_zones d" and "db_snapshots d' = db_snapshots d"
    and "n = 0 \<longleftrightarrow> i \<notin># image_mset fst (mset (records_view name d))" and "n = 0 \<Longrightarrow> d' = d"
proof -
  let ?hit = "\<lambda>x. rc_id x = i \<and> rc_zone x = name"
  let ?f = "\<lambda>x. if ?hit x then x\<lparr>rc_name := r_name r, rc_ttl := r_ttl r, rc_type := r_type r, rc_data := r_data r\<rparr> else x"
  let ?g = "\<lambda>p. if fst p = i then (i, as_stored r) else p"
  have n: "n = length (filter ?hit (db_records d))" and d': "d' = d\<lparr>db_records := map ?f (db_records d)\<rparr>"
    using assms by (simp_all add: sql_update_record_def Let_def)
  have eq: "map scanRecord (filter (\<lambda>x. rc_zone x = name) (map ?f xs)) =
      map ?g (map scanRecord (filter (\<lambda>x. rc_zone x = name) xs))" for xs
    by (induction xs) (auto simp: scanRecord_def as_stored_def)
  show "mset (records_view name d') = image_mset ?g (mset (records_view name d))"
    unfolding mset_records_view d' using arg_cong [OF eq [of "db_records d"], of mset]
    by (simp only: mset_map mset_filter) simp
  show "n = 0 \<longleftrightarrow> i \<notin># image_mset fst (mset (records_view name d))"
    unfolding view_ids by (auto simp: n row_ids_def filter_empty_conv)
  show "db_zones d' = db_zones d" and "db_snapshots d' = db_snapshots d" by (simp_all add: d')
  show "d' = d" if "n = 0"
  proof -
    have "map ?f (db_records d) = db_records d"
      using that by (intro map_idI) (auto simp: n filter_empty_conv)
    then show ?thesis by (simp add: d')
  qed
qed

lemma delete_record_rows:
  assumes "sql_delete_record name i d = Inr (n, d')"
  shows "mset (records_view name d') = filter_mset (\<lambda>p. fst p \<noteq> i) (mset (records_view name d))"
    and "db_zones d' = db_zones d" and "db_snapshots d' = db_snapshots d"
    and "n = 0 \<longleftrightarrow> i \<notin># image_mset fst (mset (records_view name d))" and "n = 0 \<Longrightarrow> d' = d"
proof -
  let ?hit = "\<lambda>x. rc_id x = i \<and> rc_zone x = name"
  have n: "n = length (filter ?hit (db_records d))"
    and d': "d' = d\<lparr>db_records := filter (\<lambda>x. \<not> ?hit x) (db_records d)\<rparr>"
    using assms by (simp_all add: sql_delete_record_def Let_def)
  have eq: "map scanRecord (filter (\<lambda>x. rc_zone x = name) (filter (\<lambda>x. \<not> ?hit x) xs)) =
      filter (\<lambda>p. fst p \<noteq> i) (map scanRecord (filter (\<lambda>x. rc_zone x = name) xs))" for xs
    by (induction xs) (auto simp: scanRecord_def)
  show "mset (records_view name d') = filter_mset (\<lambda>p. fst p \<noteq> i) (mset (records_view name d))"
    unfolding mset_records_view d' using arg_cong [OF eq [of "db_records d"], of mset]
    by (simp only: mset_map mset_filter) simp
  show "n = 0 \<longleftrightarrow> i \<notin># image_mset fst (mset (records_view name d))"
    unfolding view_ids by (auto simp: n row_ids_def filter_empty_conv)
  show "db_zones d' = db_zones d" and "db_snapshots d' = db_snapshots d" by (simp_all add: d')
  show "d' = d" if "n = 0"
  proof -
    have "filter (\<lambda>x. \<not> ?hit x) (db_records d) = db_records d"
      using that by (auto simp: n filter_empty_conv filter_id_conv)
    then show ?thesis by (simp add: d')
  qed
qed

text \<open>A counted statement on the records of a zone that exists when it hits a row.\<close>

lemma record_zone_exists:
  "i \<in># image_mset fst (mset (records_view name d)) \<Longrightarrow> db_inv d \<Longrightarrow> \<exists>a. abs_zone name d = Some a
     \<and> az_records a = mset (records_view name d)"
proof -
  assume "i \<in># image_mset fst (mset (records_view name d))" and inv: "db_inv d"
  then have "filter (\<lambda>r. rc_zone r = name) (db_records d) \<noteq> []"
    by (auto simp: mset_records_view filter_empty_conv)
  with no_records_without_zone [OF inv] have "zone_row_of name d \<noteq> None"
    by (auto simp: zone_row_of_None)
  then show ?thesis by (auto simp: abs_zone_def)
qed

lemma counted_records_refine:
  assumes call: "run_call L c s = (res, s')" and "run_call L c = bindE (exec stmt) notFoundIfNoRows"
    and name: "call_zone c = name" and inv: "db_inv (st_db s)"
    and rows: "\<And>n d'. stmt (st_db s) = Inr (n, d') \<Longrightarrow>
      mset (records_view name d') = f (mset (records_view name (st_db s)))
      \<and> db_zones d' = db_zones (st_db s) \<and> db_snapshots d' = db_snapshots (st_db s)
      \<and> (n = 0 \<longleftrightarrow> i \<notin># image_mset fst (mset (records_view name (st_db s)))) \<and> (n = 0 \<longrightarrow> d' = st_db s)"
  shows "case res of Inl e \<Rightarrow> st_db s' = st_db s
    | Inr _ \<Rightarrow> change_zone name (\<lambda>a a'. i \<in># image_mset fst (az_records a) \<and> a' = a\<lparr>az_records := f (az_records a)\<rparr>)
        (abs_db (st_db s)) (abs_db (st_db s'))"
  using call unfolding assms(2)
proof (cases rule: counted_cases)
  case (missing d)
  with rows show ?thesis by simp
next
  case (hit n d)
  note up = rows [OF hit(1)]
  with hit(2) record_zone_exists [OF _ inv] obtain a where a: "abs_zone name (st_db s) = Some a"
      "az_records a = mset (records_view name (st_db s))"
    by blast
  have "abs_zone name (st_db s') = Some (a\<lparr>az_records := mset (records_view name (st_db s'))\<rparr>)"
    using up hit(4) by (intro abs_zone_records [OF _ _ a(1)]) (simp_all add: zone_row_of_def snapshots_desc_def)
  moreover have "mset (records_view name (st_db s')) = f (az_records a)"
    and "i \<in># image_mset fst (az_records a)"
    unfolding a(2) using up hit(2,4) by simp_all
  ultimately have "change_zone (call_zone c) (\<lambda>a a'. i \<in># image_mset fst (az_records a) \<and> a' = a\<lparr>az_records := f (az_records a)\<rparr>)
        (abs_db (st_db s)) (abs_db (st_db s'))"
    by (intro change_zoneI [OF call]) (simp_all only: name a(1))
  with hit(3) show ?thesis by (simp add: name)
qed simp_all

lemma update_record_refine:
  assumes "UpdateRecord name i r s = (res, s')" and "db_inv (st_db s)"
  shows "case res of Inl e \<Rightarrow> st_db s' = st_db s
    | Inr _ \<Rightarrow> store_spec L keep (Call_update_record name i r) (abs_db (st_db s)) (abs_db (st_db s'))"
  unfolding store_spec.simps
proof (rule counted_records_refine [where L = L and c = "Call_update_record name i r" and
      stmt = "sql_update_record name i (r_name r) (r_ttl r) (r_type r) (r_data r)"])
  show "run_call L (Call_update_record name i r) s = (res, s')" using assms(1) by simp
  show "run_call L (Call_update_record name i r) =
      bindE (exec (sql_update_record name i (r_name r) (r_ttl r) (r_type r) (r_data r))) notFoundIfNoRows"
    by (simp add: UpdateRecord_def)
  fix n d'
  assume "sql_update_record name i (r_name r) (r_ttl r) (r_type r) (r_data r) (st_db s) = Inr (n, d')"
  note rows = update_record_rows [OF this]
  show "mset (records_view name d') =
      image_mset (\<lambda>p. if fst p = i then (i, as_stored r) else p) (mset (records_view name (st_db s)))
    \<and> db_zones d' = db_zones (st_db s) \<and> db_snapshots d' = db_snapshots (st_db s)
    \<and> (n = 0 \<longleftrightarrow> i \<notin># image_mset fst (mset (records_view name (st_db s)))) \<and> (n = 0 \<longrightarrow> d' = st_db s)"
    by (intro conjI impI rows)
qed (simp_all add: assms(2))

lemma delete_record_refine:
  assumes "DeleteRecord name i s = (res, s')" and "db_inv (st_db s)"
  shows "case res of Inl e \<Rightarrow> st_db s' = st_db s
    | Inr _ \<Rightarrow> store_spec L keep (Call_delete_record name i) (abs_db (st_db s)) (abs_db (st_db s'))"
  unfolding store_spec.simps
proof (rule counted_records_refine [where L = L and c = "Call_delete_record name i" and
      stmt = "sql_delete_record name i"])
  show "run_call L (Call_delete_record name i) s = (res, s')" using assms(1) by simp
  show "run_call L (Call_delete_record name i) = bindE (exec (sql_delete_record name i)) notFoundIfNoRows"
    by (simp add: DeleteRecord_def)
  fix n d'
  assume "sql_delete_record name i (st_db s) = Inr (n, d')"
  note rows = delete_record_rows [OF this]
  show "mset (records_view name d') = filter_mset (\<lambda>p. fst p \<noteq> i) (mset (records_view name (st_db s)))
    \<and> db_zones d' = db_zones (st_db s) \<and> db_snapshots d' = db_snapshots (st_db s)
    \<and> (n = 0 \<longleftrightarrow> i \<notin># image_mset fst (mset (records_view name (st_db s)))) \<and> (n = 0 \<longrightarrow> d' = st_db s)"
    by (intro conjI impI rows)
qed (simp_all add: assms(2))

lemma add_record_refine:
  assumes "AddRecord name r s = (res, s')" and "db_inv (st_db s)"
  shows "case res of Inl e \<Rightarrow> st_db s' = st_db s
    | Inr _ \<Rightarrow> store_spec L keep (Call_add_record name r) (abs_db (st_db s)) (abs_db (st_db s'))"
proof (cases res)
  case (Inl e)
  with assms(1) show ?thesis unfolding AddRecord_def by (auto dest: exec_error)
next
  case (Inr i)
  note ok = AddRecord_ok [OF assms(1) [unfolded Inr] assms(2)]
  then obtain row where row: "zone_row_of name (st_db s) = Some row"
    using zone_row_of_None [of name "st_db s"] by auto
  note a = abs_zone_row [OF row]
  have call: "run_call L (Call_add_record name r) s = (Inr (), s')"
    using assms(1) Inr by (simp add: bindE_return_unit)
  from assms(1) Inr obtain d where
    d: "sql_insert_record name (r_name r) (r_ttl r) (r_type r) (r_data r) (st_db s) = Inr (i, d)" "st_db s' = d"
    unfolding AddRecord_def by (auto elim: exec_ok)
  have "db_zones d = db_zones (st_db s)" "db_snapshots d = db_snapshots (st_db s)"
    using d(1) by (auto simp: sql_insert_record_def Let_def split: if_splits)
  with d(2) have same: "zone_row_of name (st_db s') = zone_row_of name (st_db s)"
    "snapshots_desc name (st_db s') = snapshots_desc name (st_db s)"
    by (simp_all add: zone_row_of_def snapshots_desc_def)
  have fresh: "i \<notin># image_mset fst (mset (records_view name (st_db s)))"
    unfolding view_ids using ok by (auto simp: row_ids_def)
  show ?thesis
    unfolding Inr sum.case store_spec.simps
    using change_zoneI [OF call, unfolded call_zone.simps, OF a abs_zone_records [OF same a]] ok fresh by auto
qed

lemma publish_refine:
  assumes "Publish name content n t s = (Inr (), s')" and "db_inv (st_db s)"
  shows "store_spec L (st_keep s) (Call_publish name content n t) (abs_db (st_db s)) (abs_db (st_db s'))"
  using assms
proof (cases rule: Publish_cases)
  case (published row new)
  have call: "run_call L (Call_publish name content n t) s = (Inr (), s')" using assms(1) by simp
  note a = abs_zone_row [OF published(2)]
  have scan: "scanZone (row\<lparr>zr_serial := n\<rparr>) = (scanZone row)\<lparr>sz_serial := n\<rparr>"
    by (simp add: scanZone_def)
  have limit: "map history_entry (sql_limit k xs) = sql_limit k (map history_entry xs)" for k xs
    by (simp add: sql_limit_def take_map)
  have "sn_id new \<notin> sn_id ` set (db_snapshots (st_db s))"
    unfolding published(7) using assms(2) by (intro snapshots.insert_fresh) (auto simp: db_inv_def)
  then have "sn_id new \<notin> fst ` set (map history_entry (snapshots_desc name (st_db s)))"
    by (auto simp: history_entry_def snapshots_desc_def)
  then show ?thesis
    unfolding store_spec.simps
    by (intro change_zoneI [OF call, unfolded call_zone.simps, OF a abs_zone_row [OF published(3)]] exI [of _ "sn_id new"])
      (simp add: published(4-6,8) scan limit history_entry_def)
qed simp_all

lemma create_refine:
  assumes "CreateZone z t s = (res, s')" and "db_inv (st_db s)"
  shows "case res of Inl e \<Rightarrow> st_db s' = st_db s
    | Inr _ \<Rightarrow> store_spec L keep (Call_create z t) (abs_db (st_db s)) (abs_db (st_db s'))"
proof (cases res)
  case (Inl e)
  with assms(1) show ?thesis unfolding CreateZone_def by (auto dest: exec_error)
next
  case (Inr u)
  let ?row = "zone_to_row (zone_defaults z) t"
  have call: "run_call L (Call_create z t) s = (Inr (), s')" using assms(1) Inr by simp
  have "bindE (exec (sql_insert_zone ?row)) (\<lambda>_. insert_records (sz_name z) []) s = (Inr (), s')"
    using assms(1) Inr by (simp add: CreateZone_def bindE_def)
  from import_body_ok [OF this _ assms(2)]
  have ok: "sz_name z \<notin> set (zone_names (st_db s))" "zone_row_of (sz_name z) (st_db s') = Some ?row"
    "records_view (sz_name z) (st_db s') = []" "snapshots_desc (sz_name z) (st_db s') = []"
    by (simp_all add: records_view_def)
  have scan: "scanZone ?row = as_read (zone_defaults z)"
    by (simp add: scanZone_def zone_to_row_def as_read_def)
  have "abs_zone (sz_name z) (st_db s) = None" using ok(1) by (simp add: abs_zone_def zone_row_of_None)
  with new_zoneI [OF call, unfolded call_zone.simps, OF _ abs_zone_row [OF ok(2)]] Inr
  show ?thesis by (simp add: ok scan)
qed


lemma import_refine:
  assumes "run_call L (Call_import name content ts t) s = (res, s')" and "db_inv (st_db s)"
  shows "case res of Inl e \<Rightarrow> st_db s' = st_db s
    | Inr _ \<Rightarrow> store_spec L keep (Call_import name content ts t) (abs_db (st_db s)) (abs_db (st_db s'))"
proof -
  obtain b where imp: "ImportZone L name content ts t s = (b, s')" and b: "res = map_sum id (\<lambda>_. ()) b"
    using assms(1) by (cases "ImportZone L name content ts t s") (auto simp: bindE_return_unit)
  from imp assms(2) show ?thesis
  proof (cases rule: ImportZone_cases)
    case (nothing e)
    then show ?thesis by (simp add: b)
  next
    case (imported z soa)
    let ?row = "zone_to_row (zone_defaults (zone_of_soa name soa ts)) t"
    have scan: "scanZone ?row = as_read (zone_defaults (zone_of_soa name soa ts))"
      by (simp add: scanZone_def zone_to_row_def as_read_def)
    have "read_from L name content soa (mset (records_view name (st_db s')))"
      using imported(2,3,6)
      by (simp add: read_from_def records_view_def image_mset.compositionality o_def)
    moreover have "abs_zone name (st_db s) = None"
      using imported(4) by (simp add: abs_zone_def zone_row_of_None)
    ultimately have "store_spec L keep (Call_import name content ts t) (abs_db (st_db s)) (abs_db (st_db s'))"
      unfolding store_spec.simps
      by (intro new_zoneI [OF assms(1), unfolded call_zone.simps, OF _ abs_zone_row [OF imported(5)]] exI [of _ soa])
        (simp_all add: scan imported(7))
    then show ?thesis by (simp add: b imported(1))
  qed
qed

lemma restore_refine:
  assumes "RestoreSnapshot L name i s = (res, s')" and "db_inv (st_db s)"
  shows "case res of Inl e \<Rightarrow> st_db s' = st_db s
    | Inr _ \<Rightarrow> store_spec L keep (Call_restore name i) (abs_db (st_db s)) (abs_db (st_db s'))"
  using assms
proof (cases rule: RestoreSnapshot_cases)
  case (nothing e)
  then show ?thesis by simp
next
  case (restored content z soa)
  have call: "run_call L (Call_restore name i) s = (res, s')" using assms(1) by simp
  from snapshot_zone_exists [OF restored(2) assms(2)] obtain row where
    row: "zone_row_of name (st_db s) = Some row" by blast
  from restored(5) obtain row' where row': "zone_row_of name (st_db s') = Some row'"
    and soa: "SOAData (scanZone row') = soa" by (auto simp: zone_settings_def)
  from restored(6) row row' have "sz_targets (scanZone row') = sz_targets (scanZone row)"
    by (simp add: zone_targets_def)
  moreover have "zr_name row' = name" using zone_row_of_Some [OF row'] ..
  ultimately have settings: "scanZone row' = zone_of_soa name soa (sz_targets (scanZone row))"
    unfolding soa [symmetric] by (simp add: zone_of_soa_def SOAData_def) (simp add: scanZone_def)
  have "\<exists>n. n \<in> set (db_snapshots (st_db s)) \<and> sn_id n = i \<and> sn_zone n = name \<and> sn_content n = content"
    using restored(2) by (auto simp: snapshot_content_of_def find_Some_iff dest: nth_mem)
  then obtain n where "n \<in> set (db_snapshots (st_db s))" "sn_id n = i" "sn_zone n = name" "sn_content n = content"
    by blast
  then have "(i, sn_serial n, content) \<in> set (map history_entry (snapshots_desc name (st_db s)))"
    by (force simp: history_entry_def snapshots_desc_def)
  moreover have "read_from L name content soa (mset (records_view name (st_db s')))"
    using restored(3,4,7)
    by (simp add: read_from_def records_view_def image_mset.compositionality o_def)
  ultimately have "store_spec L keep (Call_restore name i) (abs_db (st_db s)) (abs_db (st_db s'))"
    unfolding store_spec.simps
    by (intro change_zoneI [OF call, unfolded call_zone.simps, OF abs_zone_row [OF row] abs_zone_row [OF row']]
        exI [of _ "sn_serial n"] exI [of _ content] exI [of _ soa])
      (simp add: settings restored(8))
  then show ?thesis by (simp add: restored(1))
qed

subsection \<open>Refinement\<close>

text \<open>Only \<open>Publish\<close>, which runs its statements outside a transaction, can fail half way.\<close>

definition atomic_call :: "store_call \<Rightarrow> bool" where
  "atomic_call c \<longleftrightarrow> (case c of Call_publish name content n t \<Rightarrow> False | _ \<Rightarrow> True)"

lemma call_refines:
  assumes "run_call L c s = (res, s')" and "db_inv (st_db s)"
  shows "case res of
      Inl e \<Rightarrow> atomic_call c \<longrightarrow> st_db s' = st_db s
    | Inr _ \<Rightarrow> store_spec L (st_keep s) c (abs_db (st_db s)) (abs_db (st_db s'))"
proof (cases c)
  case (Call_create z t)
  with create_refine [of z t s res s' L "st_keep s"] assms show ?thesis by (auto split: sum.splits)
next
  case (Call_settings z)
  with settings_refine [of z s res s' L "st_keep s"] assms show ?thesis by (auto split: sum.splits)
next
  case (Call_set_serial name n)
  with set_serial_refine [of name n s res s' L "st_keep s"] assms show ?thesis by (auto split: sum.splits)
next
  case (Call_delete name)
  with delete_zone_refine [of name s res s' L "st_keep s"] assms show ?thesis by (auto split: sum.splits)
next
  case (Call_import name content ts t)
  with import_refine [of L name content ts t s res s' "st_keep s"] assms show ?thesis by (auto split: sum.splits)
next
  case (Call_add_record name r)
  obtain b where "AddRecord name r s = (b, s')" and "res = map_sum id (\<lambda>_. ()) b"
    using assms(1) Call_add_record by (cases "AddRecord name r s") (auto simp: bindE_return_unit)
  with add_record_refine [of name r s b s' L "st_keep s"] assms(2) Call_add_record show ?thesis
    by (auto split: sum.splits)
next
  case (Call_update_record name i r)
  with update_record_refine [of name i r s res s' L "st_keep s"] assms show ?thesis by (auto split: sum.splits)
next
  case (Call_delete_record name i)
  with delete_record_refine [of name i s res s' L "st_keep s"] assms show ?thesis by (auto split: sum.splits)
next
  case (Call_publish name content n t)
  with publish_refine [of name content n t s s' L] assms show ?thesis
    by (cases res) (auto simp: atomic_call_def)
next
  case (Call_restore name i)
  with restore_refine [of L name i s res s' "st_keep s"] assms show ?thesis by (auto split: sum.splits)
qed

text \<open>The number of snapshots kept is fixed when the store is opened.\<close>

abbreviation keeps_limit :: "int \<Rightarrow> 'a store_op \<Rightarrow> bool" where
  "keeps_limit k m \<equiv> preserves (\<lambda>s :: store. st_keep s = k) m"

lemma limit_driver: "keeps_limit k driver"
  by (rule preservesI) simp

lemma limit_exec: "keeps_limit k (exec stmt)"
proof
  fix s :: store
  assume k: "st_keep s = k"
  obtain r s' where e: "exec stmt s = (r, s')" by (cases "exec stmt s")
  then have "st_keep s' = st_keep s" by (cases rule: exec_cases) simp_all
  with e k show "st_keep (snd (exec stmt s)) = k" by simp
qed

lemma limit_with_tx:
  assumes "keeps_limit k body"
  shows "keeps_limit k (with_tx body)"
  unfolding with_tx_def
proof (rule preserves_bindE [OF limit_driver], rule preservesI)
  fix s :: store
  assume "st_keep s = k"
  then have body: "st_keep (snd (body s)) = k" by (rule preservesD [OF assms])
  then have "st_keep (snd (driver (snd (body s)))) = k" by (rule preservesD [OF limit_driver])
  with body show "st_keep (snd (case body s of (Inl e, s') \<Rightarrow> (Inl e, s'\<lparr>st_db := st_db s\<rparr>)
      | (Inr x, s') \<Rightarrow> (case driver s' of (Inl e, s'') \<Rightarrow> (Inl e, s''\<lparr>st_db := st_db s\<rparr>)
         | (Inr _, s'') \<Rightarrow> (Inr x, s'')))) = k"
    by (auto split: prod.splits sum.splits dest: driver_result)
qed

lemma limit_query: "keeps_limit k (query q)"
  by (rule preservesI) simp

lemma limit_counted: "keeps_limit k (notFoundIfNoRows n)"
  by (auto simp: notFoundIfNoRows_def)

lemma limit_insert_records: "keeps_limit k (insert_records name recs)"
proof (induction recs)
  case Nil
  show ?case unfolding insert_records.simps by (rule preserves_returnE)
next
  case (Cons r recs)
  show ?case unfolding insert_records.simps by (intro preserves_bindE limit_exec Cons.IH)
qed

lemmas limit_rules = preserves_bindE preserves_returnE preserves_failE limit_exec limit_query limit_with_tx
  limit_counted limit_insert_records

lemma limit_prune: "keeps_limit k (\<lambda>s. exec (stmt s) s)"
  by (rule preservesI) (rule preservesD [OF limit_exec])

lemma limit_call: "keeps_limit k (run_call L c)"
proof (cases c)
  case (Call_import name content ts t)
  then show ?thesis
    by (auto simp: ImportZone_def ZoneExists_def Let_def limit_rules split: sum.split intro!: preserves_bindE)
next
  case (Call_publish name content n t)
  then show ?thesis
    by (simp add: Publish_def SetSerial_def limit_rules limit_prune)
next
  case (Call_restore name i)
  then show ?thesis
    by (auto simp: RestoreSnapshot_def Let_def limit_rules split: sum.split option.split intro!: preserves_bindE)
qed (simp_all add: CreateZone_def UpdateZoneSettings_def SetSerial_def DeleteZone_def AddRecord_def
    UpdateRecord_def DeleteRecord_def Let_def limit_rules)


subsection \<open>Sequences of calls\<close>

text \<open>
  The interface between an implementation and its specification as a relation: a call that succeeds is
  a step of the specification, one that fails and is atomic is none. Then the successful calls of
  any sequence are a run of the specification.
\<close>

fun spec_run :: "('c \<Rightarrow> 'a \<Rightarrow> 'a \<Rightarrow> bool) \<Rightarrow> 'c list \<Rightarrow> 'a \<Rightarrow> 'a \<Rightarrow> bool" where
  "spec_run R [] a b \<longleftrightarrow> a = b"
| "spec_run R (c # cs) a b \<longleftrightarrow> (\<exists>m. R c a m \<and> spec_run R cs m b)"

fun run_calls :: "('c \<Rightarrow> 's \<Rightarrow> bool \<times> 's) \<Rightarrow> 'c list \<Rightarrow> 's \<Rightarrow> ('c \<times> bool) list \<times> 's" where
  "run_calls step [] s = ([], s)"
| "run_calls step (c # cs) s =
     (let (ok, s1) = step c s; (oks, s2) = run_calls step cs s1 in ((c, ok) # oks, s2))"

locale refinement =
  fixes step :: "'c \<Rightarrow> 's \<Rightarrow> bool \<times> 's"
    and inv :: "'s \<Rightarrow> bool"
    and abs :: "'s \<Rightarrow> 'a"
    and spec :: "'c \<Rightarrow> 'a \<Rightarrow> 'a \<Rightarrow> bool"
    and atomic :: "'c \<Rightarrow> bool"
  assumes inv_step: "inv s \<Longrightarrow> inv (snd (step c s))"
    and success: "inv s \<Longrightarrow> step c s = (True, s') \<Longrightarrow> spec c (abs s) (abs s')"
    and failure: "inv s \<Longrightarrow> step c s = (False, s') \<Longrightarrow> atomic c \<Longrightarrow> abs s' = abs s"
begin

lemma refines:
  assumes "inv s" and "run_calls step cs s = (log, s')" and "\<forall>(c, ok)\<in>set log. ok \<or> atomic c"
  shows "spec_run spec (map fst (filter snd log)) (abs s) (abs s')"
  using assms
proof (induction cs arbitrary: s log)
  case Nil
  then show ?case by simp
next
  case (Cons c cs)
  obtain ok t where t: "step c s = (ok, t)" by fastforce
  obtain oks where rest: "run_calls step cs t = (oks, s')" and log: "log = (c, ok) # oks"
    using Cons.prems(2) t by (auto split: prod.splits)
  have "inv t" using inv_step [OF Cons.prems(1), of c] t by simp
  then have IH: "spec_run spec (map fst (filter snd oks)) (abs t) (abs s')"
    using Cons.IH [OF _ rest] Cons.prems(3) log by simp
  show ?case
  proof (cases ok)
    case True
    with success [OF Cons.prems(1)] t IH log show ?thesis by auto
  next
    case False
    with failure [OF Cons.prems(1)] t IH log Cons.prems(3) show ?thesis by auto
  qed
qed

end

definition call_ok :: "'r dns_lib \<Rightarrow> store_call \<Rightarrow> store \<Rightarrow> bool \<times> store" where
  "call_ok L c s = (case run_call L c s of (res, s') \<Rightarrow> (is_ok res, s'))"

interpretation zone_map: refinement "call_ok L" "\<lambda>s. db_inv (st_db s) \<and> st_keep s = k" "\<lambda>s. abs_db (st_db s)"
    "store_spec L k" atomic_call for L k
proof
  fix s :: store and c s'
  assume inv: "db_inv (st_db s) \<and> st_keep s = k"
  obtain res t where r: "run_call L c s = (res, t)" by fastforce
  have step: "call_ok L c s = (is_ok res, t)" by (simp add: call_ok_def r)
  have "db_inv (st_db t)"
    using store_step_keeps [OF zone_stmts_keep_inv, of s L c] run_call_step [of L c s] r inv by simp
  moreover have "st_keep t = k" using preservesD [OF limit_call, of s k L c] inv r by simp
  ultimately show "db_inv (st_db (snd (call_ok L c s))) \<and> st_keep (snd (call_ok L c s)) = k" by (simp add: step)
  note ref = call_refines [OF r conjunct1 [OF inv]]
  show "store_spec L k c (abs_db (st_db s)) (abs_db (st_db s'))" if "call_ok L c s = (True, s')"
    using ref that inv step by (cases res) auto
  show "abs_db (st_db s') = abs_db (st_db s)" if "call_ok L c s = (False, s')" "atomic_call c"
    using ref that inv step by (cases res) auto
qed

text \<open>
  C7: The store implements a map from names to zones (settings, records under ids, history): the
  successful calls of any sequence, in which only calls that are atomic fail, are a run of that
  specification from the map of the tables before to the map of the tables after.
\<close>
theorem store_refines_zone_map:
  assumes "db_inv (st_db s)" and "run_calls (call_ok L) cs s = (log, s')"
    and "\<forall>(c, ok)\<in>set log. ok \<or> atomic_call c"
  shows "spec_run (store_spec L (st_keep s)) (map fst (filter snd log)) (abs_db (st_db s)) (abs_db (st_db s'))"
  using assms by (intro zone_map.refines) simp_all

end
