(* ===== verification/Web_Audit.thy ===== *)
theory Web_Audit
  imports Web_Safety Store_Refinement
begin

section \<open>The audit trail of the web server\<close>

text \<open>
  Every request that changes a table leaves its line in the audit log: the handlers write the event
  after the store call that succeeded, and a store call that failed changed nothing, or is \<open>Publish\<close>,
  whose deploy is written down whatever came of it.
\<close>

definition audited :: "http_env \<Rightarrow> http_request \<Rightarrow> string \<Rightarrow> string \<Rightarrow> server_state \<Rightarrow> server_state \<Rightarrow> bool" where
  "audited e r action name st st' \<longleftrightarrow> (\<exists>ev. ev_action ev = action \<and> ev_actor ev = clientIP r \<and> ev_zone ev = name
     \<and> ss_audit st' = ss_audit st @ [marshal_event (he_audit_now e) ev @ [newline]])"

lemma on_store_audit: "on_store m st = (x, st') \<Longrightarrow> ss_audit st' = ss_audit st"
  by (auto simp: on_store_def split: prod.splits)

lemma show_records_audit: "show_records w e f err r st = (resp, st') \<Longrightarrow> ss_audit st' = ss_audit st"
  by (auto simp: show_records_def dest: on_store_audit split: prod.splits)

lemma audit_writes:
  assumes "ws_audit w = Writer" and "ev_time ev = None"
  shows "ss_audit (audit w e ev st) = ss_audit st @ [marshal_event (he_audit_now e) ev @ [newline]]"
  using assms by (simp add: audit_def audit_log_def)

lemma zone_event_fields [simp]:
  "ev_action (zone_event r action name) = action" "ev_actor (zone_event r action name) = clientIP r"
  "ev_zone (zone_event r action name) = name" "ev_time (zone_event r action name) = None"
  by (simp_all add: zone_event_def new_event_def)

lemma auditedI:
  assumes "ws_audit w = Writer" and "ss_audit st1 = ss_audit st" and "ev_time ev = None"
    and "ev_action ev = action" and "ev_actor ev = clientIP r" and "ev_zone ev = name"
  shows "audited e r action name st (audit w e ev st1)"
  unfolding audited_def using assms by (intro exI [of _ ev]) (simp add: audit_writes)

lemma audited_later: "audited e r action name st st1 \<Longrightarrow> ss_audit st2 = ss_audit st1 \<Longrightarrow> audited e r action name st st2"
  by (simp add: audited_def)

text \<open>A failed call on the store of the server.\<close>

lemma bindE_unit: "bindE m returnE = m"
  by (rule ext) (simp add: bindE_def split: prod.split sum.split)

lemma on_store_failed:
  assumes "on_store m st = (Inl err, st')" and "bindE m (\<lambda>_. returnE ()) = run_call L c"
    and "atomic_call c" and "db_inv (ss_db st)"
  shows "ss_db st' = ss_db st"
proof -
  obtain s' where m: "m (ss_store st) = (Inl err, s')" and st': "ss_db st' = st_db s'"
    using assms(1) by (auto simp: on_store_def ss_db_def split: prod.splits)
  have "run_call L c (ss_store st) = (Inl err, s')"
    unfolding assms(2) [symmetric] using m by (simp add: bindE_def)
  from call_refines [OF this] assms(3,4) show ?thesis unfolding st' by (simp add: ss_db_def)
qed

lemma failed_store_calls:
  "on_store (CreateZone z t) st = (Inl err, st') \<Longrightarrow> db_inv (ss_db st) \<Longrightarrow> ss_db st' = ss_db st"
  "on_store (UpdateZoneSettings z) st = (Inl err, st') \<Longrightarrow> db_inv (ss_db st) \<Longrightarrow> ss_db st' = ss_db st"
  "on_store (DeleteZone name) st = (Inl err, st') \<Longrightarrow> db_inv (ss_db st) \<Longrightarrow> ss_db st' = ss_db st"
  "on_store (ImportZone L name content ts t) st = (Inl err, st') \<Longrightarrow> db_inv (ss_db st) \<Longrightarrow> ss_db st' = ss_db st"
  "on_store (AddRecord name rec) st = (Inl err, st') \<Longrightarrow> db_inv (ss_db st) \<Longrightarrow> ss_db st' = ss_db st"
  "on_store (UpdateRecord name i rec) st = (Inl err, st') \<Longrightarrow> db_inv (ss_db st) \<Longrightarrow> ss_db st' = ss_db st"
  "on_store (DeleteRecord name i) st = (Inl err, st') \<Longrightarrow> db_inv (ss_db st) \<Longrightarrow> ss_db st' = ss_db st"
  "on_store (RestoreSnapshot L name i) st = (Inl err, st') \<Longrightarrow> db_inv (ss_db st) \<Longrightarrow> ss_db st' = ss_db st"
  by (erule on_store_failed [where c = "Call_create z t"], simp_all add: bindE_unit atomic_call_def)
    (erule on_store_failed [where c = "Call_settings z"], simp_all add: bindE_unit atomic_call_def,
     erule on_store_failed [where c = "Call_delete name"], simp_all add: bindE_unit atomic_call_def,
     erule on_store_failed [where c = "Call_import name content ts t" and L = L], simp_all add: atomic_call_def,
     erule on_store_failed [where c = "Call_add_record name rec"], simp_all add: atomic_call_def,
     erule on_store_failed [where c = "Call_update_record name i rec"], simp_all add: bindE_unit atomic_call_def,
     erule on_store_failed [where c = "Call_delete_record name i"], simp_all add: bindE_unit atomic_call_def,
     erule on_store_failed [where c = "Call_restore name i" and L = L], simp_all add: bindE_unit atomic_call_def)

subsection \<open>The handlers that write\<close>

lemma audited_create:
  assumes "handleCreateZone w e r st = (resp, st')" and "ws_audit w = Writer" and "db_inv (ss_db st)"
    and "ss_db st' \<noteq> ss_db st"
  shows "audited e r ''zone_create'' (trim_space (post_value r ''name'')) st st'"
proof -
  obtain x st1 where ex: "on_store (ZoneExists (trim_space (post_value r ''name''))) st = (x, st1)" by fastforce
  have st1: "ss_db st1 = ss_db st" "ss_audit st1 = ss_audit st"
    using on_read(2) [OF ex] on_store_audit [OF ex] by auto
  from assms st1 show ?thesis
    by (auto simp: handleCreateZone_def Let_def ex split: prod.splits sum.splits if_splits
        dest: failed_store_calls on_store_audit intro!: auditedI)
qed

lemma audited_import:
  assumes "handleImport w e r st = (resp, st')" and "ws_audit w = Writer" and "db_inv (ss_db st)"
    and "ss_db st' \<noteq> ss_db st"
  shows "audited e r ''zone_import'' (trim_space (post_value r ''name'')) st st'"
  using assms
  by (auto simp: handleImport_def Let_def split: prod.splits sum.splits if_splits
      dest: failed_store_calls on_store_audit intro!: auditedI)

lemma audited_settings:
  assumes "handleUpdateSettings w e r st = (resp, st')" and "ws_audit w = Writer" and "db_inv (ss_db st)"
    and "ss_db st' \<noteq> ss_db st"
  shows "audited e r ''zone_settings'' (hr_zone r) st st'"
  using assms
  by (auto simp: handleUpdateSettings_def Let_def split: prod.splits sum.splits if_splits
      dest: failed_store_calls on_store_audit intro!: auditedI)

lemma audited_delete_zone:
  assumes "handleDeleteZone w e r st = (resp, st')" and "ws_audit w = Writer" and "db_inv (ss_db st)"
    and "ss_db st' \<noteq> ss_db st"
  shows "audited e r ''zone_delete'' (hr_zone r) st st'"
  using assms
  by (auto simp: handleDeleteZone_def Let_def split: prod.splits sum.splits if_splits
      dest: failed_store_calls on_store_audit intro!: auditedI)

lemma audited_rollback:
  assumes "handleRollback w e r st = (resp, st')" and "ws_audit w = Writer" and "db_inv (ss_db st)"
    and "ss_db st' \<noteq> ss_db st"
  shows "audited e r ''rollback'' (hr_zone r) st st'"
  using assms
  by (auto simp: handleRollback_def Let_def split: prod.splits sum.splits
      dest: failed_store_calls on_store_audit intro!: auditedI)

lemma audited_show:
  assumes "show_records w e f err r (audit w e ev st1) = (resp, st')" and "ws_audit w = Writer"
    and "ss_audit st1 = ss_audit st" and "ev = zone_event r action (hr_zone r)"
  shows "audited e r action (hr_zone r) st st'"
proof (rule audited_later)
  show "audited e r action (hr_zone r) st (audit w e ev st1)"
    using assms by (intro auditedI) simp_all
  show "ss_audit st' = ss_audit (audit w e ev st1)" by (rule show_records_audit [OF assms(1)])
qed

lemma audited_add_record:
  assumes "handleAddRecord w e r st = (resp, st')" and "ws_audit w = Writer" and "db_inv (ss_db st)"
    and "ss_db st' \<noteq> ss_db st"
  shows "audited e r ''record_add'' (hr_zone r) st st'"
  using assms
  by (auto simp: handleAddRecord_def Let_def split: prod.splits sum.splits
      dest: failed_store_calls on_store_audit read_show_records intro: audited_show)

lemma audited_update_record:
  assumes "handleUpdateRecord w e r st = (resp, st')" and "ws_audit w = Writer" and "db_inv (ss_db st)"
    and "ss_db st' \<noteq> ss_db st"
  shows "audited e r ''record_update'' (hr_zone r) st st'"
  using assms
  by (auto simp: handleUpdateRecord_def Let_def split: prod.splits sum.splits
      dest: failed_store_calls on_store_audit read_show_records intro: audited_show)

lemma audited_delete_record:
  assumes "handleDeleteRecord w e r st = (resp, st')" and "ws_audit w = Writer" and "db_inv (ss_db st)"
    and "ss_db st' \<noteq> ss_db st"
  shows "audited e r ''record_delete'' (hr_zone r) st st'"
  using assms
  by (auto simp: handleDeleteRecord_def Let_def split: prod.splits sum.splits if_splits
      dest: failed_store_calls on_store_audit read_show_records intro: audited_show)

lemma audited_deploy:
  assumes "handleDeploy w e r st = (resp, st')" and "ws_audit w = Writer" and "ss_db st' \<noteq> ss_db st"
  shows "audited e r ''deploy'' (hr_zone r) st st'"
proof -
  obtain x st1 where get: "on_store (GetZone (hr_zone r)) st = (x, st1)" by fastforce
  have st1: "ss_db st1 = ss_db st" "ss_audit st1 = ss_audit st"
    using on_read(1) [OF get] on_store_audit [OF get] by auto
  obtain y st2 where build: "on_store (BuildZone (ws_lib w) (hr_zone r)) st1 = (y, st2)" by fastforce
  have st2: "ss_db st2 = ss_db st" "ss_audit st2 = ss_audit st"
    using on_read(7) [OF build] on_store_audit [OF build] st1 by auto
  have observed: "ss_audit (observe res st2) = ss_audit st" for res
    using st2 by (simp add: observe_def)
  from assms st1 st2 show ?thesis
    by (auto simp: handleDeploy_def Let_def get build observed
        split: prod.splits sum.splits option.splits if_splits
        dest: on_store_audit intro!: auditedI)
qed

lemmas audited_handlers =
  audited_create audited_import audited_settings audited_delete_zone audited_add_record
  audited_update_record audited_delete_record audited_rollback

subsection \<open>Every change leaves its line\<close>

fun action_of :: "route \<Rightarrow> string" where
  "action_of R_create_zone = ''zone_create''"
| "action_of R_import = ''zone_import''"
| "action_of R_update_settings = ''zone_settings''"
| "action_of R_delete_zone = ''zone_delete''"
| "action_of R_add_record = ''record_add''"
| "action_of R_update_record = ''record_update''"
| "action_of R_delete_record = ''record_delete''"
| "action_of R_deploy = ''deploy''"
| "action_of R_rollback = ''rollback''"
| "action_of _ = []"

lemma route_audited:
  assumes "route_handler w e rt r st = (resp, st')" and "ws_audit w = Writer" and "db_inv (ss_db st)"
    and "ss_db st' \<noteq> ss_db st"
  shows "writing_route rt \<and> audited e r (action_of rt) (target_zone rt r) st st'"
proof -
  have "writing_route rt" using route_reads [OF assms(1)] assms(4) by blast
  then show ?thesis
    using assms
    by (auto simp: writing_route_def route_handler_def Let_def target_zone_def
        elim!: requireAuth_cases dest: audited_handlers audited_deploy)
qed

lemma serve_log:
  assumes "serve w e path r st = (resp, st')"
  obtains (unrouted) "mux (hr_method r) path = None" and "ss_db st' = ss_db st"
  | (routed) rt zone st1 where "mux (hr_method r) path = Some (rt, zone)"
      and "route_handler w e rt (r\<lparr>hr_zone := zone\<rparr>) st1 = (resp, st')"
      and "ss_db st1 = ss_db st" and "ss_audit st1 = ss_audit st"
proof (cases "mux (hr_method r) path")
  case None
  with assms unrouted show thesis by (auto simp: serve_def logRequests_def serve_mux_def)
next
  case (Some p)
  with assms routed show thesis by (cases p) (auto simp: serve_def logRequests_def serve_mux_def)
qed

text \<open>
  C14: Every request that changes a table appends exactly one line to the audit log, with the
  action of its route, the address of the client and the zone it named.
\<close>
theorem every_change_is_audited:
  assumes "serve w e path r st = (resp, st')" and "ws_audit w = Writer" and "server_inv st"
    and "ss_db st' \<noteq> ss_db st"
  shows "\<exists>rt zone ev. mux (hr_method r) path = Some (rt, zone) \<and> writing_route rt
    \<and> ss_audit st' = ss_audit st @ [marshal_event (he_audit_now e) ev @ [newline]]
    \<and> ev_action ev = action_of rt \<and> ev_actor ev = clientIP r
    \<and> ev_zone ev = target_zone rt (r\<lparr>hr_zone := zone\<rparr>)"
  using assms(1)
proof (cases rule: serve_log)
  case unrouted
  with assms(4) show ?thesis by simp
next
  case (routed rt zone st1)
  have "db_inv (ss_db st1)" using assms(3) routed(3) by (simp add: server_inv_def)
  from route_audited [OF routed(2) assms(2) this] routed(1,3,4) assms(4) show ?thesis
    by (auto simp: audited_def)
qed

end
