(* ===== verification/Pipeline_Safety.thy ===== *)
theory Pipeline_Safety
  imports Pipeline
begin

section \<open>What a deploy guarantees\<close>

text \<open>
  The behaviour of each phase on one target as case rules, the events of one target within the log of
  the whole deploy, and the guarantees of \<open>Deploy\<close>: no server is changed unless every server has
  accepted the zone, the reported status is a function of how far the slowest target came, staged
  files are removed when the deploy is abandoned, and connections are opened and closed in pairs.
\<close>


subsection \<open>How far a target came\<close>

text \<open>The flags of a \<open>ServerResult\<close> are set in one order; the progress is the last one set.\<close>

datatype progress = Untouched | Staged | Checked | Moved | Reloaded | Verified

fun rank :: "progress \<Rightarrow> nat" where
  "rank Untouched = 0"
| "rank Staged = 1"
| "rank Checked = 2"
| "rank Moved = 3"
| "rank Reloaded = 4"
| "rank Verified = 5"

lemma rank_inject: "rank p = rank q \<Longrightarrow> p = q"
  by (cases p; cases q; simp)

instantiation progress :: linorder
begin

definition less_eq_progress :: "progress \<Rightarrow> progress \<Rightarrow> bool" where
  "less_eq_progress p q \<longleftrightarrow> rank p \<le> rank q"

definition less_progress :: "progress \<Rightarrow> progress \<Rightarrow> bool" where
  "less_progress p q \<longleftrightarrow> rank p < rank q"

instance
  by standard (auto simp: less_eq_progress_def less_progress_def intro: rank_inject)

end

definition progress_of :: "server_result \<Rightarrow> progress" where
  "progress_of r =
     (if sr_verified r then Verified else if sr_reloaded r then Reloaded
      else if sr_moved r then Moved else if sr_checked r then Checked
      else if sr_staged r then Staged else Untouched)"

definition flags_in_order :: "server_result \<Rightarrow> bool" where
  "flags_in_order r \<longleftrightarrow>
     (sr_verified r \<longrightarrow> sr_reloaded r) \<and> (sr_reloaded r \<longrightarrow> sr_moved r) \<and>
     (sr_moved r \<longrightarrow> sr_checked r) \<and> (sr_checked r \<longrightarrow> sr_staged r)"

lemma progress_flags:
  assumes "flags_in_order r"
  shows "sr_checked r \<longleftrightarrow> Checked \<le> progress_of r"
    and "sr_moved r \<longleftrightarrow> Moved \<le> progress_of r"
    and "sr_reloaded r \<longleftrightarrow> Reloaded \<le> progress_of r"
  using assms by (auto simp: flags_in_order_def progress_of_def less_eq_progress_def)


subsection \<open>The phases on one target, by cases\<close>

lemma set_result_simps [simp]:
  "sl_result (set_result f sl) = f (sl_result sl)"
  "sl_conn (set_result f sl) = sl_conn sl"
  "sl_tmp (set_result f sl) = sl_tmp sl"
  by (simp_all add: set_result_def)

lemma zero_slot_simps [simp]:
  "sl_result zero_slot = zero_result" "sl_conn zero_slot = False" "sl_tmp zero_slot = []"
  "sr_staged zero_result = False" "sr_checked zero_result = False" "sr_moved zero_result = False"
  "sr_reloaded zero_result = False" "sr_verified zero_result = False"
  by (simp_all add: zero_slot_def zero_result_def)

text \<open>The shape of the outcome of phase 1, from the zero slot.\<close>

lemma phase1_cases:
  assumes "phase1_target L cfg rm req i name zero_slot = (sl, evs)"
  obtains
    (not_dialed) "\<not> sl_conn sl" "evs = []" "progress_of (sl_result sl) = Untouched"
      "flags_in_order (sl_result sl)"
  | (upload_failed) "sl_conn sl" "sl_tmp sl \<noteq> []" "evs = [Dialed i, Uploaded i (sl_tmp sl) (rq_content req)]"
      "progress_of (sl_result sl) = Untouched" "flags_in_order (sl_result sl)"
  | (check_failed) cmd where "sl_conn sl" "sl_tmp sl \<noteq> []"
      "evs = [Dialed i, Uploaded i (sl_tmp sl) (rq_content req), Ran i Run_check cmd]"
      "progress_of (sl_result sl) = Staged" "flags_in_order (sl_result sl)"
  | (accepted) cmd out srv where "sl_conn sl" "sl_tmp sl \<noteq> []" "map_of (c_servers cfg) name = Some srv"
      "evs = [Dialed i, Uploaded i (sl_tmp sl) (rq_content req), Ran i Run_check cmd]"
      "cmd = checkCommand srv (dns_fqdn L (rq_zone req)) (sl_tmp sl)"
      "rm_upload rm i (sl_tmp sl) (rq_content req) = None" "rm_run rm i Run_check cmd = (out, None)"
      "progress_of (sl_result sl) = Checked" "flags_in_order (sl_result sl)"
proof (cases "map_of (c_servers cfg) name")
  case None
  then show ?thesis using assms
    by (intro not_dialed) (auto simp: phase1_target_def Let_def progress_of_def flags_in_order_def)
next
  case srv: (Some srv)
  show ?thesis
  proof (cases "rm_dial rm i srv")
    case (Some e)
    with srv show ?thesis using assms
      by (intro not_dialed) (auto simp: phase1_target_def Let_def progress_of_def flags_in_order_def)
  next
    case dial: None
    let ?tmp = "remoteTmpPath (rm_random rm i) srv (remoteFile (rq_zone req))"
    show ?thesis
    proof (cases "rm_upload rm i ?tmp (rq_content req)")
      case (Some e)
      with srv dial show ?thesis using assms
        by (intro upload_failed)
          (auto simp: phase1_target_def Let_def progress_of_def flags_in_order_def remoteTmpPath_nonempty)
    next
      case upload: None
      obtain out err where run:
        "rm_run rm i Run_check (checkCommand srv (dns_fqdn L (rq_zone req)) ?tmp) = (out, err)"
        by fastforce
      show ?thesis
      proof (cases err)
        case (Some e)
        with srv dial upload run show ?thesis using assms
          by (intro check_failed)
            (auto simp: phase1_target_def Let_def progress_of_def flags_in_order_def remoteTmpPath_nonempty)
      next
        case None
        with srv dial upload run show ?thesis using assms
          by (intro accepted)
            (auto simp: phase1_target_def Let_def progress_of_def flags_in_order_def remoteTmpPath_nonempty)
      qed
    qed
  qed
qed

lemma phase2_cases:
  assumes "phase2_target cfg rm req i name sl = (sl', evs)"
    and "progress_of (sl_result sl) = Checked" and "flags_in_order (sl_result sl)"
  obtains
    (move_failed) cmd where "cmd = moveCommand (sl_tmp sl)
        (remoteFinalPath (server_of cfg name) (remoteFile (rq_zone req)))"
      "evs = [Ran i Run_move cmd]" "snd (rm_run rm i Run_move cmd) \<noteq> None"
      "sl_conn sl' = sl_conn sl" "progress_of (sl_result sl') = Checked" "flags_in_order (sl_result sl')"
  | (moved) cmd where "cmd = moveCommand (sl_tmp sl)
        (remoteFinalPath (server_of cfg name) (remoteFile (rq_zone req)))"
      "evs = [Ran i Run_move cmd, Ran i Run_reload (reloadCommand (server_of cfg name) (rq_zone req))]"
      "snd (rm_run rm i Run_move cmd) = None"
      "sl_conn sl' = sl_conn sl" "progress_of (sl_result sl') \<in> {Moved, Reloaded}"
      "flags_in_order (sl_result sl')"
proof -
  let ?mv = "moveCommand (sl_tmp sl) (remoteFinalPath (server_of cfg name) (remoteFile (rq_zone req)))"
  obtain mout merr where mv: "rm_run rm i Run_move ?mv = (mout, merr)" by fastforce
  obtain out err where rl:
    "rm_run rm i Run_reload (reloadCommand (server_of cfg name) (rq_zone req)) = (out, err)" by fastforce
  have flags: "sr_checked (sl_result sl)" "sr_staged (sl_result sl)" "\<not> sr_moved (sl_result sl)"
      "\<not> sr_reloaded (sl_result sl)" "\<not> sr_verified (sl_result sl)"
    using assms(2,3) by (auto simp: progress_of_def flags_in_order_def split: if_splits)
  show ?thesis
  proof (cases merr)
    case (Some e)
    with assms(1) mv flags show ?thesis
      by (intro move_failed) (auto simp: phase2_target_def Let_def progress_of_def flags_in_order_def)
  next
    case None
    with assms(1) mv rl flags show ?thesis
      by (intro moved) (auto simp: phase2_target_def Let_def progress_of_def flags_in_order_def
          split: option.splits)
  qed
qed

lemma phase3_cases:
  assumes "phase3_target cfg rm req i name sl = (sl', evs)" and "flags_in_order (sl_result sl)"
  shows "sl_conn sl' = sl_conn sl" and "flags_in_order (sl_result sl')"
    and "sr_reloaded (sl_result sl') = sr_reloaded (sl_result sl)"
    and "sr_moved (sl_result sl') = sr_moved (sl_result sl)"
    and "sr_checked (sl_result sl') = sr_checked (sl_result sl)"
    and "set evs \<subseteq> {Queried i}"
  using assms
  by (auto simp: phase3_target_def flags_in_order_def split: if_splits sum.splits)


subsection \<open>A phase over all targets\<close>

fun event_target :: "event \<Rightarrow> nat" where
  "event_target (Dialed i) = i"
| "event_target (Uploaded i tmp content) = i"
| "event_target (Ran i c cmd) = i"
| "event_target (Queried i) = i"
| "event_target (Closed i) = i"

definition events_of :: "nat \<Rightarrow> event list \<Rightarrow> event list" where
  "events_of i log = filter (\<lambda>e. event_target e = i) log"

lemma events_of_append [simp]: "events_of i (a @ b) = events_of i a @ events_of i b"
  by (simp add: events_of_def)

lemma events_of_Nil [simp]: "events_of i [] = []"
  by (simp add: events_of_def)

lemma in_events_of: "e \<in> set log \<longleftrightarrow> e \<in> set (events_of (event_target e) log)"
  by (simp add: events_of_def)

text \<open>A block of events per target, one after the other.\<close>

lemma events_of_blocks:
  assumes "\<And>j. j < length blocks \<Longrightarrow> \<forall>e\<in>set (blocks ! j). event_target e = n + j"
  shows "events_of (n + i) (concat blocks) = (if i < length blocks then blocks ! i else [])"
  using assms
proof (induction blocks arbitrary: n i)
  case Nil
  then show ?case by simp
next
  case (Cons b bs)
  have b: "events_of m b = (if m = n then b else [])" for m
    using Cons.prems [of 0] by (auto simp: events_of_def filter_id_conv filter_empty_conv)
  have rest: "\<forall>e\<in>set (bs ! j). event_target e = Suc n + j" if "j < length bs" for j
    using Cons.prems [of "Suc j"] that by simp
  show ?case
  proof (cases i)
    case 0
    have "\<forall>e\<in>set (concat bs). event_target e \<noteq> n"
    proof
      fix e assume "e \<in> set (concat bs)"
      then obtain j where "j < length bs" and "e \<in> set (bs ! j)"
        by (auto simp: in_set_conv_nth [of _ bs])
      with rest have "event_target e = Suc n + j" by blast
      then show "event_target e \<noteq> n" by simp
    qed
    then have "events_of n (concat bs) = []" by (auto simp: events_of_def filter_empty_conv)
    with 0 b show ?thesis by simp
  next
    case (Suc k)
    with b Cons.IH [of "Suc n" k, OF rest] show ?thesis by simp
  qed
qed

lemma events_of_concat:
  assumes "length blocks = n" and "\<And>j. j < n \<Longrightarrow> \<forall>e\<in>set (blocks ! j). event_target e = j"
  shows "events_of i (concat blocks) = (if i < n then blocks ! i else [])"
  using events_of_blocks [of blocks 0 i] assms by auto

text \<open>The events and slots of a phase are those of its targets.\<close>

definition local_phase :: "(nat \<Rightarrow> string \<Rightarrow> slot \<Rightarrow> slot \<times> event list) \<Rightarrow> bool" where
  "local_phase f \<longleftrightarrow> (\<forall>i name sl. \<forall>e\<in>set (snd (f i name sl)). event_target e = i)"

lemma local_phases:
  "local_phase (phase1_target L cfg rm req)"
  "local_phase (phase2_target cfg rm req)"
  "local_phase (phase3_target cfg rm req)"
  by (auto simp: local_phase_def phase1_target_def phase2_target_def phase3_target_def Let_def
      split: option.splits prod.splits if_splits)

lemma run_phase_length:
  "length slots = length ts \<Longrightarrow> length (fst (run_phase f ts slots)) = length ts"
  by (simp add: run_phase_def Let_def)

lemma run_phase_nth:
  "length slots = length ts \<Longrightarrow> i < length ts \<Longrightarrow>
     fst (run_phase f ts slots) ! i = fst (f i (ts ! i) (slots ! i))"
  by (simp add: run_phase_def Let_def nth_enumerate_eq)

lemma run_phase_events:
  assumes "local_phase f" and "length slots = length ts"
  shows "events_of i (snd (run_phase f ts slots)) =
    (if i < length ts then snd (f i (ts ! i) (slots ! i)) else [])"
proof -
  let ?outs = "map (\<lambda>(i, name, sl). f i name sl) (enumerate 0 (zip ts slots))"
  have "events_of i (concat (map snd ?outs)) = (if i < length ts then map snd ?outs ! i else [])"
    using assms by (intro events_of_concat) (auto simp: nth_enumerate_eq local_phase_def)
  then show ?thesis
    using assms(2) by (auto simp: run_phase_def Let_def nth_enumerate_eq)
qed

lemma closeAll_events:
  "events_of i (closeAll slots) = (if i < length slots \<and> sl_conn (slots ! i) then [Closed i] else [])"
proof -
  let ?blocks = "map (\<lambda>(i, sl). if sl_conn sl then [Closed i] else []) (enumerate 0 slots)"
  have "events_of i (concat ?blocks) = (if i < length slots then ?blocks ! i else [])"
    by (rule events_of_concat) (auto simp: nth_enumerate_eq)
  then show ?thesis by (auto simp: closeAll_def nth_enumerate_eq)
qed

lemma cleanup_events:
  "events_of i (cleanup rm slots) = (if i < length slots then cleanup_target rm i (slots ! i) else [])"
proof -
  let ?blocks = "map (\<lambda>(i, sl). cleanup_target rm i sl) (enumerate 0 slots)"
  have "events_of i (concat ?blocks) = (if i < length slots then ?blocks ! i else [])"
    by (rule events_of_concat) (auto simp: nth_enumerate_eq cleanup_target_def)
  then show ?thesis by (auto simp: cleanup_def nth_enumerate_eq)
qed


subsection \<open>The runs of Deploy\<close>

text \<open>The slots after each phase.\<close>

definition slots1 :: "'r dns_lib \<Rightarrow> config \<Rightarrow> remote \<Rightarrow> request \<Rightarrow> slot list" where
  "slots1 L cfg rm req = fst (run_phase (phase1_target L cfg rm req) (rq_targets req)
     (replicate (length (rq_targets req)) zero_slot))"

definition slots2 :: "'r dns_lib \<Rightarrow> config \<Rightarrow> remote \<Rightarrow> request \<Rightarrow> slot list" where
  "slots2 L cfg rm req = fst (run_phase (phase2_target cfg rm req) (rq_targets req) (slots1 L cfg rm req))"

definition slots3 :: "'r dns_lib \<Rightarrow> config \<Rightarrow> remote \<Rightarrow> request \<Rightarrow> slot list" where
  "slots3 L cfg rm req = fst (run_phase (phase3_target cfg rm req) (rq_targets req) (slots2 L cfg rm req))"

definition log1 :: "'r dns_lib \<Rightarrow> config \<Rightarrow> remote \<Rightarrow> request \<Rightarrow> event list" where
  "log1 L cfg rm req = snd (run_phase (phase1_target L cfg rm req) (rq_targets req)
     (replicate (length (rq_targets req)) zero_slot))"

definition log23 :: "'r dns_lib \<Rightarrow> config \<Rightarrow> remote \<Rightarrow> request \<Rightarrow> event list" where
  "log23 L cfg rm req =
     snd (run_phase (phase2_target cfg rm req) (rq_targets req) (slots1 L cfg rm req))
     @ snd (run_phase (phase3_target cfg rm req) (rq_targets req) (slots2 L cfg rm req))"

definition all_accepted :: "'r dns_lib \<Rightarrow> config \<Rightarrow> remote \<Rightarrow> request \<Rightarrow> bool" where
  "all_accepted L cfg rm req = list_all (\<lambda>sl. sr_checked (sl_result sl)) (slots1 L cfg rm req)"

lemma slots_length [simp]:
  "length (slots1 L cfg rm req) = length (rq_targets req)"
  "length (slots2 L cfg rm req) = length (rq_targets req)"
  "length (slots3 L cfg rm req) = length (rq_targets req)"
  by (simp_all add: slots1_def slots2_def slots3_def run_phase_length)

lemma Deploy_cases:
  assumes "Deploy L cfg ce rm req = (res, err, log)"
  obtains
    (refused) e where "err = Some e" "log = []" "res = base_result req"
  | (abandoned) "err = None" "rq_targets req \<noteq> []" "\<not> all_accepted L cfg rm req"
      "res = base_result req \<lparr>dr_servers := map sl_result (slots1 L cfg rm req)\<rparr>"
      "log = log1 L cfg rm req @ cleanup rm (slots1 L cfg rm req) @ closeAll (slots1 L cfg rm req)"
  | (committed) "err = None" "rq_targets req \<noteq> []" "all_accepted L cfg rm req"
      "res = base_result req \<lparr>dr_servers := map sl_result (slots3 L cfg rm req),
         dr_status := final_status (map sl_result (slots3 L cfg rm req))\<rparr>"
      "log = log1 L cfg rm req @ log23 L cfg rm req @ closeAll (slots3 L cfg rm req)"
proof (cases "rq_targets req = []")
  case True
  with assms have "err = Some No_targets" "log = []" "res = base_result req"
    by (auto simp: Deploy_def Let_def)
  then show ?thesis by (rule that(1))
next
  case targets: False
  obtain out cerr where check: "Check L ce [] (rq_zone req) (rq_content req) = (out, cerr)" by fastforce
  show ?thesis
  proof (cases "\<exists>e. cerr = Some (Exit_error e)")
    case True
    with assms check targets that(1) show ?thesis by (auto simp: Deploy_def Let_def)
  next
    case ok: False
    have run: "Deploy L cfg ce rm req =
      (if \<not> all_accepted L cfg rm req then
         (base_result req \<lparr>dr_servers := map sl_result (slots1 L cfg rm req)\<rparr>, None,
          log1 L cfg rm req @ cleanup rm (slots1 L cfg rm req) @ closeAll (slots1 L cfg rm req))
       else
         (base_result req \<lparr>dr_servers := map sl_result (slots3 L cfg rm req),
            dr_status := final_status (map sl_result (slots3 L cfg rm req))\<rparr>, None,
          log1 L cfg rm req @ log23 L cfg rm req @ closeAll (slots3 L cfg rm req)))"
      using targets check ok
      by (simp add: Deploy_def Let_def all_accepted_def slots1_def slots2_def slots3_def log1_def log23_def
          split: prod.splits option.splits check_error.splits)
    show ?thesis
      using assms that(2,3) targets unfolding run by (auto split: if_splits)
  qed
qed


subsection \<open>One target within a deploy\<close>

lemma slots1_nth:
  assumes "i < length (rq_targets req)"
  shows "phase1_target L cfg rm req i (rq_targets req ! i) zero_slot =
    (slots1 L cfg rm req ! i, events_of i (log1 L cfg rm req))"
  using assms by (simp add: slots1_def log1_def run_phase_nth run_phase_events local_phases prod_eq_iff)

lemma slots2_nth:
  "i < length (rq_targets req) \<Longrightarrow>
     slots2 L cfg rm req ! i = fst (phase2_target cfg rm req i (rq_targets req ! i) (slots1 L cfg rm req ! i))"
  by (simp add: slots2_def run_phase_nth)

lemma slots3_nth:
  "i < length (rq_targets req) \<Longrightarrow>
     slots3 L cfg rm req ! i = fst (phase3_target cfg rm req i (rq_targets req ! i) (slots2 L cfg rm req ! i))"
  by (simp add: slots3_def run_phase_nth)

lemma log1_outside: "\<not> i < length (rq_targets req) \<Longrightarrow> events_of i (log1 L cfg rm req) = []"
  by (simp add: log1_def run_phase_events local_phases)

lemma log23_events:
  "events_of i (log23 L cfg rm req) =
     (if i < length (rq_targets req)
      then snd (phase2_target cfg rm req i (rq_targets req ! i) (slots1 L cfg rm req ! i))
           @ snd (phase3_target cfg rm req i (rq_targets req ! i) (slots2 L cfg rm req ! i))
      else [])"
  by (simp add: log23_def run_phase_events local_phases)

lemma target_phase1:
  assumes "i < length (rq_targets req)"
  shows "flags_in_order (sl_result (slots1 L cfg rm req ! i))"
    and "\<not> sr_moved (sl_result (slots1 L cfg rm req ! i))"
    and "\<not> Checked < progress_of (sl_result (slots1 L cfg rm req ! i))"
    and "\<forall>e\<in>set (events_of i (log1 L cfg rm req)).
      e \<in> {Dialed i} \<or> (\<exists>tmp. e = Uploaded i tmp (rq_content req)) \<or> (\<exists>cmd. e = Ran i Run_check cmd)"
proof -
  note run1 = slots1_nth [OF assms, where L = L and cfg = cfg and rm = rm]
  from run1 show "flags_in_order (sl_result (slots1 L cfg rm req ! i))"
    by (rule phase1_cases) simp_all
  then have "sr_moved (sl_result (slots1 L cfg rm req ! i)) \<Longrightarrow>
      Moved \<le> progress_of (sl_result (slots1 L cfg rm req ! i))"
    by (simp add: progress_flags)
  moreover from run1
  show *: "\<not> Checked < progress_of (sl_result (slots1 L cfg rm req ! i))"
    by (rule phase1_cases) (simp_all add: less_progress_def)
  ultimately show "\<not> sr_moved (sl_result (slots1 L cfg rm req ! i))"
    by (auto simp: less_eq_progress_def less_progress_def)
  from run1
  show "\<forall>e\<in>set (events_of i (log1 L cfg rm req)).
      e \<in> {Dialed i} \<or> (\<exists>tmp. e = Uploaded i tmp (rq_content req)) \<or> (\<exists>cmd. e = Ran i Run_check cmd)"
    by (rule phase1_cases) simp_all
qed

lemma accepted_target:
  assumes "all_accepted L cfg rm req" and "i < length (rq_targets req)"
  shows "sr_checked (sl_result (slots1 L cfg rm req ! i))"
    and "progress_of (sl_result (slots1 L cfg rm req ! i)) = Checked"
proof -
  show c: "sr_checked (sl_result (slots1 L cfg rm req ! i))"
    using assms by (simp add: all_accepted_def list_all_length)
  with progress_flags(1) [OF target_phase1(1) [OF assms(2)]] target_phase1(3) [OF assms(2)]
  show "progress_of (sl_result (slots1 L cfg rm req ! i)) = Checked"
    by (metis antisym_conv1)
qed

text \<open>A target that accepted the zone, after the two later phases.\<close>

lemma committed_target:
  assumes "all_accepted L cfg rm req" and "i < length (rq_targets req)"
  obtains cmd reload tail where
    "flags_in_order (sl_result (slots3 L cfg rm req ! i))"
    "sr_checked (sl_result (slots3 L cfg rm req ! i))"
    "sl_conn (slots3 L cfg rm req ! i) = sl_conn (slots1 L cfg rm req ! i)"
    "cmd = moveCommand (sl_tmp (slots1 L cfg rm req ! i))
       (remoteFinalPath (server_of cfg (rq_targets req ! i)) (remoteFile (rq_zone req)))"
    "events_of i (log23 L cfg rm req) = Ran i Run_move cmd # reload @ tail"
    "reload = (if sr_moved (sl_result (slots3 L cfg rm req ! i))
       then [Ran i Run_reload (reloadCommand (server_of cfg (rq_targets req ! i)) (rq_zone req))] else [])"
    "set tail \<subseteq> {Queried i}"
    "sr_moved (sl_result (slots3 L cfg rm req ! i)) \<longleftrightarrow> snd (rm_run rm i Run_move cmd) = None"
proof -
  let ?name = "rq_targets req ! i"
  let ?s1 = "slots1 L cfg rm req ! i"
  obtain s2 ev2 where p2: "phase2_target cfg rm req i ?name ?s1 = (s2, ev2)" by fastforce
  obtain s3 ev3 where p3: "phase3_target cfg rm req i ?name s2 = (s3, ev3)" by fastforce
  have s2: "slots2 L cfg rm req ! i = s2" and s3: "slots3 L cfg rm req ! i = s3"
    and ev: "events_of i (log23 L cfg rm req) = ev2 @ ev3"
    using assms(2) p2 p3 by (simp_all add: slots2_nth slots3_nth log23_events)
  from p2 accepted_target(2) [OF assms] target_phase1(1) [OF assms(2)] show ?thesis
  proof (cases rule: phase2_cases)
    case (move_failed cmd)
    from phase3_cases [OF p3 move_failed(6)] move_failed progress_flags [OF move_failed(6)]
    show ?thesis
      by (intro that [of cmd "[]" ev3]) (auto simp: s3 ev less_eq_progress_def)
  next
    case (moved cmd)
    from phase3_cases [OF p3 moved(6)] moved progress_flags [OF moved(6)]
    show ?thesis
      by (intro that [of cmd "[Ran i Run_reload (reloadCommand (server_of cfg ?name) (rq_zone req))]" ev3])
        (auto simp: s3 ev less_eq_progress_def)
  qed
qed


subsection \<open>The guarantees\<close>

lemma in_prefix:
  assumes "a @ b = pre @ e # post" and "e \<notin> set a"
  shows "set a \<subseteq> set pre"
proof -
  have "prefix a (pre @ e # post)" using assms(1) by (metis prefixI)
  moreover have "prefix pre (pre @ e # post)" by simp
  ultimately have "prefix a pre \<or> prefix pre a" by (metis prefix_same_cases)
  then show ?thesis
  proof
    assume "prefix pre a"
    then obtain zs where "a = pre @ zs" by (auto simp: prefix_def)
    with assms show ?thesis by (cases zs) auto
  qed (auto simp: prefix_def)
qed

lemma log1_no_change: "c \<noteq> Run_check \<Longrightarrow> Ran i c cmd \<notin> set (log1 L cfg rm req)"
  using target_phase1(4) [of i req L cfg rm] log1_outside [of i req L cfg rm]
    in_events_of [of "Ran i c cmd" "log1 L cfg rm req"]
  by (cases "i < length (rq_targets req)") auto

lemma cleanup_no_change: "c \<noteq> Run_remove \<Longrightarrow> Ran i c cmd \<notin> set (cleanup rm sls)"
  using in_events_of [of "Ran i c cmd" "cleanup rm sls"]
  by (auto simp: cleanup_events cleanup_target_def split: if_splits)

lemma closeAll_no_run: "Ran i c cmd \<notin> set (closeAll sls)"
  using in_events_of [of "Ran i c cmd" "closeAll sls"] by (auto simp: closeAll_events split: if_splits)

text \<open>
  C1: Two-phase deploy: whenever Deploy moves a file into place or reloads a server (the event at
  any point of its log), every target of the request was found in the configuration, had received
  the content and had accepted it with named-checkzone, all earlier in the log.
\<close>
theorem no_change_unless_all_accept:
  assumes "Deploy L cfg ce rm req = (res, err, log)"
    and "log = pre @ Ran i c cmd # post" and "c = Run_move \<or> c = Run_reload"
    and "k < length (rq_targets req)"
  shows "\<exists>srv tmp. map_of (c_servers cfg) (rq_targets req ! k) = Some srv
    \<and> Uploaded k tmp (rq_content req) \<in> set pre
    \<and> rm_upload rm k tmp (rq_content req) = None
    \<and> Ran k Run_check (checkCommand srv (dns_fqdn L (rq_zone req)) tmp) \<in> set pre
    \<and> snd (rm_run rm k Run_check (checkCommand srv (dns_fqdn L (rq_zone req)) tmp)) = None"
  using assms(1)
proof (cases rule: Deploy_cases)
  case (refused e)
  with assms(2) show ?thesis by simp
next
  case abandoned
  have c: "c \<noteq> Run_check" "c \<noteq> Run_remove" using assms(3) by auto
  have "Ran i c cmd \<notin> set (log1 L cfg rm req)" and "Ran i c cmd \<notin> set (cleanup rm sls)" for sls
    by (rule log1_no_change [OF c(1)]) (rule cleanup_no_change [OF c(2)])
  then have "Ran i c cmd \<notin> set log" by (simp add: abandoned(5) closeAll_no_run)
  with assms(2) show ?thesis by simp
next
  case committed
  have "set (log1 L cfg rm req) \<subseteq> set pre"
    by (rule in_prefix [OF trans [OF committed(5) [symmetric] assms(2)]])
      (rule log1_no_change, use assms(3) in auto)
  then have in_pre: "e \<in> set pre" if "e \<in> set (events_of k (log1 L cfg rm req))" for e
    using that by (auto simp: events_of_def)
  have checked: "progress_of (sl_result (slots1 L cfg rm req ! k)) = Checked"
    using committed(3) assms(4) by (rule accepted_target)
  from slots1_nth [OF assms(4), where L = L and cfg = cfg and rm = rm] show ?thesis
  proof (cases rule: phase1_cases)
    case (accepted cmd' out srv)
    with in_pre show ?thesis by (intro exI [of _ srv] exI [of _ "sl_tmp (slots1 L cfg rm req ! k)"]) simp
  qed (use checked in simp_all)
qed

definition status_of_progress :: "progress \<Rightarrow> status" where
  "status_of_progress p =
     (if p < Checked then StatusFailed else if p < Reloaded then StatusPartial else StatusSuccess)"

lemma final_status_iff:
  "final_status rs = (if \<forall>r\<in>set rs. sr_moved r \<and> sr_reloaded r then StatusSuccess else StatusPartial)"
proof -
  have "foldl (\<lambda>st r. if \<not> sr_moved r \<or> \<not> sr_reloaded r then StatusPartial else st) st rs =
      (if \<forall>r\<in>set rs. sr_moved r \<and> sr_reloaded r then st else StatusPartial)" for st
    by (induction rs arbitrary: st) auto
  then show ?thesis by (simp add: final_status_def)
qed

lemma Min_progress_less_iff:
  "rs \<noteq> [] \<Longrightarrow> Min (progress_of ` set rs) < p \<longleftrightarrow> (\<exists>r\<in>set rs. progress_of r < p)"
  by (subst Min_less_iff) auto

text \<open>
  C10: When Deploy returns no error it reports one result per target, the flags of each are set in
  the order staged, checked, moved, reloaded, verified, and the status is a function of the least
  progress among the targets: failed below checked, partial below reloaded, success otherwise.
\<close>
theorem status_is_slowest_target:
  assumes "Deploy L cfg ce rm req = (res, None, log)"
  shows "length (dr_servers res) = length (rq_targets req) \<and> dr_servers res \<noteq> []
    \<and> list_all flags_in_order (dr_servers res)
    \<and> dr_status res = status_of_progress (Min (progress_of ` set (dr_servers res)))"
  using assms
proof (cases rule: Deploy_cases)
  case (refused e)
  then show ?thesis by simp
next
  case abandoned
  let ?rs = "map sl_result (slots1 L cfg rm req)"
  have flags: "flags_in_order (sl_result (slots1 L cfg rm req ! i))" if "i < length (rq_targets req)" for i
    using that by (rule target_phase1)
  obtain k where k: "k < length (rq_targets req)" "\<not> sr_checked (sl_result (slots1 L cfg rm req ! k))"
    using abandoned(3) by (auto simp: all_accepted_def list_all_length)
  with progress_flags(1) [OF flags [OF k(1)]] have "progress_of (?rs ! k) < Checked" by simp
  moreover have "?rs ! k \<in> set ?rs" using k by (intro nth_mem) simp
  moreover have "?rs \<noteq> []" using k by (metis length_map less_nat_zero_code list.size(3) slots_length(1))
  ultimately have "Min (progress_of ` set ?rs) < Checked" by (subst Min_progress_less_iff) blast+
  with \<open>?rs \<noteq> []\<close> show ?thesis
    by (simp add: abandoned(4) list_all_length flags status_of_progress_def base_result_def)
next
  case committed
  let ?rs = "map sl_result (slots3 L cfg rm req)"
  have each: "flags_in_order (?rs ! i) \<and> sr_checked (?rs ! i)" if "i < length (rq_targets req)" for i
    using committed_target [OF committed(3) that] that by (metis nth_map slots_length(3))
  then have all: "flags_in_order r \<and> sr_checked r" if "r \<in> set ?rs" for r
    using that by (metis in_set_conv_nth length_map slots_length(3))
  have ne: "?rs \<noteq> []" using committed(2) by (metis length_0_conv length_map slots_length(3))
  have pr: "\<not> progress_of r < Checked \<and> (progress_of r < Reloaded \<longleftrightarrow> \<not> (sr_moved r \<and> sr_reloaded r))"
    if "r \<in> set ?rs" for r
  proof -
    have f: "flags_in_order r" and c: "sr_checked r" using all [OF that] by auto
    have "sr_reloaded r \<Longrightarrow> sr_moved r" using f by (simp add: flags_in_order_def)
    then show ?thesis using c unfolding progress_flags(1,3) [OF f] not_less [symmetric] by blast
  qed
  then have "\<not> Min (progress_of ` set ?rs) < Checked"
    unfolding Min_progress_less_iff [OF ne] by blast
  moreover have "Min (progress_of ` set ?rs) < Reloaded \<longleftrightarrow> \<not> (\<forall>r\<in>set ?rs. sr_moved r \<and> sr_reloaded r)"
    unfolding Min_progress_less_iff [OF ne] using pr by blast
  ultimately have "final_status ?rs = status_of_progress (Min (progress_of ` set ?rs))"
    unfolding final_status_iff status_of_progress_def by simp
  moreover have "list_all flags_in_order ?rs" using all by (simp add: list_all_iff)
  ultimately show ?thesis using ne by (simp add: committed(4))
qed

text \<open>
  C21: No connection leaks: the events of a target are none, or they begin with the one dial of
  its connection and end with the one close of it.
\<close>
theorem connections_are_bracketed:
  assumes "Deploy L cfg ce rm req = (res, err, log)"
  shows "events_of i log = [] \<or>
    (\<exists>mid. events_of i log = Dialed i # mid @ [Closed i] \<and> Dialed i \<notin> set mid \<and> Closed i \<notin> set mid)"
proof (cases "i < length (rq_targets req)")
  case False
  from assms show ?thesis
    by (cases rule: Deploy_cases) (use False in \<open>simp_all add: log1_outside log23_events cleanup_events closeAll_events\<close>)
next
  case i: True
  let ?s1 = "slots1 L cfg rm req ! i"
  note run1 = slots1_nth [OF i, where L = L and cfg = cfg and rm = rm]
  from run1 have not_conn: "\<not> sl_conn ?s1 \<Longrightarrow> events_of i (log1 L cfg rm req) = []"
    by (cases rule: phase1_cases) simp_all
  from run1 have conn: "sl_conn ?s1 \<Longrightarrow> \<exists>m. events_of i (log1 L cfg rm req) = Dialed i # m \<and>
      Dialed i \<notin> set m \<and> Closed i \<notin> set m"
    by (cases rule: phase1_cases) simp_all
  from assms show ?thesis
  proof (cases rule: Deploy_cases)
    case (refused e)
    then show ?thesis by simp
  next
    case abandoned
    with i not_conn conn show ?thesis
      by (cases "sl_conn ?s1") (auto simp: cleanup_events closeAll_events cleanup_target_def)
  next
    case committed
    from run1 have "sl_conn ?s1"
      by (cases rule: phase1_cases) (use accepted_target [OF committed(3) i] in simp_all)
    then obtain m where m: "events_of i (log1 L cfg rm req) = Dialed i # m" "Dialed i \<notin> set m" "Closed i \<notin> set m"
      using conn by blast
    from committed(3) i show ?thesis
    proof (cases rule: committed_target)
      case (1 cmd reload tail)
      have "Dialed i \<notin> set tail" "Closed i \<notin> set tail" using 1(7) by auto
      moreover have "Dialed i \<notin> set reload" "Closed i \<notin> set reload" using 1(6) by auto
      ultimately show ?thesis
        using m i 1(3,5) \<open>sl_conn ?s1\<close> unfolding committed(5)
        by (intro disjI2 exI [of _ "m @ Ran i Run_move cmd # reload @ tail"]) (simp add: closeAll_events)
    qed
  qed
qed

lemma AllMoved_moves:
  assumes "Deploy L cfg ce rm req = (res, err, log)"
  shows "AllMoved res \<longleftrightarrow> err = None \<and>
    (\<forall>i<length (rq_targets req). \<exists>cmd. Ran i Run_move cmd \<in> set log \<and> snd (rm_run rm i Run_move cmd) = None)"
  using assms
proof (cases rule: Deploy_cases)
  case (refused e)
  then show ?thesis by (simp add: AllMoved_def base_result_def)
next
  case abandoned
  have "\<not> AllMoved res"
    using abandoned(2) target_phase1(2) [of 0 req]
    by (auto simp: AllMoved_def abandoned(4) list_all_length)
  moreover have "Ran 0 Run_move cmd \<notin> set log" for cmd
    by (simp add: abandoned(5) log1_no_change cleanup_no_change closeAll_no_run)
  ultimately show ?thesis using abandoned(2) by auto
next
  case committed
  have each: "sr_moved (sl_result (slots3 L cfg rm req ! i)) \<longleftrightarrow>
      (\<exists>cmd. Ran i Run_move cmd \<in> set log \<and> snd (rm_run rm i Run_move cmd) = None)"
    if i: "i < length (rq_targets req)" for i
    using committed(3) i
  proof (cases rule: committed_target)
    case (1 cmd reload tail)
    have "Ran i Run_move c \<in> set log \<longleftrightarrow> c = cmd" for c
    proof -
      have "Ran i Run_move c \<in> set log \<longleftrightarrow> Ran i Run_move c \<in> set (events_of i (log23 L cfg rm req))"
        by (simp add: committed(5) log1_no_change closeAll_no_run) (simp add: events_of_def)
      also have "\<dots> \<longleftrightarrow> c = cmd" using 1(5-7) by auto
      finally show ?thesis .
    qed
    with 1(8) show ?thesis by simp
  qed
  have "AllMoved res \<longleftrightarrow> (\<forall>i<length (rq_targets req). sr_moved (sl_result (slots3 L cfg rm req ! i)))"
    using committed(2) by (simp add: AllMoved_def committed(4) list_all_length)
  with each committed(1) show ?thesis by simp
qed

text \<open>
  C11: AllMoved, the condition on which the caller records the content as published, holds exactly
  when Deploy returned no error and on every target the move command was run and returned no
  error.
\<close>
theorem AllMoved_iff_every_move_succeeded:
  assumes "Deploy L cfg ce rm req = (res, err, log)"
  shows "AllMoved res \<longleftrightarrow> err = None \<and>
    (\<forall>i<length (rq_targets req). \<exists>cmd. Ran i Run_move cmd \<in> set log \<and> snd (rm_run rm i Run_move cmd) = None)"
  using assms by (rule AllMoved_moves)

end
