(* ===== verification/Web_Deploy.thy ===== *)
theory Web_Deploy
  imports Web_Safety Store_Refinement Pipeline_Safety
begin

section \<open>Deploying from the web server\<close>

text \<open>
  \<open>handleDeploy\<close> sees the pipeline through the interface \<open>Deployer\<close> of \<open>internal/web/server.go\<close>. What it
  relies on is the locale \<open>deployer\<close>; the pipeline of \<open>internal/deploy\<close> satisfies it.
\<close>

definition pipeline_deploy ::
    "'r dns_lib \<Rightarrow> config \<Rightarrow> check_env \<Rightarrow> remote \<Rightarrow> request \<Rightarrow> deploy_result option \<times> deploy_error option" where
  "pipeline_deploy L cfg ce rm rq = (case Deploy L cfg ce rm rq of (res, err, log) \<Rightarrow> (Some res, err))"

definition move_succeeded :: "'r dns_lib \<Rightarrow> config \<Rightarrow> check_env \<Rightarrow> remote \<Rightarrow> request \<Rightarrow> nat \<Rightarrow> bool" where
  "move_succeeded L cfg ce rm rq i \<longleftrightarrow>
     (case Deploy L cfg ce rm rq of (res, err, log) \<Rightarrow>
        \<exists>cmd. Ran i Run_move cmd \<in> set log \<and> snd (rm_run rm i Run_move cmd) = None)"

subsection \<open>What the handler reads\<close>

lemma GetZone_ok:
  assumes "on_store (GetZone name) st = (Inr z, st')"
  shows "\<exists>row. zone_row_of name (ss_db st) = Some row \<and> z = scanZone row"
proof -
  obtain s' where "GetZone name (ss_store st) = (Inr z, s')"
    using assms by (auto simp: on_store_def split: prod.splits)
  then show ?thesis
    by (auto simp: GetZone_def ss_db_def elim!: bindE_cases dest!: query_ok split: option.splits)
qed

lemma BuildZone_ok:
  assumes "on_store (BuildZone L name) st = (Inr built, st')" and "zone_row_of name (ss_db st) = Some row"
  shows "Build L name (SOAData (scanZone row)) (map snd (records_view name (ss_db st))) = Inr built"
proof -
  obtain s' where b: "BuildZone L name (ss_store st) = (Inr built, s')"
    using assms(1) by (auto simp: on_store_def split: prod.splits)
  have "sz_name (scanZone row) = name" using zone_row_of_Some [OF assms(2)] by (simp add: scanZone_def)
  with b assms(2) show ?thesis
    by (auto simp: BuildZone_def GetZone_def RecordsOf_def ss_db_def records_view_def elim!: bindE_cases
        dest!: query_ok split: option.splits sum.splits)
qed

lemma keep_read:
  assumes "on_store m st = (x, st')" and "\<And>k. keeps_limit k m"
  shows "st_keep (ss_store st') = st_keep (ss_store st)"
  using assms(1) preservesD [OF assms(2) refl, of "ss_store st"]
  by (auto simp: on_store_def split: prod.splits)

lemma limit_GetZone: "keeps_limit k (GetZone name)"
  by (auto simp: GetZone_def limit_rules split: option.split intro!: preserves_bindE)

lemma limit_BuildZone: "keeps_limit k (BuildZone L name)"
  unfolding BuildZone_def RecordsOf_def
  by (intro preserves_bindE limit_GetZone limit_query) (auto simp: limit_rules split: sum.split)

text \<open>The request the handler builds from what it reads.\<close>

definition deploy_request :: "'r dns_lib \<Rightarrow> string \<Rightarrow> 'r zone \<Rightarrow> u32 \<Rightarrow> u32 \<Rightarrow> string list \<Rightarrow> request" where
  "deploy_request L name built old new targets =
     \<lparr>rq_zone = name, rq_content = Render L built, rq_old_serial = old, rq_new_serial = new, rq_targets = targets\<rparr>"

subsection \<open>The interface of the handler to the pipeline\<close>

locale deployer =
  fixes deploy :: "request \<Rightarrow> deploy_result option \<times> deploy_error option"
    and live :: "request \<Rightarrow> nat \<Rightarrow> bool"
  assumes reply: "fst (deploy rq) \<noteq> None"
    and of_request: "deploy rq = (Some res, err) \<Longrightarrow> dr_zone res = rq_zone rq
      \<and> dr_old_serial res = rq_old_serial rq \<and> dr_new_serial res = rq_new_serial rq \<and> \<not> dr_promoted res"
    and all_moved: "deploy rq = (Some res, err) \<Longrightarrow>
      AllMoved res \<longleftrightarrow> err = None \<and> (\<forall>i<length (rq_targets rq). live rq i)"
    and has_targets: "deploy rq = (Some res, None) \<Longrightarrow> rq_targets rq \<noteq> []"
begin

lemma handler_run:
  assumes "ws_deploy w = deploy"
    and "on_store (GetZone (hr_zone r)) st = (Inr z, st1)"
    and "on_store (BuildZone (ws_lib w) (hr_zone r)) st1 = (Inr built, st2)"
    and "BumpSerial (c_serial_policy (ws_cfg w)) (he_now e) built = (Inr (old, new), built')"
    and "deploy (deploy_request (ws_lib w) (hr_zone r) built' old new (sz_targets z)) = (Some res, None)"
    and "AllMoved res"
    and "on_store (Publish (hr_zone r) (Render (ws_lib w) built') new (he_created e)) (observe res st2) = (pub, st4)"
  shows "handleDeploy w e r st =
    (let res' = (if is_ok pub then res\<lparr>dr_promoted := True\<rparr> else res)
     in (page w e r (''Deploy '' @ hr_zone r) (C_deploy (hr_zone r) (Some res') None),
         audit w e ((zone_event r ''deploy'' (hr_zone r))
           \<lparr>ev_status := status_text (dr_status res'), ev_old_serial := dr_old_serial res',
            ev_new_serial := dr_new_serial res', ev_servers := serverSummaries (dr_servers res')\<rparr>) st4))"
  using assms by (simp add: handleDeploy_def deploy_request_def Let_def)

text \<open>What the handler did, when it published and when it did not.\<close>

lemma handler_cases:
  assumes "handleDeploy w e r st = (resp, st')" and "ws_deploy w = deploy"
  obtains (unpublished) "ss_db st' = ss_db st"
      and "\<And>t n res err. rs_body resp = Page t n (C_deploy (hr_zone r) (Some res) err) \<Longrightarrow> \<not> dr_promoted res"
  | (published) row built old new built' rq res pub st1 st2 where "zone_row_of (hr_zone r) (ss_db st) = Some row"
      and "Build (ws_lib w) (hr_zone r) (SOAData (scanZone row)) (map snd (records_view (hr_zone r) (ss_db st))) = Inr built"
      and "BumpSerial (c_serial_policy (ws_cfg w)) (he_now e) built = (Inr (old, new), built')"
      and "rq = deploy_request (ws_lib w) (hr_zone r) built' old new (sz_targets (scanZone row))"
      and "deploy rq = (Some res, None)" and "rq_targets rq \<noteq> []" and "\<forall>i<length (rq_targets rq). live rq i"
      and "on_store (Publish (hr_zone r) (Render (ws_lib w) built') new (he_created e)) st1 = (pub, st2)"
      and "ss_db st1 = ss_db st" and "st_keep (ss_store st1) = st_keep (ss_store st)" and "ss_db st' = ss_db st2"
      and "\<exists>t. rs_body resp = Page t (csrfOf (currentSession w e r))
             (C_deploy (hr_zone r) (Some (if is_ok pub then res\<lparr>dr_promoted := True\<rparr> else res)) None)"
proof -
  let ?name = "hr_zone r"
  obtain x st1 where get: "on_store (GetZone ?name) st = (x, st1)" by fastforce
  have st1: "ss_db st1 = ss_db st" using on_read(1) [OF get] by simp
  obtain y st2 where build: "on_store (BuildZone (ws_lib w) ?name) st1 = (y, st2)" by fastforce
  have st2: "ss_db st2 = ss_db st" using on_read(7) [OF build] st1 by simp
  show thesis
  proof (cases "\<exists>z built old new built' res. x = Inr z \<and> y = Inr built
      \<and> BumpSerial (c_serial_policy (ws_cfg w)) (he_now e) built = (Inr (old, new), built')
      \<and> deploy (deploy_request (ws_lib w) ?name built' old new (sz_targets z)) = (Some res, None) \<and> AllMoved res")
    case False
    show thesis
    proof (rule unpublished)
      show "ss_db st' = ss_db st"
        using assms False st1 st2
        by (auto simp: handleDeploy_def deploy_request_def Let_def get build split: prod.splits sum.splits option.splits if_splits)
      fix t n res err
      assume "rs_body resp = Page t n (C_deploy ?name (Some res) err)"
      with assms False show "\<not> dr_promoted res"
        by (auto simp: handleDeploy_def deploy_request_def Let_def get build page_def respond_def zone_failure_def of_request
            split: prod.splits sum.splits option.splits if_splits dest!: of_request)
    qed
  next
    case True
    then obtain z built old new built' res where x: "x = Inr z" and y: "y = Inr built"
      and bump: "BumpSerial (c_serial_policy (ws_cfg w)) (he_now e) built = (Inr (old, new), built')"
      and dep: "deploy (deploy_request (ws_lib w) ?name built' old new (sz_targets z)) = (Some res, None)" and "AllMoved res" by blast
    obtain row where row: "zone_row_of ?name (ss_db st) = Some row" and z: "z = scanZone row"
      using GetZone_ok [of ?name st z st1] get x by auto
    have b: "Build (ws_lib w) ?name (SOAData (scanZone row)) (map snd (records_view ?name (ss_db st))) = Inr built"
      using BuildZone_ok [of "ws_lib w" ?name st1 built st2 row] build y row st1 by simp
    let ?rq = "deploy_request (ws_lib w) ?name built' old new (sz_targets z)"
    obtain pub st4 where pub: "on_store (Publish ?name (Render (ws_lib w) built') new (he_created e)) (observe res st2) = (pub, st4)"
      by fastforce
    note out = handler_run [OF assms(2) get [unfolded x] build [unfolded y] bump dep \<open>AllMoved res\<close> pub]
    show thesis
    proof (rule published [OF row b bump _ dep _ _ pub])
      show "?rq = deploy_request (ws_lib w) ?name built' old new (sz_targets (scanZone row))" by (simp add: z)
      show "rq_targets ?rq \<noteq> []" by (rule has_targets [OF dep])
      show "\<forall>i<length (rq_targets ?rq). live ?rq i"
        using all_moved [OF dep] \<open>AllMoved res\<close> by simp
      show "ss_db (observe res st2) = ss_db st" by (simp add: st2)
      show "st_keep (ss_store (observe res st2)) = st_keep (ss_store st)"
        using keep_read [OF get limit_GetZone] keep_read [OF build limit_BuildZone] by (simp add: observe_def)
      show "ss_db st' = ss_db st4" using out assms(1) by (simp add: Let_def)
      show "\<exists>t. rs_body resp = Page t (csrfOf (currentSession w e r))
             (C_deploy ?name (Some (if is_ok pub then res\<lparr>dr_promoted := True\<rparr> else res)) None)"
        using out assms(1) by (auto simp: Let_def page_def respond_def)
    qed
  qed
qed

end

interpretation pipeline: deployer "pipeline_deploy L cfg ce rm" "move_succeeded L cfg ce rm" for L cfg ce rm
proof
  fix rq res err
  obtain res0 err0 log where d: "Deploy L cfg ce rm rq = (res0, err0, log)" by (cases "Deploy L cfg ce rm rq")
  show "fst (pipeline_deploy L cfg ce rm rq) \<noteq> None" by (simp add: pipeline_deploy_def d)
  show "dr_zone res = rq_zone rq \<and> dr_old_serial res = rq_old_serial rq \<and> dr_new_serial res = rq_new_serial rq
      \<and> \<not> dr_promoted res" if "pipeline_deploy L cfg ce rm rq = (Some res, err)"
    using d that by (cases rule: Deploy_cases) (auto simp: pipeline_deploy_def d base_result_def)
  show "AllMoved res \<longleftrightarrow> err = None \<and> (\<forall>i<length (rq_targets rq). move_succeeded L cfg ce rm rq i)"
    if "pipeline_deploy L cfg ce rm rq = (Some res, err)"
    using AllMoved_moves [OF d] that by (auto simp: pipeline_deploy_def move_succeeded_def d)
  show "rq_targets rq \<noteq> []" if "pipeline_deploy L cfg ce rm rq = (Some res, None)"
    using d that by (cases rule: Deploy_cases) (auto simp: pipeline_deploy_def d)
qed


subsection \<open>Only what is live is published\<close>

text \<open>The tables after the one \<open>Publish\<close> of a deploy; \<open>promoted\<close> is what the page says.\<close>

definition published_as ::
    "int \<Rightarrow> string \<Rightarrow> string \<Rightarrow> u32 \<Rightarrow> bool \<Rightarrow> db \<Rightarrow> db \<Rightarrow> bool" where
  "published_as keep name content serial promoted d d' \<longleftrightarrow>
     (\<exists>row. zone_row_of name d = Some row \<and> zone_row_of name d' = Some (row\<lparr>zr_serial := serial\<rparr>))
   \<and> records_view name d' = records_view name d \<and> other_rows name d' = other_rows name d
   \<and> (\<exists>new. sn_serial new = serial \<and> sn_content new = content
       \<and> (if promoted then snapshots_desc name d' = sql_limit keep (new # snapshots_desc name d)
          else snapshots_desc name d' \<in> {snapshots_desc name d, new # snapshots_desc name d}))"

lemma some_snapshot: "\<exists>new :: snapshot_row. sn_serial new = serial \<and> sn_content new = content"
  by (rule exI [of _ "mk_snapshot 0 [] (serial, content, [])"]) (simp add: mk_snapshot_def)

lemma Publish_published_as:
  assumes "on_store (Publish name content serial created) st = (pub, st')" and "db_inv (ss_db st)"
    and "ss_db st' \<noteq> ss_db st"
  shows "published_as (st_keep (ss_store st)) name content serial (is_ok pub) (ss_db st) (ss_db st')"
proof -
  obtain s' where p: "Publish name content serial created (ss_store st) = (pub, s')"
    and st': "ss_db st' = st_db s'"
    using assms(1) by (auto simp: on_store_def ss_db_def split: prod.splits)
  have others: "other_rows name (st_db s') = other_rows name (st_db (ss_store st))"
    using preservesD [OF keep_Publish [OF zone_stmts_keep_others [of name "other_rows name (st_db (ss_store st))"] TrueI],
        of "ss_store st" content serial created] p
    by simp
  from p assms(2) [unfolded ss_db_def] show ?thesis
  proof (cases rule: Publish_cases)
    case (nothing e)
    with assms(3) show ?thesis unfolding st' by (simp add: ss_db_def)
  next
    case (serial e row)
    then show ?thesis unfolding published_as_def st' using others some_snapshot by (simp add: ss_db_def)
  next
    case (unpruned e row new)
    then show ?thesis unfolding published_as_def st' using others by (auto simp: ss_db_def)
  next
    case (published row new)
    then show ?thesis unfolding published_as_def st' using others by (auto simp: ss_db_def)
  qed
qed

text \<open>
  C3: When a deploy request changes a table, the pipeline ran without error on the text rendered
  from the zone as it stood in the tables, with its serial advanced by the policy, and moved it
  into place on every target of the zone; what changed is the serial and at most one new snapshot
  of exactly that text, and the page says promoted exactly when the history was recorded and cut
  to its limit.
\<close>
theorem deploy_publishes_only_what_is_live:
  assumes "handleDeploy w e r st = (resp, st')" and "ws_deploy w = pipeline_deploy (ws_lib w) (ws_cfg w) ce rm"
    and "server_inv st" and "ss_db st' \<noteq> ss_db st"
  shows "\<exists>rq res log row built built'.
      Deploy (ws_lib w) (ws_cfg w) ce rm rq = (res, None, log) \<and> rq_targets rq \<noteq> []
    \<and> (\<forall>i<length (rq_targets rq). \<exists>cmd. Ran i Run_move cmd \<in> set log \<and> snd (rm_run rm i Run_move cmd) = None)
    \<and> zone_row_of (hr_zone r) (ss_db st) = Some row \<and> rq_zone rq = hr_zone r
    \<and> rq_targets rq = sz_targets (scanZone row)
    \<and> Build (ws_lib w) (hr_zone r) (SOAData (scanZone row)) (map snd (records_view (hr_zone r) (ss_db st))) = Inr built
    \<and> BumpSerial (c_serial_policy (ws_cfg w)) (he_now e) built = (Inr (rq_old_serial rq, rq_new_serial rq), built')
    \<and> rq_content rq = Render (ws_lib w) built'
    \<and> (\<exists>promoted t. published_as (st_keep (ss_store st)) (hr_zone r) (rq_content rq) (rq_new_serial rq) promoted (ss_db st) (ss_db st')
        \<and> rs_body resp = Page t (csrfOf (currentSession w e r))
             (C_deploy (hr_zone r) (Some (res\<lparr>dr_promoted := promoted\<rparr>)) None))"
  using assms(1,2)
proof (cases rule: pipeline.handler_cases)
  case unpublished
  with assms(4) show ?thesis by simp
next
  case (published row built old new built' rq res pub st1 st2)
  obtain log where d: "Deploy (ws_lib w) (ws_cfg w) ce rm rq = (res, None, log)"
    using published(5) by (auto simp: pipeline_deploy_def split: prod.splits)
  have live: "\<forall>i<length (rq_targets rq). \<exists>cmd. Ran i Run_move cmd \<in> set log \<and> snd (rm_run rm i Run_move cmd) = None"
    using published(7) by (simp add: move_succeeded_def d)
  have "\<not> dr_promoted res" using pipeline.of_request [OF published(5)] by blast
  then have mark: "(if is_ok pub then res\<lparr>dr_promoted := True\<rparr> else res) = res\<lparr>dr_promoted := is_ok pub\<rparr>"
    by (cases "is_ok pub") simp_all
  have "published_as (st_keep (ss_store st)) (hr_zone r) (Render (ws_lib w) built') new (is_ok pub) (ss_db st1) (ss_db st2)"
    using Publish_published_as [OF published(8)] assms(3,4) published(9-11) by (simp add: server_inv_def)
  with published(9-12) mark have page: "\<exists>promoted t. published_as (st_keep (ss_store st)) (hr_zone r) (Render (ws_lib w) built') new promoted (ss_db st) (ss_db st')
        \<and> rs_body resp = Page t (csrfOf (currentSession w e r))
             (C_deploy (hr_zone r) (Some (res\<lparr>dr_promoted := promoted\<rparr>)) None)"
    by auto
  have rq: "rq_zone rq = hr_zone r" "rq_content rq = Render (ws_lib w) built'" "rq_old_serial rq = old"
    "rq_new_serial rq = new" "rq_targets rq = sz_targets (scanZone row)"
    by (simp_all add: published(4) deploy_request_def)
  show ?thesis
    by (rule exI [of _ rq], rule exI [of _ res], rule exI [of _ log], rule exI [of _ row], rule exI [of _ built],
        rule exI [of _ built'])
      (use d published(1,2,3,6) live page rq in simp)
qed


subsection \<open>A deploy that goes through is recorded\<close>

lemma exec_no_faults:
  "st_faults s = [] \<Longrightarrow> exec stmt s =
     (case stmt (st_db s) of Inl e \<Rightarrow> (Inl e, s) | Inr (x, d) \<Rightarrow> (Inr x, s\<lparr>st_db := d\<rparr>))"
  by (simp add: exec_def bindE_def driver_no_faults split: sum.split)

lemma update_zones_count: "zone_row_of name d = Some row \<Longrightarrow> \<exists>n d'. update_zones name f d = Inr (Suc n, d')
    \<and> zone_names d' = map (\<lambda>z. zr_name (if zr_name z = name then f z else z)) (db_zones d)
    \<and> db_snapshots_seq d' = db_snapshots_seq d"
proof -
  assume row: "zone_row_of name d = Some row"
  then have "length (filter (\<lambda>z. zr_name z = name) (db_zones d)) \<noteq> 0"
    using zone_row_of_Some [OF row] by (auto simp: filter_empty_conv)
  then obtain n where "length (filter (\<lambda>z. zr_name z = name) (db_zones d)) = Suc n"
    using not0_implies_Suc by blast
  then show ?thesis by (simp add: update_zones_def zone_names_def o_def)
qed

lemma Publish_no_faults:
  assumes "st_faults s = []" and "zone_row_of name (st_db s) = Some row"
    and "db_snapshots_seq (st_db s) < 2 ^ 63 - 1"
  shows "fst (Publish name content n t s) = Inr ()"
proof -
  obtain m d where d: "sql_set_serial name n (st_db s) = Inr (Suc m, d)"
      "zone_names d = map (\<lambda>z. zr_name (if zr_name z = name then z\<lparr>zr_serial := n\<rparr> else z)) (db_zones (st_db s))"
      "db_snapshots_seq d = db_snapshots_seq (st_db s)"
    using update_zones_count [OF assms(2), of "\<lambda>z. z\<lparr>zr_serial := n\<rparr>"] unfolding sql_set_serial_def by blast
  have "name \<in> set (zone_names d)"
    unfolding d(2) using zone_row_of_Some [OF assms(2)] by (auto simp: rev_image_eqI)
  then obtain d2 where "sql_insert_snapshot name n content t d = Inr ((), d2)"
    using assms(3) d(3) by (simp add: sql_insert_snapshot_def Let_def)
  then show ?thesis
    using assms(1) d(1)
    by (simp add: Publish_def SetSerial_def bindE_def exec_no_faults notFoundIfNoRows_def sql_prune_snapshots_def Let_def)
qed

lemma GetZone_no_faults:
  "st_faults s = [] \<Longrightarrow> zone_row_of name (st_db s) = Some row \<Longrightarrow> GetZone name s = (Inr (scanZone row), s)"
  by (simp add: GetZone_def bindE_def query_no_faults)

lemma handleDeploy_records:
  assumes deployer: "ws_deploy w = pipeline_deploy (ws_lib w) (ws_cfg w) ce rm"
    and quiet: "st_faults (ss_store st) = []" and inv: "server_inv st"
    and ids: "db_snapshots_seq (ss_db st) < 2 ^ 63 - 1"
    and row: "zone_row_of (hr_zone r) (ss_db st) = Some row"
    and built: "Build (ws_lib w) (hr_zone r) (SOAData (scanZone row)) (map snd (records_view (hr_zone r) (ss_db st))) = Inr built"
    and bump: "BumpSerial (c_serial_policy (ws_cfg w)) (he_now e) built = (Inr (old, new), built')"
    and run: "Deploy (ws_lib w) (ws_cfg w) ce rm
      (deploy_request (ws_lib w) (hr_zone r) built' old new (sz_targets (scanZone row))) = (res, None, log)"
    and moved: "\<forall>i<length (sz_targets (scanZone row)). \<exists>cmd. Ran i Run_move cmd \<in> set log \<and> snd (rm_run rm i Run_move cmd) = None"
  shows "\<exists>st'. handleDeploy w e r st =
      (page w e r (''Deploy '' @ hr_zone r) (C_deploy (hr_zone r) (Some (res\<lparr>dr_promoted := True\<rparr>)) None), st')
    \<and> map_option zr_serial (zone_row_of (hr_zone r) (ss_db st')) = Some new
    \<and> (\<exists>sn. sn_serial sn = new \<and> sn_content sn = Render (ws_lib w) built'
         \<and> snapshots_desc (hr_zone r) (ss_db st') = sql_limit (st_keep (ss_store st)) (sn # snapshots_desc (hr_zone r) (ss_db st)))"
proof -
  let ?rq = "deploy_request (ws_lib w) (hr_zone r) built' old new (sz_targets (scanZone row))"
  have dep: "ws_deploy w ?rq = (Some res, None)" by (simp add: deployer pipeline_deploy_def run)
  have all: "AllMoved res"
    using AllMoved_moves [OF run] moved by (simp add: deploy_request_def)
  have get: "on_store (GetZone (hr_zone r)) st = (Inr (scanZone row), st)"
    using GetZone_no_faults [OF quiet row [unfolded ss_db_def]] by (simp add: on_store_def)
  have build: "on_store (BuildZone (ws_lib w) (hr_zone r)) st = (Inr built, st)"
    using BuildZone_no_faults [OF quiet row [unfolded ss_db_def], of "ws_lib w"] built
    by (simp add: on_store_def ss_db_def)
  let ?st = "observe res st"
  have same: "ss_store ?st = ss_store st" by (simp add: observe_def)
  obtain pub s' where p: "Publish (hr_zone r) (Render (ws_lib w) built') new (he_created e) (ss_store st) = (pub, s')"
    by fastforce
  have pub: "pub = Inr ()"
    using Publish_no_faults [OF quiet row [unfolded ss_db_def] ids [unfolded ss_db_def], of "Render (ws_lib w) built'" new "he_created e"] p
    by simp
  have on: "on_store (Publish (hr_zone r) (Render (ws_lib w) built') new (he_created e)) ?st = (pub, ?st\<lparr>ss_store := s'\<rparr>)"
    by (simp add: on_store_def same p)
  have dep': "pipeline_deploy (ws_lib w) (ws_cfg w) ce rm ?rq = (Some res, None)" using dep deployer by simp
  note out = pipeline.handler_run [OF deployer get build bump dep' all on]
  have "db_inv (st_db (ss_store st))" using inv by (simp add: server_inv_def ss_db_def)
  with p have "\<exists>sn. sn_serial sn = new \<and> sn_content sn = Render (ws_lib w) built'
      \<and> snapshots_desc (hr_zone r) (st_db s') = sql_limit (st_keep (ss_store st)) (sn # snapshots_desc (hr_zone r) (ss_db st))
      \<and> map_option zr_serial (zone_row_of (hr_zone r) (st_db s')) = Some new"
    by (cases rule: Publish_cases) (auto simp: pub ss_db_def)
  then show ?thesis
    unfolding out Let_def pub by (auto simp: ss_db_def audit_def)
qed

text \<open>
  C13: A deploy of a zone that can be built, in which the pipeline moves the file into place on
  every target and no statement fails, is recorded: the page says promoted, the zone has the new
  serial, and the deployed text is the newest snapshot.
\<close>
theorem accepted_deploy_is_recorded:
  assumes deployer: "ws_deploy w = pipeline_deploy (ws_lib w) (ws_cfg w) ce rm"
    and quiet: "st_faults (ss_store st) = []" and inv: "server_inv st"
    and ids: "db_snapshots_seq (ss_db st) < 2 ^ 63 - 1"
    and row: "zone_row_of (hr_zone r) (ss_db st) = Some row"
    and built: "Build (ws_lib w) (hr_zone r) (SOAData (scanZone row)) (map snd (records_view (hr_zone r) (ss_db st))) = Inr built"
    and bump: "BumpSerial (c_serial_policy (ws_cfg w)) (he_now e) built = (Inr (old, new), built')"
    and run: "Deploy (ws_lib w) (ws_cfg w) ce rm
      (deploy_request (ws_lib w) (hr_zone r) built' old new (sz_targets (scanZone row))) = (res, None, log)"
    and moved: "\<forall>i<length (sz_targets (scanZone row)). \<exists>cmd. Ran i Run_move cmd \<in> set log \<and> snd (rm_run rm i Run_move cmd) = None"
  shows "\<exists>st'. handleDeploy w e r st =
      (page w e r (''Deploy '' @ hr_zone r) (C_deploy (hr_zone r) (Some (res\<lparr>dr_promoted := True\<rparr>)) None), st')
    \<and> map_option zr_serial (zone_row_of (hr_zone r) (ss_db st')) = Some new
    \<and> (\<exists>sn. sn_serial sn = new \<and> sn_content sn = Render (ws_lib w) built'
         \<and> snapshots_desc (hr_zone r) (ss_db st') = sql_limit (st_keep (ss_store st)) (sn # snapshots_desc (hr_zone r) (ss_db st)))"
  using assms by (rule handleDeploy_records)

end
