(* ===== verification/Example_Runs.thy ===== *)
theory Example_Runs
  imports Example_Library Config Store_Rollback
begin

section \<open>The theorems at concrete inputs\<close>

text \<open>
  For the theorems with hypotheses on zone files, configurations and the store: one closed instance each,
  with the hypotheses discharged by evaluation. The zones are those of the small library in
  \<open>Example_Library\<close>, the tables are filled by the store's own operations.
\<close>


subsection \<open>Serials\<close>

definition ex_now :: go_time where
  "ex_now = \<lparr>unix_sec = 1715900000, year = 2024, month = 5, day = 17\<rparr>"

theorem date_serial_calendar_order_witness:
  "date_serial ex_now < date_serial (ex_now\<lparr>month := 6, day := 1\<rparr>)"
proof -
  have "date_ok ex_now" and "date_ok (ex_now\<lparr>month := 6, day := 1\<rparr>)"
    by (simp_all add: date_ok_def ex_now_def)
  from date_serial_calendar_order [OF this] show ?thesis
    by (simp add: earlier_day_def ex_now_def)
qed

theorem next_serial_rfc1982_newer_witness:
  "rfc1982_newer (next_serial SerialDate 2024051703 ex_now) 2024051703"
  by (rule next_serial_rfc1982_newer) (simp_all add: date_ok_def ex_now_def)


subsection \<open>Zone files\<close>

definition ex_zone_file :: "string zone" where
  "ex_zone_file =
     \<lparr>z_origin = ''a.'',
      z_records =
        [SOA_rr \<lparr>h_name = ''a.'', h_rrtype = 6, h_class = 1, h_ttl = 3600\<rparr>
           \<lparr>soa_ns = ''ns1.a.'', soa_mbox = ''adm.a.'', soa_serial = 7, soa_refresh = 7200,
             soa_retry = 3600, soa_expire = 1209600, soa_minttl = 3600\<rparr>,
         Other_rr \<lparr>h_name = ''www.a.'', h_rrtype = 1, h_class = 1, h_ttl = 3600\<rparr> ''192.0.2.2'',
         Other_rr \<lparr>h_name = ''ftp.a.'', h_rrtype = 1, h_class = 1, h_ttl = 3600\<rparr> ''192.0.2.3'']\<rparr>"

theorem BumpSerial_only_serial_witness:
  "zone_serial (snd (BumpSerial SerialIncrement ex_now ex_zone_file)) = Inr 8"
proof -
  obtain z' where b: "BumpSerial SerialIncrement ex_now ex_zone_file = (Inr (7, 8), z')"
    by (simp add: BumpSerial_ok_iff)
      (simp add: ex_zone_file_def next_serial_def Let_def SerialIncrement_def SerialUnixtime_def)
  have "soa_named ex_lib" and "\<forall>rr\<in>set (z_records ex_zone_file). soa_typed ex_lib rr"
    by (code_simp, code_simp)
  from BumpSerial_only_serial [OF b this] b show ?thesis by simp
qed

theorem Remove_first_match_witness:
  "fst (Remove ex_lib ''www.a.'' ''A'' ''192.0.2.2'' ex_zone_file)
   \<and> (\<exists>pre rr post. z_records ex_zone_file = pre @ rr # post \<and> \<not> is_soa_type ex_lib rr
        \<and> z_records (snd (Remove ex_lib ''www.a.'' ''A'' ''192.0.2.2'' ex_zone_file)) = pre @ post)"
proof -
  have t: "fst (Remove ex_lib ''www.a.'' ''A'' ''192.0.2.2'' ex_zone_file)" by code_simp
  from Remove_first_match [OF prod.collapse [symmetric],
      of ex_lib "''www.a.''" "''A''" "''192.0.2.2''" ex_zone_file] t
  show ?thesis by auto
qed

theorem build_text_lines_witness:
  "split_on newline (build_text ex_lib ''a'' ex_soa_data [ex_www]) =
     [''$ORIGIN a.'', ''$TTL 3600'', soa_line ex_lib ex_soa_data, record_line 3600 ex_www, []]"
proof -
  have "clean_field (dns_fqdn ex_lib ''a'')" "clean_field (dns_fqdn ex_lib (sd_primary_ns ex_soa_data))"
    "clean_field (dnsMbox ex_lib (sd_mbox ex_soa_data))" "\<forall>r\<in>set [ex_www]. clean_record r"
    by (code_simp, code_simp, code_simp, code_simp)
  from build_text_lines [OF this]
  have "split_on newline (build_text ex_lib ''a'' ex_soa_data [ex_www]) =
    [''$ORIGIN '' @ dns_fqdn ex_lib ''a'', ''$TTL '' @ dec32 (zone_ttl ex_soa_data), soa_line ex_lib ex_soa_data]
    @ map (record_line (zone_ttl ex_soa_data)) [ex_www] @ [[]]" .
  moreover have "dns_fqdn ex_lib ''a'' = ''a.''" and "zone_ttl ex_soa_data = 3600" and "dec32 3600 = ''3600''"
    by (code_simp, code_simp, code_simp)
  ultimately show ?thesis by simp
qed

text \<open>A mailbox with a newline adds a line.\<close>

theorem build_text_lines_iff_witness:
  "split_on newline (build_text ex_lib ''a'' (ex_soa_data\<lparr>sd_mbox := ''x'' @ [newline] @ ''y''\<rparr>) [ex_www]) \<noteq>
     [''$ORIGIN '' @ dns_fqdn ex_lib ''a'', ''$TTL '' @ dec32 (zone_ttl (ex_soa_data\<lparr>sd_mbox := ''x'' @ [newline] @ ''y''\<rparr>)),
      soa_line ex_lib (ex_soa_data\<lparr>sd_mbox := ''x'' @ [newline] @ ''y''\<rparr>)]
     @ map (record_line (zone_ttl (ex_soa_data\<lparr>sd_mbox := ''x'' @ [newline] @ ''y''\<rparr>))) [ex_www] @ [[]]"
proof -
  have "newline \<in> set (dnsMbox ex_lib (sd_mbox (ex_soa_data\<lparr>sd_mbox := ''x'' @ [newline] @ ''y''\<rparr>)))" by code_simp
  then show ?thesis unfolding build_text_lines_iff by blast
qed


subsection \<open>Configuration\<close>

definition ex_server :: server where
  "ex_server = \<lparr>s_host = ''h1'', s_port = 0, s_user = ''dns'', s_ssh_key = ''k'', s_known_hosts = ''kh'',
     s_remote_zone_dir = ''/var/zones'', s_checkzone_cmd = [], s_reload_cmd = ''rndc reload {zone}''\<rparr>"

definition ex_config :: config where
  "ex_config = \<lparr>c_listen = [], c_secure_cookies = None, c_data_dir = [], c_audit_log = [],
     c_auth_token_env = ''T'', c_cookie_key_env = ''K'', c_serial_policy = [], c_backup_keep = 0,
     c_servers = [(''s2'', ex_server), (''s1'', ex_server)],
     c_auth_token = [], c_cookie_key = [], c_cookie_key_ephemeral = False\<rparr>"

theorem applyDefaults_validate_iff_witness:
  "validate (applyDefaults ex_config) = None"
  using applyDefaults_validate_iff [of ex_config]
  by (simp add: ex_config_def ex_server_def server_ok_def)

theorem Load_valid_witness:
  "\<exists>cfg. Load (\<lambda>_. Inr []) (\<lambda>_. Inr ex_config) (\<lambda>v. if v = ''T'' then ''secret'' else [])
     None (\<lambda>_. CHR ''r'') ''mrdns.yaml'' = Inr cfg \<and> 32 \<le> length (c_cookie_key cfg)"
proof -
  let ?load = "Load (\<lambda>_. Inr []) (\<lambda>_. Inr ex_config) (\<lambda>v. if v = ''T'' then ''secret'' else [])
     None (\<lambda>_. CHR ''r'') ''mrdns.yaml''"
  have "case ?load of Inl _ \<Rightarrow> False | Inr _ \<Rightarrow> True" by code_simp
  then obtain cfg where "?load = Inr cfg" by (cases ?load) auto
  with Load_valid [OF this] show ?thesis by blast
qed

theorem ServerNames_any_order_witness:
  "ServerNames ex_config = ServerNames (ex_config\<lparr>c_servers := rev (c_servers ex_config)\<rparr>)"
proof -
  have "mset (c_servers ex_config) = mset (c_servers (ex_config\<lparr>c_servers := rev (c_servers ex_config)\<rparr>))"
    by simp
  from ServerNames_any_order [OF this] show ?thesis by simp
qed


subsection \<open>The store\<close>

definition ex_zone :: store_zone where
  "ex_zone = \<lparr>sz_name = ''a'', sz_primary_ns = ''ns1.a'', sz_mbox = ''adm@a'', sz_refresh = 0, sz_retry = 0,
     sz_expire = 0, sz_minimum = 0, sz_ttl = 0, sz_serial = 7, sz_targets = [''s1'', ''s2'']\<rparr>"

definition ex_s0 :: store where
  "ex_s0 = \<lparr>st_db = empty_db, st_keep = 2, st_faults = []\<rparr>"

definition ex_calls :: "store_call list" where
  "ex_calls = [Call_create ex_zone ''t0'', Call_create (ex_zone\<lparr>sz_name := ''b''\<rparr>) ''t1'',
     Call_add_record ''a'' ex_www, Call_add_record ''b'' ex_www]"

definition ex_s1 :: store where
  "ex_s1 = fold (store_step ex_lib) ex_calls ex_s0"

lemma ex_s0_inv: "db_inv (st_db ex_s0)"
  by (simp add: ex_s0_def empty_db_def db_inv_def zone_names_def table_ok_def)

theorem store_calls_keep_integrity_witness:
  "db_inv (st_db (fold (store_step ex_lib) ex_calls ex_s0))"
  using ex_s0_inv by (rule store_calls_keep_integrity)

lemma ex_s1_inv: "db_inv (st_db ex_s1)"
  unfolding ex_s1_def by (rule store_integrity.inv_run [OF ex_s0_inv])

theorem calls_leave_other_zones_witness:
  "zone_view ''c'' (st_db (fold (store_step ex_lib) ex_calls ex_s0)) = zone_view ''c'' (st_db ex_s0)"
  by (rule calls_leave_other_zones) code_simp

theorem targets_roundtrip_iff_witness:
  "splitTargets (joinTargets [''s1'', ''s2'']) = [''s1'', ''s2''] \<and> splitTargets (joinTargets [''a,b'']) \<noteq> [''a,b'']"
proof -
  have "\<forall>t\<in>set [''s1'', ''s2'']. good_target t" by code_simp
  moreover have "\<not> (\<forall>t\<in>set [''a,b'']. good_target t)" by (simp add: good_target_def)
  ultimately show ?thesis unfolding targets_roundtrip_iff by blast
qed

definition ex_import :: string where
  "ex_import = ''$ORIGIN a.'' @ [newline] @ ''@ 3600 IN SOA ns1.a. adm.a. 7 7200 3600 1209600 3600'' @ [newline]
     @ ''www 300 IN A 192.0.2.2'' @ [newline]"

theorem ImportZone_all_or_nothing_witness:
  "fst (ImportZone ex_lib ''a'' ex_import [''s1''] ''t'' ex_s0) = Inr 1
   \<and> snapshots_desc ''a'' (st_db (snd (ImportZone ex_lib ''a'' ex_import [''s1''] ''t'' ex_s0))) = []"
proof -
  have r: "fst (ImportZone ex_lib ''a'' ex_import [''s1''] ''t'' ex_s0) = Inr 1" by code_simp
  from ImportZone_all_or_nothing [OF prod.collapse [symmetric] ex_s0_inv,
      of ex_lib "''a''" ex_import "[''s1'']" "''t''"] r
  show ?thesis by auto
qed

theorem UpdateRecord_exact_witness:
  "fst (UpdateRecord ''a'' 1 (ex_www\<lparr>r_data := ''192.0.2.9''\<rparr>) ex_s1) = Inr ()
   \<and> records_view ''a'' (st_db (snd (UpdateRecord ''a'' 1 (ex_www\<lparr>r_data := ''192.0.2.9''\<rparr>) ex_s1)))
       \<noteq> records_view ''a'' (st_db ex_s1)"
proof -
  let ?r = "ex_www\<lparr>r_data := ''192.0.2.9''\<rparr>"
  have r: "fst (UpdateRecord ''a'' 1 ?r ex_s1) = Inr ()" by code_simp
  have "(1, as_stored ?r) \<notin> set (records_view ''a'' (st_db ex_s1))" by code_simp
  with UpdateRecord_exact [OF prod.collapse [symmetric] ex_s1_inv, of "''a''" 1 ?r] r
  show ?thesis by auto
qed

theorem DeleteZone_cascades_witness:
  "fst (DeleteZone ''a'' ex_s1) = Inr () \<and> records_view ''a'' (st_db (snd (DeleteZone ''a'' ex_s1))) = []"
proof -
  have r: "fst (DeleteZone ''a'' ex_s1) = Inr ()" by code_simp
  with DeleteZone_cascades [OF prod.collapse [symmetric] ex_s1_inv, of "''a''"] show ?thesis by auto
qed

theorem Publish_snapshot_history_witness:
  "map sn_content (snapshots_desc ''a'' (st_db (snd (Publish ''a'' ''text'' 8 ''t2'' ex_s1)))) = [''text'']"
proof -
  have r: "fst (Publish ''a'' ''text'' 8 ''t2'' ex_s1) = Inr ()"
    and e: "snapshots_desc ''a'' (st_db ex_s1) = []" and k: "st_keep ex_s1 = 2" by (code_simp, code_simp, code_simp)
  then have "0 < st_keep ex_s1" by simp
  from Publish_snapshot_history [OF prod.collapse [symmetric] ex_s1_inv this, of "''a''" "''text''" 8 "''t2''"] r e k
  show ?thesis by auto
qed

definition ex_s2 :: store where
  "ex_s2 = store_step ex_lib (Call_publish ''a'' ex_import 8 ''t2'') ex_s1"

lemma ex_s2_inv: "db_inv (st_db ex_s2)"
  unfolding ex_s2_def by (rule store_integrity.inv_step [OF ex_s1_inv])

lemma ex_restore_run:
  "fst (RestoreSnapshot ex_lib ''a'' 1 ex_s2) = Inr () \<and> snapshot_content_of ''a'' 1 (st_db ex_s2) = Some ex_import"
  by code_simp

theorem RestoreSnapshot_all_or_nothing_witness:
  "fst (RestoreSnapshot ex_lib ''a'' 1 ex_s2) = Inr ()
   \<and> zone_targets ''a'' (st_db (snd (RestoreSnapshot ex_lib ''a'' 1 ex_s2))) = zone_targets ''a'' (st_db ex_s2)"
proof -
  from RestoreSnapshot_all_or_nothing [OF prod.collapse [symmetric] ex_s2_inv, of ex_lib "''a''" 1] ex_restore_run
  show ?thesis by auto
qed

text \<open>The snapshot was published with serial 8, its text has serial 7.\<close>

lemma ex_rollback_run:
  "(let restored = RestoreSnapshot ex_lib ''a'' 1 ex_s2; s1 = snd restored; ro = zone_row_of ''a'' (st_db s1); row = the ro;
      recs = map snd (records_view ''a'' (st_db s1)); soa = SOAData (scanZone row); built = Build ex_lib ''a'' soa recs;
      bumped = BumpSerial SerialIncrement ex_now (projr built); pub = Publish ''a'' (Render ex_lib (snd bumped)) 8 ''t3'' s1
    in ro \<noteq> None \<and> \<not> isl built \<and> fst bumped = Inr (7, 8) \<and> fst pub = Inr ()
      \<and> Build ex_lib ''a'' (soa\<lparr>sd_serial := zr_serial row\<rparr>) recs
          = map_sum id (\<lambda>z. z\<lparr>z_records := set_soa_serial (zr_serial row) (z_records z)\<rparr>) built)"
  by code_simp

lemma ex_snapshot_parsed:
  "case Parse ex_lib ex_import ''a'' of Inl _ \<Rightarrow> False | Inr z \<Rightarrow> map_sum id sd_serial (SOA z) = Inr 7"
  "map sn_serial (snapshots_desc ''a'' (st_db ex_s2)) = [8]"
  by (code_simp, code_simp)

theorem rollback_takes_serial_back_witness:
  "\<exists>content created. map sn_serial (snapshots_desc ''a'' (st_db (snd (Publish ''a'' content 8 created
     (snd (RestoreSnapshot ex_lib ''a'' 1 ex_s2)))))) = [8, 8]"
proof -
  obtain z soa where z: "Parse ex_lib ex_import ''a'' = Inr z" "SOA z = Inr soa" "sd_serial soa = 7"
    using ex_snapshot_parsed(1) by (cases "Parse ex_lib ex_import ''a''"; cases "SOA (projr (Parse ex_lib ex_import ''a''))") auto
  obtain newest where newest: "snapshots_desc ''a'' (st_db ex_s2) = [newest]" "sn_serial newest = 8"
    using ex_snapshot_parsed(2) by (auto simp: map_eq_Cons_conv)
  define s1 where "s1 = snd (RestoreSnapshot ex_lib ''a'' 1 ex_s2)"
  define row where "row = the (zone_row_of ''a'' (st_db s1))"
  define recs where "recs = map snd (records_view ''a'' (st_db s1))"
  define b where "b = projr (Build ex_lib ''a'' (SOAData (scanZone row)) recs)"
  define b' where "b' = snd (BumpSerial SerialIncrement ex_now b)"
  define s2 where "s2 = snd (Publish ''a'' (Render ex_lib b') 8 ''t3'' s1)"
  note defs = s2_def b'_def b_def recs_def row_def s1_def
  have run: "zone_row_of ''a'' (st_db s1) = Some row"
    "Build ex_lib ''a'' (SOAData (scanZone row)) (map snd (records_view ''a'' (st_db s1))) = Inr b"
    "BumpSerial SerialIncrement ex_now b = (Inr (7, 8), b')"
    "Publish ''a'' (Render ex_lib b') 8 ''t3'' s1 = (Inr (), s2)"
    "serial_read_back ex_lib ''a'' (SOAData (scanZone row)) (map snd (records_view ''a'' (st_db s1))) (zr_serial row)"
    using ex_rollback_run unfolding defs serial_read_back_def Let_def by (auto simp: prod_eq_iff)
  have "RestoreSnapshot ex_lib ''a'' 1 ex_s2 = (Inr (), s1)"
    using ex_restore_run by (simp add: prod_eq_iff s1_def)
  from rollback_takes_serial_back [OF this ex_s2_inv ex_restore_run [THEN conjunct2] z(1,2) newest(1) _ run(1,5,2-4)]
  obtain sn where "snapshots_desc ''a'' (st_db s2) = sql_limit (st_keep s1) [sn, newest]" "sn_serial sn = 8"
    using z(3) newest(2) by auto
  moreover have "st_keep s1 = 2" unfolding s1_def by code_simp
  ultimately show ?thesis using newest(2) unfolding s1_def [symmetric]
    by (intro exI [of _ "Render ex_lib b'"] exI [of _ "''t3''"]) (simp add: s2_def sql_limit_def)
qed

theorem clean_after_publish_witness:
  "\<exists>s. Dirty ex_lib ''a'' s = (Inr False, s) \<and> snapshots_desc ''a'' (st_db s) \<noteq> []"
proof -
  define row where "row = the (zone_row_of ''a'' (st_db ex_s1))"
  define recs where "recs = map snd (records_view ''a'' (st_db ex_s1))"
  define z where "z = projr (Build ex_lib ''a'' (SOAData (scanZone row)) recs)"
  define z' where "z' = snd (BumpSerial SerialIncrement ex_now z)"
  define s' where "s' = snd (Publish ''a'' (Render ex_lib z') 8 ''t2'' ex_s1)"
  note defs = s'_def z'_def z_def recs_def row_def
  have "(let ro = zone_row_of ''a'' (st_db ex_s1); row = the ro; recs = map snd (records_view ''a'' (st_db ex_s1));
      soa = SOAData (scanZone row); built = Build ex_lib ''a'' soa recs; z = projr built;
      bumped = BumpSerial SerialIncrement ex_now z; z' = snd bumped;
      pub = Publish ''a'' (Render ex_lib z') 8 ''t2'' ex_s1; s' = snd pub
    in ro \<noteq> None \<and> isl built = False \<and> fst bumped = Inr (7, 8) \<and> fst pub = Inr ()
      \<and> st_faults s' = [] \<and> 0 < st_keep ex_s1 \<and> snapshots_desc ''a'' (st_db s') \<noteq> []
      \<and> Build ex_lib ''a'' (soa\<lparr>sd_serial := 8\<rparr>) recs
          = map_sum id (\<lambda>z. z\<lparr>z_records := set_soa_serial 8 (z_records z)\<rparr>) built)"
    by code_simp
  then have run: "zone_row_of ''a'' (st_db ex_s1) = Some row"
    "Build ex_lib ''a'' (SOAData (scanZone row)) (map snd (records_view ''a'' (st_db ex_s1))) = Inr z"
    "BumpSerial SerialIncrement ex_now z = (Inr (7, 8), z')"
    "Publish ''a'' (Render ex_lib z') 8 ''t2'' ex_s1 = (Inr (), s')"
    "st_faults s' = []" "0 < st_keep ex_s1" "snapshots_desc ''a'' (st_db s') \<noteq> []"
    "serial_read_back ex_lib ''a'' (SOAData (scanZone row)) (map snd (records_view ''a'' (st_db ex_s1))) 8"
    unfolding defs serial_read_back_def Let_def by (auto simp: prod_eq_iff)
  then have "Dirty ex_lib ''a'' s' = (Inr False, s')"
    using ex_s1_inv by (intro clean_after_publish)
  with run(7) show ?thesis by blast
qed

end
