(* ===== verification/Pipeline_Interleaving.thy ===== *)
theory Pipeline_Interleaving
  imports Pipeline_Safety
begin

section \<open>The goroutines of a deploy\<close>

text \<open>
  \<open>Deploy\<close> runs one goroutine per target in each of its phases and waits for all of them
  (\<open>wg.Wait()\<close>) before it goes on. Here the goroutines take their steps in any order: a step of target
  \<open>i\<close> is one call on its connection with the assignments around it, and the main goroutine moves to
  the next phase when every goroutine is done. Every schedule ends, and every schedule that ends
  has the result, and for each target the events, of the sequential model in \<open>Pipeline\<close>.
\<close>


subsection \<open>The steps of one goroutine\<close>

datatype pc = At_start | At_dial | At_upload | At_check | At_move | At_reload | At_verify | At_done

definition micro ::
    "'r dns_lib \<Rightarrow> config \<Rightarrow> remote \<Rightarrow> request \<Rightarrow> nat \<Rightarrow> string \<Rightarrow> pc \<Rightarrow> slot \<Rightarrow> pc \<times> slot \<times> event list" where
  "micro L cfg rm req i name p sl =
     (let srv = server_of cfg name in
      case p of
        At_start \<Rightarrow>
          let sl1 = set_result (\<lambda>r. r\<lparr>sr_name := name\<rparr>) sl in
          (case map_of (c_servers cfg) name of
             None \<Rightarrow> (At_done, set_result (\<lambda>r. r\<lparr>sr_err := ''unknown server in config''\<rparr>) sl1, [])
           | Some _ \<Rightarrow> (At_dial, sl1, []))
      | At_dial \<Rightarrow>
          (case rm_dial rm i srv of
             Some e \<Rightarrow> (At_done, set_result (\<lambda>r. r\<lparr>sr_err := ''connect: '' @ e\<rparr>) sl, [])
           | None \<Rightarrow>
               (At_upload,
                sl\<lparr>sl_conn := True,
                   sl_tmp := remoteTmpPath (rm_random rm i) srv (remoteFile (rq_zone req))\<rparr>,
                [Dialed i]))
      | At_upload \<Rightarrow>
          (case rm_upload rm i (sl_tmp sl) (rq_content req) of
             Some e \<Rightarrow> (At_done, set_result (\<lambda>r. r\<lparr>sr_err := ''upload: '' @ e\<rparr>) sl,
                        [Uploaded i (sl_tmp sl) (rq_content req)])
           | None \<Rightarrow> (At_check, set_result (\<lambda>r. r\<lparr>sr_staged := True\<rparr>) sl,
                      [Uploaded i (sl_tmp sl) (rq_content req)]))
      | At_check \<Rightarrow>
          let cmd = checkCommand srv (dns_fqdn L (rq_zone req)) (sl_tmp sl);
              (out, err) = rm_run rm i Run_check cmd;
              sl1 = set_result (\<lambda>r. r\<lparr>sr_output := trim_space out\<rparr>) sl
          in (At_done,
              set_result (\<lambda>r. case err of
                  Some e \<Rightarrow> r\<lparr>sr_err := ''checkzone: '' @ e\<rparr>
                | None \<Rightarrow> r\<lparr>sr_checked := True\<rparr>) sl1,
              [Ran i Run_check cmd])
      | At_move \<Rightarrow>
          let mv = moveCommand (sl_tmp sl) (remoteFinalPath srv (remoteFile (rq_zone req)));
              (out, err) = rm_run rm i Run_move mv
          in (case err of
                Some e \<Rightarrow>
                  (At_done, set_result (\<lambda>r. r\<lparr>sr_output := trim_space out, sr_err := ''move: '' @ e\<rparr>) sl,
                   [Ran i Run_move mv])
              | None \<Rightarrow> (At_reload, set_result (\<lambda>r. r\<lparr>sr_moved := True\<rparr>) sl, [Ran i Run_move mv]))
      | At_reload \<Rightarrow>
          let cmd = reloadCommand srv (rq_zone req);
              (out, err) = rm_run rm i Run_reload cmd;
              sl1 = set_result (\<lambda>r. r\<lparr>sr_output := trim_space out\<rparr>) sl
          in (At_done,
              set_result (\<lambda>r. case err of
                  Some e \<Rightarrow> r\<lparr>sr_err := ''reload: '' @ e\<rparr>
                | None \<Rightarrow> r\<lparr>sr_reloaded := True\<rparr>) sl1,
              [Ran i Run_reload cmd])
      | At_verify \<Rightarrow>
          (At_done,
           (case rm_verify rm i (s_host srv) (rq_zone req) of
              Inl err \<Rightarrow> sl
            | Inr got \<Rightarrow>
                if got \<noteq> rq_new_serial req then sl
                else set_result (\<lambda>r. r\<lparr>sr_verified := True\<rparr>) sl),
           [Queried i])
      | At_done \<Rightarrow> (At_done, sl, []))"

fun pc_rank :: "pc \<Rightarrow> nat" where
  "pc_rank At_start = 4"
| "pc_rank At_dial = 3"
| "pc_rank At_upload = 2"
| "pc_rank At_check = 1"
| "pc_rank At_move = 2"
| "pc_rank At_reload = 1"
| "pc_rank At_verify = 1"
| "pc_rank At_done = 0"

lemma pc_rank_le: "pc_rank p \<le> 4"
  by (cases p) simp_all

lemma pc_rank_0_iff: "pc_rank p = 0 \<longleftrightarrow> p = At_done"
  by (cases p) simp_all

lemma micro_rank:
  "p \<noteq> At_done \<Longrightarrow> pc_rank (fst (micro L cfg rm req i name p sl)) < pc_rank p"
  by (cases p) (simp_all add: micro_def Let_def split: option.splits prod.splits)

lemma micro_events:
  "e \<in> set (snd (snd (micro L cfg rm req i name p sl))) \<Longrightarrow> event_target e = i"
  by (cases p) (auto simp: micro_def Let_def split: option.splits prod.splits)

text \<open>Running the goroutine to its end.\<close>

function run_from ::
    "'r dns_lib \<Rightarrow> config \<Rightarrow> remote \<Rightarrow> request \<Rightarrow> nat \<Rightarrow> string \<Rightarrow> pc \<Rightarrow> slot \<Rightarrow> slot \<times> event list" where
  "run_from L cfg rm req i name p sl =
     (if p = At_done then (sl, [])
      else let step = micro L cfg rm req i name p sl;
               rest = run_from L cfg rm req i name (fst step) (fst (snd step))
           in (fst rest, snd (snd step) @ snd rest))"
  by pat_completeness auto
termination
  by (relation "measure (\<lambda>(L, cfg, rm, req, i, name, p, sl). pc_rank p)") (auto dest: micro_rank)

declare run_from.simps [simp del]

lemma run_from_done: "run_from L cfg rm req i name At_done sl = (sl, [])"
  by (subst run_from.simps) simp

lemma run_from_step:
  "p \<noteq> At_done \<Longrightarrow> micro L cfg rm req i name p sl = (p', sl', evs) \<Longrightarrow>
     run_from L cfg rm req i name p sl =
       (fst (run_from L cfg rm req i name p' sl'), evs @ snd (run_from L cfg rm req i name p' sl'))"
  by (subst run_from.simps) (simp add: Let_def)

text \<open>The goroutine of each phase is the function of \<open>Pipeline\<close> for that phase.\<close>

lemma run_from_last:
  "pc_rank p = 1 \<Longrightarrow> run_from L cfg rm req i name p sl = snd (micro L cfg rm req i name p sl)"
  by (subst run_from.simps)
    (cases p; simp add: Let_def micro_def run_from_done split: prod.splits option.splits)

lemma set_result_twice: "set_result f (set_result g sl) = set_result (\<lambda>r. f (g r)) sl"
  by (simp add: set_result_def)

lemma run_from_upload:
  "run_from L cfg rm req i name At_upload sl =
     (case rm_upload rm i (sl_tmp sl) (rq_content req) of
        Some e \<Rightarrow> (set_result (\<lambda>r. r\<lparr>sr_err := ''upload: '' @ e\<rparr>) sl,
                   [Uploaded i (sl_tmp sl) (rq_content req)])
      | None \<Rightarrow>
          (fst (snd (micro L cfg rm req i name At_check (set_result (\<lambda>r. r\<lparr>sr_staged := True\<rparr>) sl))),
           Uploaded i (sl_tmp sl) (rq_content req) #
           snd (snd (micro L cfg rm req i name At_check (set_result (\<lambda>r. r\<lparr>sr_staged := True\<rparr>) sl)))))"
  by (subst run_from.simps) (simp add: micro_def [of _ _ _ _ _ _ At_upload] run_from_done run_from_last Let_def split: option.splits)

lemma run_from_phase1: "run_from L cfg rm req i name At_start sl = phase1_target L cfg rm req i name sl"
proof (cases "map_of (c_servers cfg) name")
  case None
  then show ?thesis
    by (simp add: run_from_step micro_def run_from_done phase1_target_def Let_def)
next
  case srv: (Some srv)
  let ?sl = "set_result (\<lambda>r. r\<lparr>sr_name := name\<rparr>) sl"
  have start: "run_from L cfg rm req i name At_start sl = run_from L cfg rm req i name At_dial ?sl"
    using srv by (simp add: run_from_step [of At_start] micro_def Let_def)
  show ?thesis
  proof (cases "rm_dial rm i srv")
    case (Some e)
    with srv show ?thesis unfolding start
      by (simp add: run_from_step micro_def server_of_def run_from_done phase1_target_def Let_def)
  next
    case None
    let ?sl1 = "?sl\<lparr>sl_conn := True,
      sl_tmp := remoteTmpPath (rm_random rm i) srv (remoteFile (rq_zone req))\<rparr>"
    have "run_from L cfg rm req i name At_dial ?sl =
        (fst (run_from L cfg rm req i name At_upload ?sl1),
         Dialed i # snd (run_from L cfg rm req i name At_upload ?sl1))"
      using srv None by (simp add: run_from_step [of At_dial] micro_def server_of_def Let_def)
    with start srv None show ?thesis
      by (simp add: run_from_upload phase1_target_def micro_def server_of_def Let_def set_result_def
          split: option.splits prod.splits)
  qed
qed

lemma run_from_phase2: "run_from L cfg rm req i name At_move sl = phase2_target cfg rm req i name sl"
  by (subst run_from.simps)
    (auto simp: micro_def [of _ _ _ _ _ _ At_move] micro_def [of _ _ _ _ _ _ At_reload] run_from_done
      run_from_last phase2_target_def Let_def set_result_def split: option.splits prod.splits)

definition verify_pc :: "slot \<Rightarrow> pc" where
  "verify_pc sl = (if sr_reloaded (sl_result sl) then At_verify else At_done)"

lemma run_from_phase3: "run_from L cfg rm req i name (verify_pc sl) sl = phase3_target cfg rm req i name sl"
  by (simp add: verify_pc_def run_from_done run_from_last phase3_target_def micro_def Let_def)


lemma run_from_events: "e \<in> set (snd (run_from L cfg rm req i name p sl)) \<Longrightarrow> event_target e = i"
proof (induction L cfg rm req i name p sl rule: run_from.induct)
  case (1 L cfg rm req i name p sl)
  show ?case
  proof (cases "p = At_done")
    case True
    with 1(2) show ?thesis by (simp add: run_from_done)
  next
    case False
    obtain p' sl' evs where m: "micro L cfg rm req i name p sl = (p', sl', evs)" by (metis prod_cases3)
    from 1(2) have "e \<in> set evs \<or> e \<in> set (snd (run_from L cfg rm req i name p' sl'))"
      by (auto simp: run_from_step [OF False m])
    with 1(1) [OF False refl] m micro_events [of e L cfg rm req i name p sl] show ?thesis by auto
  qed
qed


subsection \<open>The steps of the whole deploy\<close>

datatype phase = Phase1 | Phase2 | Phase3 | Finished

record gstate =
  g_phase :: phase
  g_pcs :: "pc list"
  g_slots :: "slot list"
  g_log :: "event list"

definition g_init :: "request \<Rightarrow> gstate" where
  "g_init req =
     (let n = length (rq_targets req) in
      \<lparr>g_phase = Phase1, g_pcs = replicate n At_start, g_slots = replicate n zero_slot, g_log = []\<rparr>)"

definition all_done :: "gstate \<Rightarrow> bool" where
  "all_done g = list_all (\<lambda>p. p = At_done) (g_pcs g)"

definition all_checked :: "gstate \<Rightarrow> bool" where
  "all_checked g = list_all (\<lambda>sl. sr_checked (sl_result sl)) (g_slots g)"

inductive gstep :: "'r dns_lib \<Rightarrow> config \<Rightarrow> remote \<Rightarrow> request \<Rightarrow> gstate \<Rightarrow> gstate \<Rightarrow> bool"
  for L :: "'r dns_lib" and cfg :: config and rm :: remote and req :: request where
  goroutine:
    "i < length (rq_targets req) \<Longrightarrow> g_pcs g ! i \<noteq> At_done \<Longrightarrow>
     micro L cfg rm req i (rq_targets req ! i) (g_pcs g ! i) (g_slots g ! i) = (p, sl, evs) \<Longrightarrow>
     gstep L cfg rm req g
       (g\<lparr>g_pcs := (g_pcs g)[i := p], g_slots := (g_slots g)[i := sl], g_log := g_log g @ evs\<rparr>)"
| abandon:
    "g_phase g = Phase1 \<Longrightarrow> all_done g \<Longrightarrow> \<not> all_checked g \<Longrightarrow>
     gstep L cfg rm req g
       (g\<lparr>g_phase := Finished, g_log := g_log g @ cleanup rm (g_slots g) @ closeAll (g_slots g)\<rparr>)"
| commit:
    "g_phase g = Phase1 \<Longrightarrow> all_done g \<Longrightarrow> all_checked g \<Longrightarrow>
     gstep L cfg rm req g (g\<lparr>g_phase := Phase2, g_pcs := map (\<lambda>_. At_move) (g_pcs g)\<rparr>)"
| verify:
    "g_phase g = Phase2 \<Longrightarrow> all_done g \<Longrightarrow>
     gstep L cfg rm req g (g\<lparr>g_phase := Phase3, g_pcs := map verify_pc (g_slots g)\<rparr>)"
| finish:
    "g_phase g = Phase3 \<Longrightarrow> all_done g \<Longrightarrow>
     gstep L cfg rm req g (g\<lparr>g_phase := Finished, g_log := g_log g @ closeAll (g_slots g)\<rparr>)"

inductive_cases gstepE: "gstep L cfg rm req g g'"

definition reachable :: "'r dns_lib \<Rightarrow> config \<Rightarrow> remote \<Rightarrow> request \<Rightarrow> gstate \<Rightarrow> bool" where
  "reachable L cfg rm req g \<longleftrightarrow> (gstep L cfg rm req)\<^sup>*\<^sup>* (g_init req) g"

lemma reachable_induct [consumes 1, case_names init step]:
  assumes "reachable L cfg rm req g" and "P (g_init req)"
    and "\<And>g g'. reachable L cfg rm req g \<Longrightarrow> P g \<Longrightarrow> gstep L cfg rm req g g' \<Longrightarrow> P g'"
  shows "P g"
  using assms(1) unfolding reachable_def
  by (induction rule: rtranclp_induct) (auto intro: assms(2,3) simp: reachable_def)


subsection \<open>What holds at every moment of every schedule\<close>

text \<open>Where each phase is heading: the slots and, per target, the events at its end.\<close>

fun goal_slots :: "'r dns_lib \<Rightarrow> config \<Rightarrow> remote \<Rightarrow> request \<Rightarrow> phase \<Rightarrow> slot list" where
  "goal_slots L cfg rm req Phase1 = slots1 L cfg rm req"
| "goal_slots L cfg rm req Phase2 = slots2 L cfg rm req"
| "goal_slots L cfg rm req Phase3 = slots3 L cfg rm req"
| "goal_slots L cfg rm req Finished =
     (if all_accepted L cfg rm req then slots3 L cfg rm req else slots1 L cfg rm req)"

definition log2 :: "'r dns_lib \<Rightarrow> config \<Rightarrow> remote \<Rightarrow> request \<Rightarrow> event list" where
  "log2 L cfg rm req =
     snd (run_phase (phase2_target cfg rm req) (rq_targets req) (slots1 L cfg rm req))"

fun goal_log :: "'r dns_lib \<Rightarrow> config \<Rightarrow> remote \<Rightarrow> request \<Rightarrow> phase \<Rightarrow> event list" where
  "goal_log L cfg rm req Phase1 = log1 L cfg rm req"
| "goal_log L cfg rm req Phase2 = log1 L cfg rm req @ log2 L cfg rm req"
| "goal_log L cfg rm req Phase3 = log1 L cfg rm req @ log23 L cfg rm req"
| "goal_log L cfg rm req Finished =
     (if all_accepted L cfg rm req
      then log1 L cfg rm req @ log23 L cfg rm req @ closeAll (slots3 L cfg rm req)
      else log1 L cfg rm req @ cleanup rm (slots1 L cfg rm req) @ closeAll (slots1 L cfg rm req))"

text \<open>Every target, run to the end of the phase from where it is, arrives there.\<close>

definition on_course :: "'r dns_lib \<Rightarrow> config \<Rightarrow> remote \<Rightarrow> request \<Rightarrow> gstate \<Rightarrow> bool" where
  "on_course L cfg rm req g \<longleftrightarrow>
     length (g_pcs g) = length (rq_targets req) \<and> length (g_slots g) = length (rq_targets req) \<and>
     (g_phase g \<in> {Phase2, Phase3} \<longrightarrow> all_accepted L cfg rm req) \<and>
     (\<forall>i<length (rq_targets req).
        let rest = run_from L cfg rm req i (rq_targets req ! i) (g_pcs g ! i) (g_slots g ! i) in
        fst rest = goal_slots L cfg rm req (g_phase g) ! i \<and>
        events_of i (g_log g) @ snd rest = events_of i (goal_log L cfg rm req (g_phase g))) \<and>
     (\<forall>i. \<not> i < length (rq_targets req) \<longrightarrow> events_of i (g_log g) = []) \<and>
     (g_phase g = Finished \<longrightarrow> all_done g)"


lemma on_courseI:
  assumes "length (g_pcs g) = length (rq_targets req)" and "length (g_slots g) = length (rq_targets req)"
    and "g_phase g \<in> {Phase2, Phase3} \<Longrightarrow> all_accepted L cfg rm req"
    and "\<And>i. i < length (rq_targets req) \<Longrightarrow>
      fst (run_from L cfg rm req i (rq_targets req ! i) (g_pcs g ! i) (g_slots g ! i))
        = goal_slots L cfg rm req (g_phase g) ! i"
    and "\<And>i. i < length (rq_targets req) \<Longrightarrow>
      events_of i (g_log g) @ snd (run_from L cfg rm req i (rq_targets req ! i) (g_pcs g ! i) (g_slots g ! i))
        = events_of i (goal_log L cfg rm req (g_phase g))"
    and "\<And>i. \<not> i < length (rq_targets req) \<Longrightarrow> events_of i (g_log g) = []"
    and "g_phase g = Finished \<Longrightarrow> all_done g"
  shows "on_course L cfg rm req g"
  using assms by (simp add: on_course_def Let_def)

lemma on_courseD:
  assumes "on_course L cfg rm req g"
  shows "length (g_pcs g) = length (rq_targets req)" and "length (g_slots g) = length (rq_targets req)"
    and "g_phase g \<in> {Phase2, Phase3} \<Longrightarrow> all_accepted L cfg rm req"
    and "i < length (rq_targets req) \<Longrightarrow>
      fst (run_from L cfg rm req i (rq_targets req ! i) (g_pcs g ! i) (g_slots g ! i))
        = goal_slots L cfg rm req (g_phase g) ! i"
    and "i < length (rq_targets req) \<Longrightarrow>
      events_of i (g_log g) @ snd (run_from L cfg rm req i (rq_targets req ! i) (g_pcs g ! i) (g_slots g ! i))
        = events_of i (goal_log L cfg rm req (g_phase g))"
    and "\<not> i < length (rq_targets req) \<Longrightarrow> events_of i (g_log g) = []"
    and "g_phase g = Finished \<Longrightarrow> all_done g"
  using assms by (simp_all add: on_course_def Let_def)

text \<open>At the barrier every goroutine is done, so the slots and events are those of the goal.\<close>

lemma barrier:
  assumes "on_course L cfg rm req g" and "all_done g"
  shows "g_slots g = goal_slots L cfg rm req (g_phase g)"
    and "events_of i (g_log g) = events_of i (goal_log L cfg rm req (g_phase g))"
proof -
  note oc = on_courseD [OF assms(1)]
  have pc: "g_pcs g ! i = At_done" if "i < length (rq_targets req)" for i
    using assms(2) that oc(1) by (simp add: all_done_def list_all_length)
  have len: "length (goal_slots L cfg rm req (g_phase g)) = length (rq_targets req)"
    by (cases "g_phase g") simp_all
  show "g_slots g = goal_slots L cfg rm req (g_phase g)"
    using oc(2,4) pc len by (intro nth_equalityI) (simp_all add: run_from_done)
  have out: "events_of j (goal_log L cfg rm req (g_phase g)) = []" if "\<not> j < length (rq_targets req)" for j
    using that by (cases "g_phase g")
      (simp_all add: log1_outside log23_events log2_def run_phase_events local_phases cleanup_events closeAll_events)
  show "events_of i (g_log g) = events_of i (goal_log L cfg rm req (g_phase g))"
  proof (cases "i < length (rq_targets req)")
    case True
    with oc(5) [OF True] pc show ?thesis by (simp add: run_from_done)
  next
    case False
    with oc(6) out show ?thesis by simp
  qed
qed

lemma on_course_init: "on_course L cfg rm req (g_init req)"
proof (rule on_courseI)
  fix i assume i: "i < length (rq_targets req)"
  let ?r = "run_from L cfg rm req i (rq_targets req ! i) (g_pcs (g_init req) ! i) (g_slots (g_init req) ! i)"
  have "?r = (slots1 L cfg rm req ! i, events_of i (log1 L cfg rm req))"
    using i by (simp add: g_init_def Let_def run_from_phase1 slots1_nth)
  then show "fst ?r = goal_slots L cfg rm req (g_phase (g_init req)) ! i"
    and "events_of i (g_log (g_init req)) @ snd ?r = events_of i (goal_log L cfg rm req (g_phase (g_init req)))"
    by (simp_all add: g_init_def Let_def)
qed (simp_all add: g_init_def Let_def)

lemma on_course_goroutine:
  assumes oc: "on_course L cfg rm req g"
    and i: "i < length (rq_targets req)" and pc: "g_pcs g ! i \<noteq> At_done"
    and m: "micro L cfg rm req i (rq_targets req ! i) (g_pcs g ! i) (g_slots g ! i) = (p, sl, evs)"
  shows "on_course L cfg rm req
    (g\<lparr>g_pcs := (g_pcs g)[i := p], g_slots := (g_slots g)[i := sl], g_log := g_log g @ evs\<rparr>)"
proof -
  note d = on_courseD [OF oc]
  have ev: "events_of j evs = (if j = i then evs else [])" for j
    using micro_events [of _ L cfg rm req i "rq_targets req ! i" "g_pcs g ! i" "g_slots g ! i"]
    by (auto simp: events_of_def m filter_id_conv filter_empty_conv)
  have run: "fst (run_from L cfg rm req i (rq_targets req ! i) p sl) = goal_slots L cfg rm req (g_phase g) ! i"
    "events_of i (g_log g) @ evs @ snd (run_from L cfg rm req i (rq_targets req ! i) p sl)
       = events_of i (goal_log L cfg rm req (g_phase g))"
    using d(4,5) [OF i] by (simp_all add: run_from_step [OF pc m])
  have "g_phase g \<noteq> Finished"
    using d(1,7) i pc by (auto simp: all_done_def list_all_length)
  then show ?thesis
    by (intro on_courseI) (use d ev run i in \<open>auto simp: nth_list_update\<close>)
qed

lemma on_course_step:
  assumes oc: "on_course L cfg rm req g" and step: "gstep L cfg rm req g g'"
  shows "on_course L cfg rm req g'"
  using step
proof (cases rule: gstep.cases)
  case (goroutine i p sl evs)
  with on_course_goroutine [OF oc] show ?thesis by simp
next
  case abandon
  note d = on_courseD [OF oc]
  have sl: "g_slots g = slots1 L cfg rm req"
    and ev: "events_of i (g_log g) = events_of i (log1 L cfg rm req)" for i
    using barrier [OF oc abandon(3)] abandon(2) by simp_all
  have "\<not> all_accepted L cfg rm req" using abandon(4) by (simp add: all_accepted_def all_checked_def sl)
  then show ?thesis unfolding abandon(1)
    using d(1,2,6) abandon(3) sl ev
    by (intro on_courseI)
      (auto simp: all_done_def list_all_length run_from_done cleanup_events closeAll_events)
next
  case commit
  note d = on_courseD [OF oc]
  have sl: "g_slots g = slots1 L cfg rm req"
    and ev: "events_of i (g_log g) = events_of i (log1 L cfg rm req)" for i
    using barrier [OF oc commit(3)] commit(2) by simp_all
  have "all_accepted L cfg rm req" using commit(4) by (simp add: all_accepted_def all_checked_def sl)
  then show ?thesis unfolding commit(1)
    using d(1,6) sl ev
    by (intro on_courseI)
      (auto simp: run_from_phase2 slots2_nth log2_def run_phase_events local_phases)
next
  case verify
  note d = on_courseD [OF oc]
  have sl: "g_slots g = slots2 L cfg rm req"
    and ev: "events_of i (g_log g) = events_of i (log1 L cfg rm req @ log2 L cfg rm req)" for i
    using barrier [OF oc verify(3)] verify(2) by simp_all
  from d(3) verify(2) have "all_accepted L cfg rm req" by simp
  then show ?thesis unfolding verify(1)
    using d(1,6) sl ev
    by (intro on_courseI)
      (auto simp: run_from_phase3 slots3_nth log23_events log2_def run_phase_events local_phases)
next
  case finish
  note d = on_courseD [OF oc]
  have sl: "g_slots g = slots3 L cfg rm req"
    and ev: "events_of i (g_log g) = events_of i (log1 L cfg rm req @ log23 L cfg rm req)" for i
    using barrier [OF oc finish(3)] finish(2) by simp_all
  from d(3) finish(2) have "all_accepted L cfg rm req" by simp
  then show ?thesis unfolding finish(1)
    using d(1,2,6) finish(3) sl ev
    by (intro on_courseI) (auto simp: all_done_def list_all_length run_from_done closeAll_events)
qed

lemma reachable_on_course: "reachable L cfg rm req g \<Longrightarrow> on_course L cfg rm req g"
  by (induction rule: reachable_induct) (auto intro: on_course_init on_course_step)


text \<open>The log is a part with the checks only, complete at the first barrier, and a part after it.\<close>

definition is_change :: "event \<Rightarrow> bool" where
  "is_change e = (case e of Ran i c cmd \<Rightarrow> c = Run_move \<or> c = Run_reload | _ \<Rightarrow> False)"

definition split_at_barrier ::
    "'r dns_lib \<Rightarrow> config \<Rightarrow> remote \<Rightarrow> request \<Rightarrow> gstate \<Rightarrow> event list \<Rightarrow> event list \<Rightarrow> bool" where
  "split_at_barrier L cfg rm req g a b \<longleftrightarrow>
     g_log g = a @ b \<and> (\<forall>e\<in>set a. \<not> is_change e) \<and> (g_phase g = Phase1 \<longrightarrow> b = []) \<and>
     (g_phase g \<noteq> Phase1 \<longrightarrow> (\<forall>i. events_of i a = events_of i (log1 L cfg rm req)))
     \<and> (g_phase g \<noteq> Phase1 \<and> \<not> all_accepted L cfg rm req \<longrightarrow> (\<forall>e\<in>set b. \<not> is_change e))"

lemma cleanup_close_no_change:
  "e \<in> set (cleanup rm sls) \<Longrightarrow> \<not> is_change e" "e \<in> set (closeAll sls) \<Longrightarrow> \<not> is_change e"
  using cleanup_no_change closeAll_no_run by (auto simp: is_change_def split: event.splits)

lemma log1_change: "e \<in> set (log1 L cfg rm req) \<Longrightarrow> \<not> is_change e"
  by (auto simp: is_change_def log1_no_change split: event.splits)

lemma split_step:
  assumes oc: "on_course L cfg rm req g" and sp: "split_at_barrier L cfg rm req g a b"
    and step: "gstep L cfg rm req g g'"
  shows "\<exists>a b. split_at_barrier L cfg rm req g' a b"
  using step
proof (cases rule: gstep.cases)
  case (goroutine i p sl evs)
  show ?thesis
  proof (cases "g_phase g = Phase1")
    case True
    have "events_of i (g_log g) @ evs @ snd (run_from L cfg rm req i (rq_targets req ! i) p sl)
        = events_of i (log1 L cfg rm req)"
      using on_courseD(5) [OF oc goroutine(2)] True
      by (simp add: run_from_step [OF goroutine(3,4)])
    then have "set evs \<subseteq> set (events_of i (log1 L cfg rm req))" by (metis Un_upper1 le_supI2 set_append)
    then have "\<forall>e\<in>set evs. \<not> is_change e" using log1_change by (fastforce simp: events_of_def)
    with sp True have "split_at_barrier L cfg rm req g' (a @ evs) []"
      by (auto simp: split_at_barrier_def goroutine(1))
    then show ?thesis by blast
  next
    case False
    have "g_phase g \<noteq> Finished"
      using on_courseD(1,7) [OF oc] goroutine(2,3) by (auto simp: all_done_def list_all_length)
    with False have "all_accepted L cfg rm req" using on_courseD(3) [OF oc] by (cases "g_phase g") auto
    with sp False have "split_at_barrier L cfg rm req g' a (b @ evs)"
      by (simp add: split_at_barrier_def goroutine(1))
    then show ?thesis by blast
  qed
next
  case abandon
  from sp abandon barrier(2) [OF oc abandon(3)]
  have "split_at_barrier L cfg rm req g' a (cleanup rm (g_slots g) @ closeAll (g_slots g))"
    by (auto simp: split_at_barrier_def dest: cleanup_close_no_change)
  then show ?thesis by blast
next
  case commit
  from on_course_step [OF oc step] commit have "all_accepted L cfg rm req"
    by (auto dest: on_courseD(3))
  with sp commit barrier(2) [OF oc commit(3)] have "split_at_barrier L cfg rm req g' a []"
    by (simp add: split_at_barrier_def)
  then show ?thesis by blast
next
  case verify
  with sp have "split_at_barrier L cfg rm req g' a b" by (simp add: split_at_barrier_def)
  then show ?thesis by blast
next
  case finish
  from on_courseD(3) [OF oc] finish(2) have "all_accepted L cfg rm req" by simp
  with sp finish have "split_at_barrier L cfg rm req g' a (b @ closeAll (g_slots g))"
    by (simp add: split_at_barrier_def)
  then show ?thesis by blast
qed

lemma reachable_split:
  "reachable L cfg rm req g \<Longrightarrow> \<exists>a b. split_at_barrier L cfg rm req g a b"
proof (induction rule: reachable_induct)
  case init
  have "split_at_barrier L cfg rm req (g_init req) [] []"
    by (simp add: split_at_barrier_def g_init_def Let_def)
  then show ?case by blast
next
  case (step g g')
  then show ?case using split_step reachable_on_course by metis
qed


subsection \<open>Every schedule\<close>

text \<open>
  C2: The same guarantee for the goroutines: in every state that any interleaving of them reaches,
  a move or reload in the log is preceded by the upload to, and the successful check on, every
  target.
\<close>
theorem schedules_change_nothing_before_every_check:
  assumes "reachable L cfg rm req g"
    and "g_log g = pre @ Ran i c cmd # post" and "c = Run_move \<or> c = Run_reload"
    and "k < length (rq_targets req)"
  shows "\<exists>srv tmp. map_of (c_servers cfg) (rq_targets req ! k) = Some srv
    \<and> Uploaded k tmp (rq_content req) \<in> set pre
    \<and> Ran k Run_check (checkCommand srv (dns_fqdn L (rq_zone req)) tmp) \<in> set pre
    \<and> snd (rm_run rm k Run_check (checkCommand srv (dns_fqdn L (rq_zone req)) tmp)) = None"
proof -
  obtain a b where sp: "split_at_barrier L cfg rm req g a b" using reachable_split [OF assms(1)] by blast
  have change: "is_change (Ran i c cmd)" using assms(3) by (simp add: is_change_def)
  with sp have na: "Ran i c cmd \<notin> set a" by (auto simp: split_at_barrier_def)
  have split: "a @ b = pre @ Ran i c cmd # post" using sp assms(2) by (simp add: split_at_barrier_def)
  have "Ran i c cmd \<in> set (a @ b)" unfolding split by simp
  with na have inb: "Ran i c cmd \<in> set b" by simp
  with sp have p1: "g_phase g \<noteq> Phase1" by (auto simp: split_at_barrier_def)
  with sp change inb have acc: "all_accepted L cfg rm req" by (auto simp: split_at_barrier_def)
  from in_prefix [OF split na] have "set (events_of k a) \<subseteq> set pre" by (auto simp: events_of_def)
  with sp p1 have in_pre: "set (events_of k (log1 L cfg rm req)) \<subseteq> set pre"
    by (simp add: split_at_barrier_def)
  from slots1_nth [OF assms(4), where L = L and cfg = cfg and rm = rm] show ?thesis
  proof (cases rule: phase1_cases)
    case (accepted cmd' out srv)
    with in_pre show ?thesis
      by (intro exI [of _ srv] exI [of _ "sl_tmp (slots1 L cfg rm req ! k)"]) simp
  qed (use accepted_target [OF acc assms(4)] in simp_all)
qed

text \<open>
  C8: Every interleaving of the goroutines that runs to the end has the per-server results of the
  sequential model of Deploy and, for each target, the same events in the same order.
\<close>
theorem schedules_agree_with_Deploy:
  assumes "Deploy L cfg ce rm req = (res, None, log)"
    and "reachable L cfg rm req g" and "g_phase g = Finished"
  shows "map sl_result (g_slots g) = dr_servers res \<and> (\<forall>i. events_of i (g_log g) = events_of i log)"
proof -
  have oc: "on_course L cfg rm req g" using assms(2) by (rule reachable_on_course)
  from barrier [OF oc on_courseD(7) [OF oc assms(3)]] assms(3)
  have "g_slots g = goal_slots L cfg rm req Finished"
    and "events_of i (g_log g) = events_of i (goal_log L cfg rm req Finished)" for i by simp_all
  with assms(1) show ?thesis by (cases rule: Deploy_cases) simp_all
qed

text \<open>The number of steps left: what the goroutines of this phase and of later phases can still do.\<close>

fun phase_weight :: "nat \<Rightarrow> phase \<Rightarrow> nat" where
  "phase_weight n Phase1 = 3 * n + 3"
| "phase_weight n Phase2 = n + 2"
| "phase_weight n Phase3 = 1"
| "phase_weight n Finished = 0"

definition steps_left :: "gstate \<Rightarrow> nat" where
  "steps_left g = phase_weight (length (g_pcs g)) (g_phase g) + sum_list (map pc_rank (g_pcs g))"

lemma sum_list_map_le:
  assumes "\<And>x. f x \<le> (k :: nat)"
  shows "sum_list (map f xs) \<le> k * length xs"
proof (induction xs)
  case (Cons x xs)
  with assms [of x] show ?case by simp
qed simp

lemma sum_list_update_less:
  "i < length xs \<Longrightarrow> f y < f (xs ! i) \<Longrightarrow>
     sum_list (map f (xs[i := y])) < sum_list (map (f :: _ \<Rightarrow> nat) xs)"
proof (induction xs arbitrary: i)
  case (Cons x xs)
  then show ?case by (cases i) auto
qed simp

lemma gstep_decreases:
  assumes "gstep L cfg rm req g g'" and "on_course L cfg rm req g"
  shows "steps_left g' < steps_left g"
  using assms(1)
proof (cases rule: gstep.cases)
  case (goroutine i p sl evs)
  have "pc_rank p < pc_rank (g_pcs g ! i)"
    using micro_rank [OF goroutine(3)] goroutine(4) by (metis fst_conv)
  then have "sum_list (map pc_rank ((g_pcs g)[i := p])) < sum_list (map pc_rank (g_pcs g))"
    using goroutine(2) on_courseD(1) [OF assms(2)] by (intro sum_list_update_less) simp_all
  then show ?thesis by (simp add: goroutine(1) steps_left_def)
next
  case abandon
  then show ?thesis by (simp add: steps_left_def)
next
  case commit
  have "sum_list (map (\<lambda>_. 2) (g_pcs g)) = 2 * length (g_pcs g)" by (simp add: sum_list_triv)
  then show ?thesis by (simp add: commit steps_left_def o_def)
next
  case verify
  have "pc_rank (verify_pc s) \<le> 1" for s by (simp add: verify_pc_def)
  from sum_list_map_le [OF this, where xs = "g_slots g"]
  have "sum_list (map (pc_rank \<circ> verify_pc) (g_slots g)) \<le> length (g_pcs g)"
    using on_courseD(1,2) [OF assms(2)] by (simp add: o_def)
  moreover have "length (g_slots g) = length (g_pcs g)" using on_courseD(1,2) [OF assms(2)] by simp
  ultimately show ?thesis by (simp add: verify steps_left_def)
next
  case finish
  then show ?thesis by (simp add: steps_left_def)
qed

lemma not_stuck:
  assumes "on_course L cfg rm req g" and "g_phase g \<noteq> Finished"
  shows "\<exists>g'. gstep L cfg rm req g g'"
proof (cases "all_done g")
  case True
  with assms(2) show ?thesis by (cases "g_phase g") (blast intro: gstep.intros)+
next
  case False
  then obtain i where i: "i < length (g_pcs g)" "g_pcs g ! i \<noteq> At_done"
    by (auto simp: all_done_def list_all_length)
  then have "i < length (rq_targets req)" using on_courseD(1) [OF assms(1)] by simp
  moreover obtain p sl evs where
    "micro L cfg rm req i (rq_targets req ! i) (g_pcs g ! i) (g_slots g ! i) = (p, sl, evs)"
    by (metis prod_cases3)
  ultimately show ?thesis using i(2) by (blast intro: gstep.goroutine)
qed

lemma schedule_reaches_end:
  "on_course L cfg rm req g \<Longrightarrow> \<exists>g'. (gstep L cfg rm req)\<^sup>*\<^sup>* g g' \<and> g_phase g' = Finished"
proof (induction "steps_left g" arbitrary: g rule: less_induct)
  case less
  show ?case
  proof (cases "g_phase g = Finished")
    case True
    then show ?thesis by blast
  next
    case False
    then obtain g' where step: "gstep L cfg rm req g g'" using not_stuck less.prems by blast
    from less.hyps [OF gstep_decreases [OF step less.prems] on_course_step [OF less.prems step]] step
    show ?thesis by (meson converse_rtranclp_into_rtranclp)
  qed
qed

lemma schedule_length:
  "(gstep L cfg rm req ^^ k) (g_init req) g \<Longrightarrow> steps_left g + k \<le> 7 * length (rq_targets req) + 3"
proof (induction k arbitrary: g)
  case 0
  then have "g = g_init req" by simp
  then show ?case by (simp add: steps_left_def g_init_def Let_def sum_list_replicate)
next
  case (Suc k)
  then obtain h where h: "(gstep L cfg rm req ^^ k) (g_init req) h" "gstep L cfg rm req h g" by auto
  then have "reachable L cfg rm req h" by (auto simp: reachable_def dest: relpowp_imp_rtranclp)
  from gstep_decreases [OF h(2) reachable_on_course [OF this]] Suc.IH [OF h(1)]
  show ?case by simp
qed

text \<open>
  C9: A deploy to n targets takes at most 7n + 3 steps under every schedule, and no schedule gets
  stuck: from every state reached a finished state can be reached.
\<close>
theorem every_schedule_ends:
  assumes "(gstep L cfg rm req ^^ k) (g_init req) g"
  shows "k \<le> 7 * length (rq_targets req) + 3
    \<and> (\<exists>g'. (gstep L cfg rm req)\<^sup>*\<^sup>* g g' \<and> g_phase g' = Finished)"
proof -
  have "reachable L cfg rm req g"
    using assms by (auto simp: reachable_def dest: relpowp_imp_rtranclp)
  with schedule_length [OF assms] show ?thesis
    by (auto intro: schedule_reaches_end reachable_on_course)
qed

end
