(* ===== verification/Remote_Files.thy ===== *)
theory Remote_Files
  imports Pipeline_Safety
begin

section \<open>The files on the target servers\<close>

text \<open>
  What a run of \<open>Deploy\<close> leaves in the file systems of its targets: the live zone files and the temporary files.
  The log says what was done; its effect on the files is that of an SFTP upload and of the POSIX commands
  \<open>mv -f -- a b\<close> and \<open>rm -f -- a\<close>, read from the command line with the shell's rules.
\<close>


subsection \<open>The effect of an event\<close>

text \<open>The files of target \<open>i\<close> are a map from paths to contents. Two things are left open: what a failed upload
  leaves under its path (\<open>part i\<close>), and whether a command took effect although its answer was an error
  (\<open>took i c\<close>), as when the connection is lost. The configured check and reload commands do not write the zone
  directory.\<close>

type_synonym files = "nat \<Rightarrow> string \<Rightarrow> string option"

fun shell_effect :: "string list \<Rightarrow> (string \<Rightarrow> string option) \<Rightarrow> string \<Rightarrow> string option" where
  "shell_effect [a, b, c, p] m = (if [a, b, c] = [''rm'', ''-f'', ''--''] then m(p := None) else m)"
| "shell_effect [a, b, c, p, q] m = (if [a, b, c] = [''mv'', ''-f'', ''--''] then m(p := None, q := m p) else m)"
| "shell_effect _ m = m"

fun file_effect :: "remote \<Rightarrow> (nat \<Rightarrow> string option) \<Rightarrow> (nat \<Rightarrow> call \<Rightarrow> bool) \<Rightarrow> event \<Rightarrow> files \<Rightarrow> files" where
  "file_effect rm part took (Uploaded i tmp content) fs =
     fs(i := (fs i)(tmp := (if rm_upload rm i tmp content = None then Some content else part i)))"
| "file_effect rm part took (Ran i c cmd) fs =
     (if c \<in> {Run_move, Run_remove} \<and> (snd (rm_run rm i c cmd) = None \<or> took i c)
      then (case sh_words cmd of None \<Rightarrow> fs | Some ws \<Rightarrow> fs(i := shell_effect ws (fs i)))
      else fs)"
| "file_effect rm part took (Dialed i) fs = fs"
| "file_effect rm part took (Queried i) fs = fs"
| "file_effect rm part took (Closed i) fs = fs"

definition files_after :: "remote \<Rightarrow> (nat \<Rightarrow> string option) \<Rightarrow> (nat \<Rightarrow> call \<Rightarrow> bool) \<Rightarrow> event list \<Rightarrow> files \<Rightarrow> files" where
  "files_after rm part took log = fold (file_effect rm part took) log"

lemma files_after_simps [simp]:
  "files_after rm part took [] fs = fs"
  "files_after rm part took (e # log) fs = files_after rm part took log (file_effect rm part took e fs)"
  "files_after rm part took (a @ b) fs = files_after rm part took b (files_after rm part took a fs)"
  by (simp_all add: files_after_def)

lemma words_of_commands:
  "sh_words (removeCommand tmp) = Some [''rm'', ''-f'', ''--'', tmp]"
  "sh_words (moveCommand tmp dst) = Some [''mv'', ''-f'', ''--'', tmp, dst]"
  using sh_words_then_quoted [OF sh_words_rm] sh_words_two_quoted [OF sh_words_mv]
  by (simp_all add: removeCommand_def moveCommand_def)

text \<open>An event changes the files of its own target only, so those of a target depend on its events.\<close>

lemma file_effect_other: "event_target e \<noteq> i \<Longrightarrow> file_effect rm part took e fs i = fs i"
  by (cases e) (auto split: option.split)

lemma file_effect_cong:
  "fs i = gs i \<Longrightarrow> file_effect rm part took e fs i = file_effect rm part took e gs i"
  by (cases "event_target e = i"; cases e) (simp_all add: file_effect_other split: option.split)

lemma files_after_cong: "fs i = gs i \<Longrightarrow> files_after rm part took log fs i = files_after rm part took log gs i"
proof (induction log arbitrary: fs gs)
  case (Cons e log)
  from Cons.prems have "file_effect rm part took e fs i = file_effect rm part took e gs i" by (rule file_effect_cong)
  then have "files_after rm part took log (file_effect rm part took e fs) i =
      files_after rm part took log (file_effect rm part took e gs) i"
    by (rule Cons.IH)
  then show ?case by simp
qed simp

lemma files_after_events:
  "files_after rm part took log fs i = files_after rm part took (events_of i log) fs i"
proof (induction log arbitrary: fs)
  case (Cons e log)
  show ?case
  proof (cases "event_target e = i")
    case True
    with Cons show ?thesis by (simp add: events_of_def)
  next
    case False
    have "files_after rm part took log (file_effect rm part took e fs) i = files_after rm part took log fs i"
      by (rule files_after_cong) (rule file_effect_other [OF False])
    with Cons False show ?thesis by (simp add: events_of_def)
  qed
qed simp


subsection \<open>The events of one target\<close>

abbreviation live_path :: "config \<Rightarrow> request \<Rightarrow> nat \<Rightarrow> string" where
  "live_path cfg req i \<equiv> remoteFinalPath (server_of cfg (rq_targets req ! i)) (remoteFile (rq_zone req))"

abbreviation temp_path :: "config \<Rightarrow> remote \<Rightarrow> request \<Rightarrow> nat \<Rightarrow> string" where
  "temp_path cfg rm req i \<equiv>
     remoteTmpPath (rm_random rm i) (server_of cfg (rq_targets req ! i)) (remoteFile (rq_zone req))"

lemma live_is_not_temp: "remoteFinalPath srv (remoteFile z) \<noteq> remoteTmpPath random srv' (remoteFile z')"
proof
  assume eq: "remoteFinalPath srv (remoteFile z) = remoteTmpPath random srv' (remoteFile z')"
  obtain b where "remoteFinalPath srv (remoteFile z) = dir_prefix (s_remote_zone_dir srv) @ b @ ''.zone''"
    using remoteFinalPath_form by blast
  then have "last (remoteFinalPath srv (remoteFile z)) = CHR ''e''" by simp
  moreover obtain c where "remoteTmpPath random srv' (remoteFile z') =
      dir_prefix (s_remote_zone_dir srv') @ ''.mrdns-'' @ c @ ''.zone-'' @ randomSuffix random @ ''.tmp''"
    using remoteTmpPath_form by blast
  then have "last (remoteTmpPath random srv' (remoteFile z')) = CHR ''p''" by simp
  ultimately show False using eq by simp
qed

text \<open>Phase 1 uploads to the temporary path of the target and runs no command that changes files.\<close>

lemma phase1_tmp:
  assumes "phase1_target L cfg rm req i name zero_slot = (sl, evs)" and "sl_conn sl"
  shows "sl_tmp sl = remoteTmpPath (rm_random rm i) (server_of cfg name) (remoteFile (rq_zone req))"
  using assms by (auto simp: phase1_target_def Let_def server_of_def split: option.splits prod.splits)

lemma target_events:
  assumes "Deploy L cfg ce rm req = (res, err, log)" and "i < length (rq_targets req)"
  defines "tmp \<equiv> temp_path cfg rm req i" and "content \<equiv> rq_content req"
  obtains (untouched) "\<forall>e\<in>set (events_of i log). e \<in> {Dialed i, Closed i}"
  | (abandoned) check where "dr_status res = StatusFailed" "\<forall>e\<in>set check. \<exists>cmd. e = Ran i Run_check cmd"
      "events_of i log = [Dialed i, Uploaded i tmp content] @ check @ [Ran i Run_remove (removeCommand tmp), Closed i]"
  | (committed) srv check reload tail where "dr_status res \<noteq> StatusFailed" "\<forall>e\<in>set check. \<exists>cmd. e = Ran i Run_check cmd"
      "map_of (c_servers cfg) (rq_targets req ! i) = Some srv" "rm_upload rm i tmp content = None"
      "\<forall>e\<in>set reload. \<exists>cmd. e = Ran i Run_reload cmd" "set tail \<subseteq> {Queried i}"
      "events_of i log = [Dialed i, Uploaded i tmp content] @ check
         @ [Ran i Run_move (moveCommand tmp (live_path cfg req i))] @ reload @ tail @ [Closed i]"
  using assms(1)
proof (cases rule: Deploy_cases)
  case (refused e)
  then show thesis by (intro untouched) simp
next
  case abandoned': abandoned
  note run = slots1_nth [OF assms(2), where L = L and cfg = cfg and rm = rm]
  have status: "dr_status res = StatusFailed" by (simp add: abandoned'(4) base_result_def)
  have end_events: "events_of i log = events_of i (log1 L cfg rm req)
      @ cleanup_target rm i (slots1 L cfg rm req ! i) @ (if sl_conn (slots1 L cfg rm req ! i) then [Closed i] else [])"
    using assms(2) by (simp add: abandoned'(5) cleanup_events closeAll_events)
  from run show thesis
  proof (cases rule: phase1_cases)
    case not_dialed
    then show thesis by (intro untouched) (simp add: end_events cleanup_target_def)
  next
    case upload_failed
    with phase1_tmp [OF run] show thesis
      by (intro abandoned [OF status, of "[]"]) (simp_all add: end_events cleanup_target_def tmp_def content_def)
  next
    case (check_failed cmd)
    with phase1_tmp [OF run] show thesis
      by (intro abandoned [OF status, of "[Ran i Run_check cmd]"])
        (simp_all add: end_events cleanup_target_def tmp_def content_def)
  next
    case (accepted cmd out srv)
    with phase1_tmp [OF run] show thesis
      by (intro abandoned [OF status, of "[Ran i Run_check cmd]"])
        (simp_all add: end_events cleanup_target_def tmp_def content_def)
  qed
next
  case committed': committed
  note run = slots1_nth [OF assms(2), where L = L and cfg = cfg and rm = rm]
  have status: "dr_status res \<noteq> StatusFailed" by (simp add: committed'(4) final_status_iff)
  from run show thesis
  proof (cases rule: phase1_cases)
    case (accepted cmd out srv)
    from committed'(3) assms(2) show thesis
    proof (cases rule: committed_target)
      case (1 mv reload tail)
      with accepted phase1_tmp [OF run] committed'(5) assms(2) show thesis
        by (intro committed [OF status, of "[Ran i Run_check cmd]" srv reload tail])
          (simp_all add: closeAll_events tmp_def content_def)
    qed
  qed (use accepted_target(2) [OF committed'(3) assms(2)] in simp_all)
qed

lemma outside_events:
  assumes "Deploy L cfg ce rm req = (res, err, log)" and "\<not> i < length (rq_targets req)"
  shows "events_of i log = []"
  using assms(1)
  by (cases rule: Deploy_cases)
    (use assms(2) in \<open>simp_all add: log1_outside log23_events cleanup_events closeAll_events\<close>)

text \<open>Events without an effect on the files.\<close>

definition silent :: "event \<Rightarrow> bool" where
  "silent e \<longleftrightarrow> (case e of Uploaded i tmp content \<Rightarrow> False | Ran i c cmd \<Rightarrow> c \<notin> {Run_move, Run_remove} | _ \<Rightarrow> True)"

lemma files_after_silent: "\<forall>e\<in>set log. silent e \<Longrightarrow> files_after rm part took log fs = fs"
proof (induction log)
  case (Cons e log)
  then have "file_effect rm part took e fs = fs" by (cases e) (simp_all add: silent_def)
  with Cons show ?case by simp
qed simp



subsection \<open>What a deploy leaves\<close>

lemma files_after_target:
  assumes "Deploy L cfg ce rm req = (res, err, log)" and "i < length (rq_targets req)"
  defines "tmp \<equiv> temp_path cfg rm req i" and "dst \<equiv> live_path cfg req i" and "content \<equiv> rq_content req"
  obtains (untouched) "files_after rm part took log fs i = fs i" "\<And>c cmd. Ran i c cmd \<notin> set log"
      "\<And>t x. Uploaded i t x \<notin> set log"
  | (abandoned) c where "dr_status res = StatusFailed" "Ran i Run_remove (removeCommand tmp) \<in> set log"
      "\<And>cmd. Ran i Run_move cmd \<notin> set log" "\<And>t x. Uploaded i t x \<in> set log \<Longrightarrow> t = tmp"
      "files_after rm part took log fs i =
         (fs i)(tmp := (if snd (rm_run rm i Run_remove (removeCommand tmp)) = None \<or> took i Run_remove then None else c))"
  | (committed) srv where "dr_status res \<noteq> StatusFailed" "Ran i Run_move (moveCommand tmp dst) \<in> set log"
      "\<And>cmd. Ran i Run_move cmd \<in> set log \<Longrightarrow> cmd = moveCommand tmp dst" "\<And>t x. Uploaded i t x \<in> set log \<Longrightarrow> t = tmp"
      "map_of (c_servers cfg) (rq_targets req ! i) = Some srv"
      "Uploaded i tmp content \<in> set log" "rm_upload rm i tmp content = None"
      "files_after rm part took log fs i =
         (if snd (rm_run rm i Run_move (moveCommand tmp dst)) = None \<or> took i Run_move
          then (fs i)(tmp := None, dst := Some content) else (fs i)(tmp := Some content))"
proof -
  have mem: "e \<in> set log \<longleftrightarrow> e \<in> set (events_of i log)" if "event_target e = i" for e
    using that by (simp add: events_of_def)
  have quiet: "files_after rm part took (a @ es) gs i = files_after rm part took es (files_after rm part took a gs) i" for a es gs
    by simp
  note run = files_after_events [of rm part took log fs i]
  have ne: "dst \<noteq> tmp" unfolding dst_def tmp_def by (rule live_is_not_temp)
  from assms(1,2) show thesis
  proof (cases rule: target_events)
    case untouched
    then have "\<forall>e\<in>set (events_of i log). silent e" by (auto simp: silent_def)
    then have "files_after rm part took log fs i = fs i" using run by (simp add: files_after_silent)
    moreover have "Ran i c cmd \<notin> set log" "Uploaded i t x \<notin> set log" for c cmd t x
      using untouched by (auto simp: mem)
    ultimately show thesis by (rule that(1))
  next
    case (abandoned check)
    then have "\<forall>e\<in>set check. silent e" by (auto simp: silent_def)
    with run abandoned(3)
    have "files_after rm part took log fs i =
         (fs i)(tmp := (if snd (rm_run rm i Run_remove (removeCommand tmp)) = None \<or> took i Run_remove then None
            else if rm_upload rm i tmp content = None then Some content else part i))"
      by (simp add: files_after_silent words_of_commands tmp_def content_def)
    moreover have "Ran i Run_remove (removeCommand tmp) \<in> set log" "\<And>cmd. Ran i Run_move cmd \<notin> set log"
      "\<And>t x. Uploaded i t x \<in> set log \<Longrightarrow> t = tmp"
      using abandoned(2,3) by (auto simp: mem tmp_def)
    ultimately show thesis by (intro that(2) [OF abandoned(1)])
  next
    case (committed srv check reload tail)
    then have "\<forall>e\<in>set check. silent e" "\<forall>e\<in>set reload. silent e" "\<forall>e\<in>set tail. silent e"
      by (auto simp: silent_def)
    with run committed(4,7)
    have "files_after rm part took log fs i =
         (if snd (rm_run rm i Run_move (moveCommand tmp dst)) = None \<or> took i Run_move
          then (fs i)(tmp := None, dst := Some content) else (fs i)(tmp := Some content))"
      using ne by (simp add: files_after_silent words_of_commands tmp_def content_def dst_def)
    moreover have "Ran i Run_move (moveCommand tmp dst) \<in> set log" "Uploaded i tmp content \<in> set log"
      "\<And>cmd. Ran i Run_move cmd \<in> set log \<Longrightarrow> cmd = moveCommand tmp dst" "\<And>t x. Uploaded i t x \<in> set log \<Longrightarrow> t = tmp"
      using committed(2,5-7) by (auto simp: mem tmp_def content_def dst_def)
    moreover have "rm_upload rm i tmp content = None" using committed(4) by (simp add: tmp_def content_def)
    ultimately show thesis by (intro that(3) [OF committed(1) _ _ _ committed(3)])
  qed
qed

text \<open>
  C12: What a deploy does to the files of a target, at the end: a path other than that of its own
  temporary file changes only if it is the live zone file of the target and the move was run and
  took effect, and then it holds the whole content of the request.
\<close>
theorem live_file_after_deploy:
  assumes "Deploy L cfg ce rm req = (res, err, log)"
    and "p \<noteq> remoteTmpPath (rm_random rm i) (server_of cfg (rq_targets req ! i)) (remoteFile (rq_zone req))"
  shows "files_after rm part took log fs i p =
    (if i < length (rq_targets req)
        \<and> p = remoteFinalPath (server_of cfg (rq_targets req ! i)) (remoteFile (rq_zone req))
        \<and> (\<exists>cmd. Ran i Run_move cmd \<in> set log \<and> (snd (rm_run rm i Run_move cmd) = None \<or> took i Run_move))
     then Some (rq_content req) else fs i p)"
proof (cases "i < length (rq_targets req)")
  case False
  with outside_events [OF assms(1)] show ?thesis by (simp add: files_after_events [of rm part took log])
next
  case True
  with assms(1) show ?thesis
  proof (cases rule: files_after_target [where part = part and took = took and fs = fs])
    case untouched
    then show ?thesis by simp
  next
    case (abandoned c)
    with assms(2) show ?thesis by simp
  next
    case (committed srv)
    have "(\<exists>cmd. Ran i Run_move cmd \<in> set log \<and> (snd (rm_run rm i Run_move cmd) = None \<or> took i Run_move)) \<longleftrightarrow>
        snd (rm_run rm i Run_move (moveCommand (temp_path cfg rm req i) (live_path cfg req i))) = None \<or> took i Run_move"
      using committed(2,3) by blast
    with committed(8) assms(2) True show ?thesis by simp
  qed
qed

text \<open>
  C20: After a deploy, a temporary file it had uploaded is still on a target only if the command
  that takes it away was run, answered with an error and had no effect: that command is the rm of
  exactly this path in a failed deploy, and the mv of it to the live file of the target otherwise.
\<close>
theorem staged_file_left_only_by_error:
  assumes "Deploy L cfg ce rm req = (res, err, log)" and "Uploaded i tmp content \<in> set log"
    and "files_after rm part took log fs i tmp \<noteq> None"
  shows "\<exists>c cmd. Ran i c cmd \<in> set log \<and> snd (rm_run rm i c cmd) \<noteq> None \<and> \<not> took i c
    \<and> (if dr_status res = StatusFailed then c = Run_remove \<and> sh_words cmd = Some [''rm'', ''-f'', ''--'', tmp]
       else c = Run_move \<and> sh_words cmd = Some [''mv'', ''-f'', ''--'', tmp,
         remoteFinalPath (server_of cfg (rq_targets req ! i)) (remoteFile (rq_zone req))])"
proof -
  have "events_of i log \<noteq> []"
    using assms(2) in_events_of [of "Uploaded i tmp content" log] by auto
  then have i: "i < length (rq_targets req)" using outside_events [OF assms(1)] by blast
  note tmp_live = live_is_not_temp [of _ "rq_zone req", symmetric]
  from assms(1) i show ?thesis
  proof (cases rule: files_after_target [where part = part and took = took and fs = fs])
    case untouched
    with assms(2) show ?thesis by simp
  next
    case (abandoned c)
    from abandoned(4) [OF assms(2)] have "tmp = temp_path cfg rm req i" .
    with abandoned(1,2,5) assms(3) show ?thesis
      by (intro exI [of _ Run_remove] exI [of _ "removeCommand tmp"]) (auto simp: words_of_commands split: if_splits)
  next
    case (committed srv)
    from committed(4) [OF assms(2)] have tmp: "tmp = temp_path cfg rm req i" .
    let ?mv = "moveCommand tmp (live_path cfg req i)"
    have ne: "tmp \<noteq> live_path cfg req i" unfolding tmp by (rule tmp_live)
    have "\<not> (snd (rm_run rm i Run_move ?mv) = None \<or> took i Run_move)"
    proof
      assume "snd (rm_run rm i Run_move ?mv) = None \<or> took i Run_move"
      then have "files_after rm part took log fs i = (fs i)(tmp := None, live_path cfg req i := Some (rq_content req))"
        using committed(8) by (simp only: tmp if_True)
      with ne have "files_after rm part took log fs i tmp = None" by (simp only: fun_upd_apply if_False if_True simp_thms)
      with assms(3) show False by (rule notE)
    qed
    moreover have "Ran i Run_move ?mv \<in> set log" using committed(2) tmp by simp
    ultimately show ?thesis
      using committed(1) by (intro exI [of _ Run_move] exI [of _ ?mv]) (simp add: words_of_commands)
  qed
qed

text \<open>On which targets the text is live, for those who build on the pipeline.\<close>

definition moved_everywhere :: "config \<Rightarrow> remote \<Rightarrow> request \<Rightarrow> event list \<Rightarrow> bool" where
  "moved_everywhere cfg rm req log \<longleftrightarrow> rq_targets req \<noteq> [] \<and>
     (\<forall>i<length (rq_targets req). \<exists>srv tmp. map_of (c_servers cfg) (rq_targets req ! i) = Some srv
        \<and> Uploaded i tmp (rq_content req) \<in> set log \<and> rm_upload rm i tmp (rq_content req) = None
        \<and> (let mv = moveCommand tmp (remoteFinalPath srv (remoteFile (rq_zone req)))
           in Ran i Run_move mv \<in> set log \<and> snd (rm_run rm i Run_move mv) = None))"

lemma AllMoved_moved_everywhere:
  assumes "Deploy L cfg ce rm req = (res, err, log)" and "AllMoved res"
  shows "moved_everywhere cfg rm req log"
  unfolding moved_everywhere_def
proof (intro conjI allI impI)
  have err: "err = None" and moves: "\<forall>i<length (rq_targets req). \<exists>cmd. Ran i Run_move cmd \<in> set log \<and> snd (rm_run rm i Run_move cmd) = None"
    using AllMoved_moves [OF assms(1)] assms(2) by auto
  show "rq_targets req \<noteq> []" using assms(1) err by (cases rule: Deploy_cases) auto
  fix i
  assume i: "i < length (rq_targets req)"
  with moves obtain cmd where cmd: "Ran i Run_move cmd \<in> set log" "snd (rm_run rm i Run_move cmd) = None" by blast
  from assms(1) i
  show "\<exists>srv tmp. map_of (c_servers cfg) (rq_targets req ! i) = Some srv
        \<and> Uploaded i tmp (rq_content req) \<in> set log \<and> rm_upload rm i tmp (rq_content req) = None
        \<and> (let mv = moveCommand tmp (remoteFinalPath srv (remoteFile (rq_zone req)))
           in Ran i Run_move mv \<in> set log \<and> snd (rm_run rm i Run_move mv) = None)"
  proof (cases rule: files_after_target [where part = "\<lambda>_. None" and took = "\<lambda>_ _. False" and fs = "\<lambda>_ _. None"])
    case (committed srv)
    have srv: "server_of cfg (rq_targets req ! i) = srv" using committed(5) by (simp add: server_of_def)
    have "snd (rm_run rm i Run_move (moveCommand (temp_path cfg rm req i) (live_path cfg req i))) = None"
      using committed(3) cmd by blast
    with committed(2,5-7) show ?thesis unfolding Let_def srv by blast
  next
    case untouched
    with cmd show ?thesis by simp
  next
    case (abandoned c)
    with cmd show ?thesis by simp
  qed
qed

end
