(* ===== verification/Example_Deploy.thy ===== *)
theory Example_Deploy
  imports Example_Runs Pipeline_Interleaving Remote_Files
begin

section \<open>The deploy theorems at concrete inputs\<close>

text \<open>
  Closed instances for the theorems on remote commands and on the pipeline: two servers, once with every
  call succeeding and once with one server rejecting the zone.
\<close>

definition ex_srv :: server where
  "ex_srv = server_defaults (ex_server\<lparr>s_reload_cmd := ''rndc reload {zone}''\<rparr>)"

theorem commands_pass_arguments_verbatim_witness:
  "sh_words (reloadCommand ex_srv (''a;b'' @ [quote])) = Some [''rndc'', ''reload'', ''a;b'' @ [quote]]"
proof -
  have chk: "sh_words (s_checkzone_cmd ex_srv) = Some [''named-checkzone'']"
    and rel: "s_reload_cmd ex_srv = ''rndc reload'' @ '' {zone}''"
    and words: "sh_words ''rndc reload'' = Some [''rndc'', ''reload'']"
    by (code_simp, code_simp, code_simp)
  have "''rndc reload'' \<noteq> u @ ''{zone}'' @ v" for u v
  proof
    assume eq: "''rndc reload'' = u @ ''{zone}'' @ v"
    have "CHR ''{'' \<in> set (u @ ''{zone}'' @ v)" by simp
    then have "CHR ''{'' \<in> set ''rndc reload''" unfolding eq [symmetric] .
    then show False by simp
  qed
  from commands_pass_arguments_verbatim [OF chk rel words this] show ?thesis by simp
qed

definition ex_cfg :: config where
  "ex_cfg = ex_config\<lparr>c_servers := [(''s1'', ex_srv), (''s2'', ex_srv)]\<rparr>"

definition ex_check :: check_env where
  "ex_check = \<lparr>ce_create = None, ce_write = None, ce_close = None, ce_run = (\<lambda>_ _ _. ([], None))\<rparr>"

definition ex_remote :: remote where
  "ex_remote = \<lparr>rm_dial = (\<lambda>_ _. None), rm_upload = (\<lambda>_ _ _. None), rm_run = (\<lambda>_ _ _. (''ok'', None)),
     rm_verify = (\<lambda>_ _ _. Inr 8), rm_random = (\<lambda>i j. of_nat (16 * i + j))\<rparr>"

text \<open>The second server rejects the staged file.\<close>

definition ex_reject :: remote where
  "ex_reject = ex_remote\<lparr>rm_run := (\<lambda>i c _.
     if i = 1 \<and> c = Run_check then (''bad zone'', Some ''exit status 1'') else ([], None))\<rparr>"

definition ex_request :: request where
  "ex_request = \<lparr>rq_zone = ''a'', rq_content = ''text'', rq_old_serial = 7, rq_new_serial = 8,
     rq_targets = [''s1'', ''s2'']\<rparr>"

fun is_upload :: "event \<Rightarrow> bool" where
  "is_upload (Uploaded i tmp content) = (i = 0)"
| "is_upload _ = False"

lemma is_uploadD: "is_upload e \<Longrightarrow> \<exists>tmp content. e = Uploaded 0 tmp content"
  by (cases e) auto

lemma ex_deploy_outcome:
  "(case Deploy ex_lib ex_cfg ex_check ex_remote ex_request of (res, err, log) \<Rightarrow>
      dr_status res = StatusSuccess \<and> err = None \<and> length (filter is_change log) = 4 \<and> AllMoved res)"
  by code_simp

lemma ex_reject_outcome:
  "(case Deploy ex_lib ex_cfg ex_check ex_reject ex_request of (res, err, log) \<Rightarrow>
      dr_status res = StatusFailed \<and> err = None
      \<and> list_ex is_upload log)"
  by code_simp

theorem status_is_slowest_target_witness:
  "dr_status (fst (Deploy ex_lib ex_cfg ex_check ex_remote ex_request)) = StatusSuccess
   \<and> list_all flags_in_order (dr_servers (fst (Deploy ex_lib ex_cfg ex_check ex_remote ex_request)))"
proof -
  obtain res log where d: "Deploy ex_lib ex_cfg ex_check ex_remote ex_request = (res, None, log)"
      "dr_status res = StatusSuccess"
    using ex_deploy_outcome by (auto split: prod.splits)
  from status_is_slowest_target [OF d(1)] d show ?thesis by simp
qed

theorem AllMoved_iff_every_move_succeeded_witness:
  "\<exists>res err log. Deploy ex_lib ex_cfg ex_check ex_remote ex_request = (res, err, log)
     \<and> (\<exists>cmd. Ran 1 Run_move cmd \<in> set log)"
proof -
  obtain res err log where d: "Deploy ex_lib ex_cfg ex_check ex_remote ex_request = (res, err, log)" "AllMoved res"
    using ex_deploy_outcome by (auto split: prod.splits)
  have "1 < length (rq_targets ex_request)" by (simp add: ex_request_def)
  with AllMoved_iff_every_move_succeeded [OF d(1)] d show ?thesis by blast
qed

theorem connections_are_bracketed_witness:
  "\<exists>res err log. Deploy ex_lib ex_cfg ex_check ex_reject ex_request = (res, err, log)
     \<and> (\<exists>mid. events_of 0 log = Dialed 0 # mid @ [Closed 0])"
proof -
  obtain res err log where d: "Deploy ex_lib ex_cfg ex_check ex_reject ex_request = (res, err, log)"
      "list_ex is_upload log"
    using ex_reject_outcome by (auto split: prod.splits)
  then obtain tmp content where "Uploaded 0 tmp content \<in> set log"
    by (auto simp: list_ex_iff dest!: is_uploadD)
  then have "events_of 0 log \<noteq> []"
    by (auto simp: events_of_def filter_empty_conv intro!: bexI [of _ "Uploaded 0 tmp content"])
  with connections_are_bracketed [OF d(1), of 0] d(1) show ?thesis by auto
qed

text \<open>A server that rejects the zone, and on which \<open>rm\<close> fails too.\<close>

definition ex_stuck :: remote where
  "ex_stuck = ex_remote\<lparr>rm_run := (\<lambda>i c _.
     if i = 0 \<and> c \<in> {Run_check, Run_remove} then ([], Some ''exit status 1'') else ([], None))\<rparr>"

definition ex_tmp :: string where
  "ex_tmp = remoteTmpPath (rm_random ex_stuck 0) ex_srv (remoteFile ''a'')"

lemma ex_stuck_outcome:
  "(case Deploy ex_lib ex_cfg ex_check ex_stuck ex_request of (res, err, log) \<Rightarrow>
      dr_status res = StatusFailed \<and> Uploaded 0 ex_tmp ''text'' \<in> set log
      \<and> files_after ex_stuck (\<lambda>_. None) (\<lambda>_ _. False) log (\<lambda>_ _. None) 0 ex_tmp \<noteq> None)"
  by code_simp

theorem staged_file_left_only_by_error_witness:
  "\<exists>res err log cmd. Deploy ex_lib ex_cfg ex_check ex_stuck ex_request = (res, err, log)
     \<and> Ran 0 Run_remove cmd \<in> set log \<and> snd (rm_run ex_stuck 0 Run_remove cmd) \<noteq> None
     \<and> sh_words cmd = Some [''rm'', ''-f'', ''--'', ex_tmp]"
proof -
  obtain res err log where d: "Deploy ex_lib ex_cfg ex_check ex_stuck ex_request = (res, err, log)"
      "dr_status res = StatusFailed" "Uploaded 0 ex_tmp ''text'' \<in> set log"
      "files_after ex_stuck (\<lambda>_. None) (\<lambda>_ _. False) log (\<lambda>_ _. None) 0 ex_tmp \<noteq> None"
    using ex_stuck_outcome by (auto split: prod.splits)
  from staged_file_left_only_by_error [OF d(1,3,4)] d(1,2) show ?thesis by auto
qed

text \<open>Both servers accept: the live file of the second one.\<close>

definition ex_live :: string where
  "ex_live = remoteFinalPath ex_srv (remoteFile ''a'')"

lemma ex_live_moved:
  "(case Deploy ex_lib ex_cfg ex_check ex_remote ex_request of (res, err, log) \<Rightarrow>
      \<exists>e\<in>set log. case e of Ran i c cmd \<Rightarrow> i = 1 \<and> c = Run_move \<and> snd (rm_run ex_remote 1 Run_move cmd) = None | _ \<Rightarrow> False)"
  by code_simp

lemma ex_live_paths:
  "ex_live = remoteFinalPath (server_of ex_cfg (rq_targets ex_request ! 1)) (remoteFile (rq_zone ex_request))"
  "ex_live \<noteq> remoteTmpPath (rm_random ex_remote 1) (server_of ex_cfg (rq_targets ex_request ! 1)) (remoteFile (rq_zone ex_request))"
  by (code_simp, code_simp)

theorem live_file_after_deploy_witness:
  "\<exists>res err log. Deploy ex_lib ex_cfg ex_check ex_remote ex_request = (res, err, log)
     \<and> files_after ex_remote (\<lambda>_. None) (\<lambda>_ _. False) log (\<lambda>_ _. Some ''old'') 1 ex_live = Some ''text''"
proof -
  obtain res err log where d: "Deploy ex_lib ex_cfg ex_check ex_remote ex_request = (res, err, log)"
    and e: "\<exists>e\<in>set log. case e of Ran i c cmd \<Rightarrow> i = 1 \<and> c = Run_move \<and> snd (rm_run ex_remote 1 Run_move cmd) = None | _ \<Rightarrow> False"
    using ex_live_moved by (auto split: prod.splits)
  from e obtain ev where ev: "ev \<in> set log"
    "case ev of Ran i c cmd \<Rightarrow> i = 1 \<and> c = Run_move \<and> snd (rm_run ex_remote 1 Run_move cmd) = None | _ \<Rightarrow> False" by blast
  obtain cmd where "ev = Ran 1 Run_move cmd" "snd (rm_run ex_remote 1 Run_move cmd) = None"
    using ev(2) by (auto split: event.splits)
  with ev(1) have "\<exists>cmd. Ran 1 Run_move cmd \<in> set log \<and> snd (rm_run ex_remote 1 Run_move cmd) = None" by blast
  with live_file_after_deploy [OF d ex_live_paths(2), of "\<lambda>_. None" "\<lambda>_ _. False" "\<lambda>_ _. Some ''old''"] ex_live_paths(1) d
  show ?thesis by (auto simp: ex_request_def)
qed

lemma ex_change_in_log:
  "\<exists>res err pre i c cmd post. Deploy ex_lib ex_cfg ex_check ex_remote ex_request = (res, err, pre @ Ran i c cmd # post)
     \<and> (c = Run_move \<or> c = Run_reload)"
proof -
  obtain res err log where d: "Deploy ex_lib ex_cfg ex_check ex_remote ex_request = (res, err, log)"
      "length (filter is_change log) = 4"
    using ex_deploy_outcome by (auto split: prod.splits)
  then have "filter is_change log \<noteq> []" by auto
  then obtain e where e: "e \<in> set log" "is_change e" by (auto simp: filter_empty_conv)
  then obtain i c cmd where "e = Ran i c cmd" "c = Run_move \<or> c = Run_reload"
    by (auto simp: is_change_def split: event.splits)
  with e d(1) show ?thesis by (metis split_list)
qed

theorem no_change_unless_all_accept_witness:
  "\<exists>res err pre e post tmp. Deploy ex_lib ex_cfg ex_check ex_remote ex_request = (res, err, pre @ e # post)
     \<and> is_change e \<and> Uploaded 1 tmp ''text'' \<in> set pre"
proof -
  obtain res err pre i c cmd post where
    d: "Deploy ex_lib ex_cfg ex_check ex_remote ex_request = (res, err, pre @ Ran i c cmd # post)"
    and c: "c = Run_move \<or> c = Run_reload"
    using ex_change_in_log by blast
  have "1 < length (rq_targets ex_request)" by (simp add: ex_request_def)
  from no_change_unless_all_accept [OF d refl c this]
  obtain tmp where "Uploaded 1 tmp (rq_content ex_request) \<in> set pre" by blast
  moreover have "is_change (Ran i c cmd)" using c by (simp add: is_change_def)
  ultimately show ?thesis using d by (auto simp: ex_request_def)
qed


subsection \<open>Schedules\<close>

lemma ex_finished_schedule:
  "\<exists>g. reachable ex_lib ex_cfg ex_remote ex_request g \<and> g_phase g = Finished"
  using schedule_reaches_end [OF on_course_init, of ex_lib ex_cfg ex_remote ex_request]
  by (auto simp: reachable_def)

theorem every_schedule_ends_witness:
  "\<exists>g. (gstep ex_lib ex_cfg ex_remote ex_request)\<^sup>*\<^sup>* (g_init ex_request) g \<and> g_phase g = Finished"
proof -
  have "(gstep ex_lib ex_cfg ex_remote ex_request ^^ 0) (g_init ex_request) (g_init ex_request)" by simp
  from every_schedule_ends [OF this] show ?thesis by blast
qed

theorem schedules_agree_with_Deploy_witness:
  "\<exists>g. reachable ex_lib ex_cfg ex_remote ex_request g \<and> list_all (\<lambda>sl. sr_moved (sl_result sl)) (g_slots g)"
proof -
  obtain g where g: "reachable ex_lib ex_cfg ex_remote ex_request g" "g_phase g = Finished"
    using ex_finished_schedule by blast
  obtain res log where d: "Deploy ex_lib ex_cfg ex_check ex_remote ex_request = (res, None, log)" "AllMoved res"
    using ex_deploy_outcome by (auto split: prod.splits)
  from schedules_agree_with_Deploy [OF d(1) g] have "map sl_result (g_slots g) = dr_servers res" by simp
  with d(2) have "list_all sr_moved (map sl_result (g_slots g))" by (simp add: AllMoved_def split: if_splits)
  with g show ?thesis by (auto simp: list.pred_map o_def)
qed

theorem schedules_change_nothing_before_every_check_witness:
  "\<exists>g pre e post tmp. reachable ex_lib ex_cfg ex_remote ex_request g \<and> g_log g = pre @ e # post
     \<and> is_change e \<and> Uploaded 1 tmp ''text'' \<in> set pre"
proof -
  obtain g where g: "reachable ex_lib ex_cfg ex_remote ex_request g" "g_phase g = Finished"
    using ex_finished_schedule by blast
  obtain res err pre0 i c cmd post0 where
    d: "Deploy ex_lib ex_cfg ex_check ex_remote ex_request = (res, err, pre0 @ Ran i c cmd # post0)"
    and c: "c = Run_move \<or> c = Run_reload"
    using ex_change_in_log by blast
  note oc = reachable_on_course [OF g(1)]
  have acc: "all_accepted ex_lib ex_cfg ex_remote ex_request" by code_simp
  have "pre0 @ Ran i c cmd # post0 = goal_log ex_lib ex_cfg ex_remote ex_request Finished"
    using d by (cases rule: Deploy_cases) (simp_all add: acc)
  then have "Ran i c cmd \<in> set (goal_log ex_lib ex_cfg ex_remote ex_request Finished)"
    by (metis in_set_conv_decomp)
  then have "Ran i c cmd \<in> set (events_of i (g_log g))"
    using barrier(2) [OF oc on_courseD(7) [OF oc g(2)], of i] g(2) by (simp add: events_of_def)
  then obtain pre post where split: "g_log g = pre @ Ran i c cmd # post"
    by (metis events_of_def filter_is_subset in_mono split_list)
  have "1 < length (rq_targets ex_request)" by (simp add: ex_request_def)
  from schedules_change_nothing_before_every_check [OF g(1) split c this]
  obtain tmp where "Uploaded 1 tmp (rq_content ex_request) \<in> set pre" by blast
  moreover have "is_change (Ran i c cmd)" using c by (simp add: is_change_def)
  ultimately show ?thesis using g(1) split by (auto simp: ex_request_def)
qed

end
