(* ===== verification/Example_Web.thy ===== *)
theory Example_Web
  imports Web_Login Web_Audit Web_Deploy Example_Deploy
begin

section \<open>Requests at concrete inputs\<close>

text \<open>
  One closed instance for each theorem on the web server that has hypotheses: a server with the small library
  and two target servers, an \<open>hmac\<close> that only reverses, and the requests of a browser that signs in,
  creates a zone and deploys one.
\<close>

definition ex_web_cfg :: config where
  "ex_web_cfg = ex_cfg\<lparr>c_auth_token := ''secret'', c_serial_policy := SerialIncrement\<rparr>"

definition ex_web :: "string web_server" where
  "ex_web = \<lparr>ws_cfg = ex_web_cfg, ws_lib = ex_lib, ws_hmac = rev, ws_audit = Writer,
     ws_deploy = pipeline_deploy ex_lib ex_web_cfg ex_check ex_remote\<rparr>"

definition ex_env :: http_env where
  "ex_env = \<lparr>he_now = ex_now, he_clock = 0, he_created = ''2024-05-17T00:00:00Z'',
     he_audit_now = ''2024-05-17T00:00:00Z'', he_random = (\<lambda>_. CHR ''x''), he_check = ex_check\<rparr>"

definition ex_signed_in :: session where
  "ex_signed_in = newSession True ex_now (\<lambda>_. CHR ''x'')"

definition ex_post :: "(string \<times> string) list \<Rightarrow> http_request" where
  "ex_post form = \<lparr>hr_method = ''POST'', hr_zone = [], hr_remote_addr = ''192.0.2.7:4711'',
     hr_cookie = Some (signSession rev ex_signed_in), hr_csrf_header = se_csrf ex_signed_in,
     hr_form = form, hr_form_error = False, hr_query = []\<rparr>"

definition ex_delete :: http_request where
  "ex_delete = ex_post []"

definition ex_start :: server_state where
  "ex_start = new_server_state ex_s1"

lemma ex_session_payload: "unmarshal_session (marshal_session ex_signed_in) = Some ex_signed_in"
  unfolding ex_signed_in_def by (rule newSession_payload) (simp_all add: ex_now_def)

lemma ex_current: "currentSession ex_web ex_env (ex_post form) = Some ex_signed_in"
  using parse_sign [OF ex_session_payload, of rev ex_now]
  by (simp add: currentSession_def ex_web_def ex_env_def ex_post_def session_valid_def ex_signed_in_def newSession_def
      sessionTTL_def)

lemma ex_csrf: "se_csrf ex_signed_in \<noteq> []"
  by code_simp

lemma ex_start_inv: "server_inv ex_start"
  unfolding ex_start_def by (rule server_inv_new [OF ex_s1_inv])

lemma ex_delete_run:
  obtains resp st' where "serve ex_web ex_env [''zones'', ''a'', ''delete''] ex_delete ex_start = (resp, st')"
    and "ss_db st' \<noteq> ss_db ex_start"
proof -
  let ?r = "ex_delete\<lparr>hr_zone := ''a''\<rparr>"
  obtain st1 where st1: "serve ex_web ex_env [''zones'', ''a'', ''delete''] ex_delete ex_start =
      requireAuth ex_web ex_env (handleDeleteZone ex_web ex_env) ?r st1" and db: "ss_store st1 = ex_s1"
    by (auto simp: serve_def logRequests_def serve_mux_def route_handler_def Let_def ex_delete_def ex_post_def
        mux_def post_routes_def ex_start_def new_server_state_def)
  have auth: "requireAuth ex_web ex_env (handleDeleteZone ex_web ex_env) ?r st1 = handleDeleteZone ex_web ex_env ?r st1"
  proof -
    have "currentSession ex_web ex_env ?r = Some ex_signed_in" using ex_current [of "[]"] by (simp add: ex_delete_def)
    moreover have "csrf_token ?r = se_csrf ex_signed_in"
      using ex_csrf by (simp add: ex_delete_def ex_post_def csrf_token_def)
    moreover have "se_authed ex_signed_in" by (simp add: ex_signed_in_def)
    ultimately show ?thesis by (simp add: requireAuth_def)
  qed
  have "(case DeleteZone ''a'' ex_s1 of (res, s') \<Rightarrow> is_ok res \<and> zone_names (st_db s') \<noteq> zone_names (st_db ex_s1))"
    by code_simp
  then obtain s' where del: "DeleteZone ''a'' ex_s1 = (Inr (), s')" "zone_names (st_db s') \<noteq> zone_names (st_db ex_s1)"
    by (auto split: prod.splits elim: is_ok.elims)
  obtain resp st' where run: "handleDeleteZone ex_web ex_env ?r st1 = (resp, st')" by fastforce
  then have "ss_db st' = st_db s'"
    by (auto simp: handleDeleteZone_def Let_def on_store_def db del(1)) (simp add: ss_db_def)
  then have "ss_db st' \<noteq> ss_db ex_start"
    using del(2) by (auto simp: ss_db_def ex_start_def new_server_state_def)
  with that run st1 auth show thesis by simp
qed

theorem store_changes_are_authorized_witness:
  "\<exists>rt zone enc. mux ''POST'' [''zones'', ''a'', ''delete''] = Some (rt, zone) \<and> writing_route rt
    \<and> hr_cookie ex_delete = Some (enc @ ''.'' @ mac rev enc)"
proof -
  obtain resp st' where run: "serve ex_web ex_env [''zones'', ''a'', ''delete''] ex_delete ex_start = (resp, st')"
    and db: "ss_db st' \<noteq> ss_db ex_start"
    by (rule ex_delete_run)
  from store_changes_are_authorized [OF this] show ?thesis
    by (auto simp: ex_delete_def ex_post_def ex_web_def)
qed

theorem every_change_is_audited_witness:
  "\<exists>resp st' ev. serve ex_web ex_env [''zones'', ''a'', ''delete''] ex_delete ex_start = (resp, st')
     \<and> ss_audit st' = [marshal_event (he_audit_now ex_env) ev @ [newline]]"
proof -
  obtain resp st' where run: "serve ex_web ex_env [''zones'', ''a'', ''delete''] ex_delete ex_start = (resp, st')"
    and db: "ss_db st' \<noteq> ss_db ex_start"
    by (rule ex_delete_run)
  have "ws_audit ex_web = Writer" by (simp add: ex_web_def)
  from every_change_is_audited [OF run this ex_start_inv db] run show ?thesis
    by (auto simp: ex_start_def new_server_state_def)
qed

theorem requests_keep_integrity_witness:
  "server_inv (fold serve_step [(ex_web, ex_env, [''zones'', ''a'', ''delete''], ex_delete)] (new_server_state ex_s1))"
  by (rule requests_keep_integrity [OF ex_s1_inv])


subsection \<open>Signing in\<close>

definition ex_login :: http_request where
  "ex_login = ex_post [(''csrf_token'', se_csrf ex_signed_in), (''token'', ''secret'')]"

lemma ex_login_run:
  "fst (serve ex_web ex_env [''login''] ex_login ex_start) =
     \<lparr>rs_body = Redirect ''/'', rs_cookies = [set_cookie ex_web ex_signed_in]\<rparr>"
proof -
  let ?r = "ex_login\<lparr>hr_zone := []\<rparr>"
  obtain st1 where st1: "serve ex_web ex_env [''login''] ex_login ex_start = handleLogin ex_web ex_env ?r st1"
      and lim: "ss_limiter st1 = newRateLimiter 5 (60 * 1000000000)"
    by (auto simp: serve_def logRequests_def serve_mux_def route_handler_def ex_login_def ex_post_def
        mux_def post_routes_def ex_start_def new_server_state_def)
  have "currentSession ex_web ex_env ?r = Some ex_signed_in"
    using ex_current [of "[(''csrf_token'', se_csrf ex_signed_in), (''token'', ''secret'')]"] by (simp add: ex_login_def)
  moreover have "post_value ?r ''csrf_token'' = se_csrf ex_signed_in" "post_value ?r ''token'' = c_auth_token (ws_cfg ex_web)"
    "\<not> hr_form_error ?r"
    by (simp_all add: ex_login_def ex_post_def post_value_def first_value_def ex_web_def ex_web_cfg_def)
  moreover obtain rl where "allow (clientIP ?r) (he_clock ex_env) (ss_limiter st1) = (True, rl)"
    by (simp add: allow_def Let_def lim newRateLimiter_def hits_of_def)
  ultimately show ?thesis
    unfolding st1 by (simp add: handleLogin_def Let_def) (simp add: ex_signed_in_def ex_env_def)
qed

theorem signed_in_only_by_token_witness:
  "rs_cookies (fst (serve ex_web ex_env [''login''] ex_login ex_start)) \<noteq> []
   \<and> post_value ex_login ''token'' = c_auth_token (ws_cfg ex_web)"
proof -
  have "parseSession (ws_hmac ex_web) ex_now (ck_value (set_cookie ex_web ex_signed_in)) = Some ex_signed_in"
    using parse_sign [OF ex_session_payload, of rev ex_now]
    by (simp add: set_cookie_def setSession_def ex_web_def session_valid_def ex_signed_in_def newSession_def sessionTTL_def)
  from signed_in_only_by_token [OF prod.collapse [symmetric] _ this, of ex_env "[''login'']" ex_login ex_start]
  show ?thesis
    by (simp add: ex_login_run) (simp add: ex_signed_in_def ex_env_def ex_now_def)
qed

theorem login_guesses_bounded_witness:
  "length (filter (\<lambda>t. 0 - 60 * 1000000000 < t \<and> t \<le> 0)
    (admitted_logins ''192.0.2.7'' (replicate 7 (ex_web, ex_env, [''login''], ex_login))
      (fst (serve_all (replicate 7 (ex_web, ex_env, [''login''], ex_login)) (new_server_state ex_s1))))) \<le> 5"
  by (rule login_guesses_bounded) simp


subsection \<open>Deploying\<close>

definition ex_deploy_form :: http_request where
  "ex_deploy_form = (ex_post [])\<lparr>hr_zone := ''a''\<rparr>"

lemma ex_prepared:
  "(let ro = zone_row_of ''a'' (st_db ex_s1); row = the ro; recs = map snd (records_view ''a'' (st_db ex_s1));
      built = Build ex_lib ''a'' (SOAData (scanZone row)) recs; z = projr built;
      bumped = BumpSerial SerialIncrement ex_now z;
      rq = deploy_request ex_lib ''a'' (snd bumped) 7 8 (sz_targets (scanZone row))
    in ro \<noteq> None \<and> isl built = False \<and> fst bumped = Inr (7, 8) \<and> zr_serial row = 7
      \<and> db_snapshots_seq (st_db ex_s1) = 0 \<and> st_faults ex_s1 = [] 
      \<and> (case Deploy ex_lib ex_web_cfg ex_check ex_remote rq of (res, err, log) \<Rightarrow> err = None \<and> AllMoved res))"
  by code_simp

lemma ex_deploy_hyps:
  obtains row built built' res log where "zone_row_of ''a'' (ss_db ex_start) = Some row" and "zr_serial row = 7"
    and "Build ex_lib ''a'' (SOAData (scanZone row)) (map snd (records_view ''a'' (ss_db ex_start))) = Inr built"
    and "BumpSerial SerialIncrement ex_now built = (Inr (7, 8), built')"
    and "Deploy ex_lib ex_web_cfg ex_check ex_remote
      (deploy_request ex_lib ''a'' built' 7 8 (sz_targets (scanZone row))) = (res, None, log)"
    and "\<forall>i<length (sz_targets (scanZone row)). \<exists>cmd. Ran i Run_move cmd \<in> set log \<and> snd (rm_run ex_remote i Run_move cmd) = None"
    and "db_snapshots_seq (ss_db ex_start) = 0" and "st_faults (ss_store ex_start) = []"
proof -
  define row where "row = the (zone_row_of ''a'' (st_db ex_s1))"
  define built where "built = projr (Build ex_lib ''a'' (SOAData (scanZone row)) (map snd (records_view ''a'' (st_db ex_s1))))"
  define built' where "built' = snd (BumpSerial SerialIncrement ex_now built)"
  let ?rq = "deploy_request ex_lib ''a'' built' 7 8 (sz_targets (scanZone row))"
  obtain res err log where d: "Deploy ex_lib ex_web_cfg ex_check ex_remote ?rq = (res, err, log)"
    by (cases "Deploy ex_lib ex_web_cfg ex_check ex_remote ?rq")
  note prepared = ex_prepared [unfolded Let_def, folded row_def, folded built_def, folded built'_def]
  have err: "err = None" and moved: "AllMoved res" using prepared d by auto
  have start: "ss_db ex_start = st_db ex_s1" "ss_store ex_start = ex_s1"
    by (simp_all add: ex_start_def new_server_state_def ss_db_def)
  have "\<forall>i<length (rq_targets ?rq). \<exists>cmd. Ran i Run_move cmd \<in> set log \<and> snd (rm_run ex_remote i Run_move cmd) = None"
    using AllMoved_moves [OF d] moved by blast
  then have live: "\<forall>i<length (sz_targets (scanZone row)). \<exists>cmd. Ran i Run_move cmd \<in> set log \<and> snd (rm_run ex_remote i Run_move cmd) = None"
    by (simp add: deploy_request_def)
  have b: "BumpSerial SerialIncrement ex_now built = (Inr (7, 8), built')"
    using prepared by (simp add: prod_eq_iff built'_def)
  show thesis
    by (rule that [of row built built' res log]) (use prepared d err live b start in \<open>auto simp: row_def built_def\<close>)
qed

lemma ex_web_simps:
  "ws_deploy ex_web = pipeline_deploy (ws_lib ex_web) (ws_cfg ex_web) ex_check ex_remote"
  "ws_lib ex_web = ex_lib" "c_serial_policy ex_web_cfg = SerialIncrement" "ws_cfg ex_web = ex_web_cfg"
  "he_now ex_env = ex_now" "hr_zone ex_deploy_form = ''a''"
  by (simp_all add: ex_web_def ex_web_cfg_def ex_env_def ex_deploy_form_def)

theorem accepted_deploy_is_recorded_witness:
  "\<exists>resp st'. handleDeploy ex_web ex_env ex_deploy_form ex_start = (resp, st')
     \<and> map_option zr_serial (zone_row_of ''a'' (ss_db st')) = Some 8"
proof -
  obtain row built built' res log where h: "zone_row_of ''a'' (ss_db ex_start) = Some row" "zr_serial row = 7"
    "Build ex_lib ''a'' (SOAData (scanZone row)) (map snd (records_view ''a'' (ss_db ex_start))) = Inr built"
    "BumpSerial SerialIncrement ex_now built = (Inr (7, 8), built')"
    "Deploy ex_lib ex_web_cfg ex_check ex_remote
      (deploy_request ex_lib ''a'' built' 7 8 (sz_targets (scanZone row))) = (res, None, log)"
    "\<forall>i<length (sz_targets (scanZone row)). \<exists>cmd. Ran i Run_move cmd \<in> set log \<and> snd (rm_run ex_remote i Run_move cmd) = None"
    "db_snapshots_seq (ss_db ex_start) = 0" "st_faults (ss_store ex_start) = []"
    by (rule ex_deploy_hyps)
  from accepted_deploy_is_recorded [OF ex_web_simps(1) h(8) ex_start_inv, of ex_deploy_form row built ex_env 7 8 built' res log]
    h(1,3-7)
  show ?thesis unfolding ex_web_simps by auto
qed

lemma ex_deploy_run:
  obtains resp st' where "handleDeploy ex_web ex_env ex_deploy_form ex_start = (resp, st')" and "ss_db st' \<noteq> ss_db ex_start"
proof -
  obtain row built built' res log where h: "zone_row_of ''a'' (ss_db ex_start) = Some row" "zr_serial row = 7"
    "Build ex_lib ''a'' (SOAData (scanZone row)) (map snd (records_view ''a'' (ss_db ex_start))) = Inr built"
    "BumpSerial SerialIncrement ex_now built = (Inr (7, 8), built')"
    "Deploy ex_lib ex_web_cfg ex_check ex_remote
      (deploy_request ex_lib ''a'' built' 7 8 (sz_targets (scanZone row))) = (res, None, log)"
    "\<forall>i<length (sz_targets (scanZone row)). \<exists>cmd. Ran i Run_move cmd \<in> set log \<and> snd (rm_run ex_remote i Run_move cmd) = None"
    "db_snapshots_seq (ss_db ex_start) = 0" "st_faults (ss_store ex_start) = []"
    by (rule ex_deploy_hyps)
  from handleDeploy_records [OF ex_web_simps(1) h(8) ex_start_inv, of ex_deploy_form row built ex_env 7 8 built' res log]
    h(1,3-7)
  obtain resp st' where run: "handleDeploy ex_web ex_env ex_deploy_form ex_start = (resp, st')"
    and serial: "map_option zr_serial (zone_row_of ''a'' (ss_db st')) = Some 8"
    unfolding ex_web_simps by auto
  have "ss_db st' \<noteq> ss_db ex_start" using serial h(1,2) by auto
  with run show thesis by (rule that)
qed

theorem deploy_publishes_only_what_is_live_witness:
  "\<exists>rq res log. Deploy ex_lib ex_web_cfg ex_check ex_remote rq = (res, None, log) \<and> rq_targets rq \<noteq> []"
proof -
  obtain resp st' where run: "handleDeploy ex_web ex_env ex_deploy_form ex_start = (resp, st')"
    and db: "ss_db st' \<noteq> ss_db ex_start"
    by (rule ex_deploy_run)
  from deploy_publishes_only_what_is_live [OF run ex_web_simps(1) ex_start_inv db] show ?thesis
    unfolding ex_web_simps by blast
qed


subsection \<open>The store against its specification\<close>

theorem store_refines_zone_map_witness:
  "\<exists>log s. run_calls (call_ok ex_lib) ex_calls ex_s0 = (log, s) \<and> length (filter snd log) = 4
     \<and> spec_run (store_spec ex_lib 2) (map fst (filter snd log)) (abs_db empty_db) (abs_db (st_db s))"
proof -
  obtain log s where run: "run_calls (call_ok ex_lib) ex_calls ex_s0 = (log, s)"
    by (cases "run_calls (call_ok ex_lib) ex_calls ex_s0")
  have "map snd (fst (run_calls (call_ok ex_lib) ex_calls ex_s0)) = [True, True, True, True]" by code_simp
  then have log: "map snd log = [True, True, True, True]" by (simp add: run)
  then have "\<forall>(c, ok)\<in>set log. ok \<or> atomic_call c" and "filter snd log = log" and "length log = 4"
    by (auto simp: map_eq_Cons_conv filter_id_conv)
  with store_refines_zone_map [OF ex_s0_inv run] run show ?thesis
    by (simp add: ex_s0_def)
qed

end
