(* ===== verification/Web_Steps.thy ===== *)
theory Web_Steps
  imports Web_Deploy Web_Login
begin

section \<open>Requests that overlap\<close>

text \<open>
  \<open>net/http\<close> runs every request in a goroutine of its own, and neither the handlers nor the pipeline take a lock.
  What is atomic is smaller than a request: one SQL statement or one transaction, because the store has a single
  connection, and one update of the audit log or of the metrics. Here a request is a program of such steps, and
  the steps of the requests in flight alternate in any order.
\<close>


subsection \<open>Programs of atomic steps\<close>

datatype ('s, 'a) prog = Done 'a | Atom "'s \<Rightarrow> ('s, 'a) prog \<times> 's"

primrec bindP :: "('s, 'a) prog \<Rightarrow> ('a \<Rightarrow> ('s, 'b) prog) \<Rightarrow> ('s, 'b) prog" where
  "bindP (Done x) k = k x"
| "bindP (Atom f) k = Atom (\<lambda>s. map_prod (\<lambda>p. bindP p k) id (f s))"

text \<open>A program run with nothing in between.\<close>

primrec runP :: "('s, 'a) prog \<Rightarrow> 's \<Rightarrow> 'a \<times> 's" where
  "runP (Done x) s = (x, s)"
| "runP (Atom f) s = (case map_prod runP id (f s) of (g, s') \<Rightarrow> g s')"

definition atomic :: "('s \<Rightarrow> 'a \<times> 's) \<Rightarrow> ('s, 'a) prog" where
  "atomic f = Atom (\<lambda>s. map_prod Done id (f s))"

lemma prog_induct [case_names Done Atom]:
  assumes "\<And>x. P (Done x)" and "\<And>f. (\<And>s. P (fst (f s))) \<Longrightarrow> P (Atom f)"
  shows "P p"
proof (induction p)
  case (Done x)
  show ?case by (rule assms(1))
next
  case (Atom f)
  have "P (fst (f s))" for s by (rule Atom.IH [of "f s"]) (auto simp: prod_set_simps(1) fsts.simps)
  then show ?case by (rule assms(2))
qed

lemma runP_bindP [simp]: "runP (bindP p k) s = (case runP p s of (x, s') \<Rightarrow> runP (k x) s')"
  by (induction p arbitrary: s rule: prog_induct) (auto simp: case_prod_beta)

lemma runP_atomic [simp]: "runP (atomic f) s = f s"
  by (simp add: atomic_def case_prod_beta)

definition bindEP ::
    "('s, 'e + 'a) prog \<Rightarrow> ('a \<Rightarrow> ('s, 'e + 'b) prog) \<Rightarrow> ('s, 'e + 'b) prog" where
  "bindEP p k = bindP p (\<lambda>x. case x of Inl e \<Rightarrow> Done (Inl e) | Inr y \<Rightarrow> k y)"

definition update :: "('s \<Rightarrow> 's) \<Rightarrow> ('s, unit) prog" where
  "update f = atomic (\<lambda>s. ((), f s))"

lemma runP_update [simp]: "runP (update f) s = ((), f s)"
  by (simp add: update_def)


subsection \<open>The store calls of more than one statement\<close>

type_synonym 'a web_prog = "(server_state, 'a) prog"

definition stmt :: "'a store_op \<Rightarrow> (store_error + 'a) web_prog" where
  "stmt m = atomic (on_store m)"

lemma runP_stmt [simp]: "runP (stmt m) st = on_store m st"
  by (simp add: stmt_def)

definition BuildZone_p :: "'r dns_lib \<Rightarrow> string \<Rightarrow> (store_error + 'r zone) web_prog" where
  "BuildZone_p L name = bindEP (stmt (GetZone name)) (\<lambda>z. bindEP (stmt (RecordsOf name)) (\<lambda>recs.
     case Build L (sz_name z) (SOAData z) (map snd recs) of
       Inl e \<Rightarrow> Done (Inl (Zone_failure e))
     | Inr built \<Rightarrow> Done (Inr built)))"

definition Publish_p :: "string \<Rightarrow> string \<Rightarrow> u32 \<Rightarrow> string \<Rightarrow> (store_error + unit) web_prog" where
  "Publish_p name content serial created =
     bindEP (stmt (SetSerial name serial)) (\<lambda>_.
     bindEP (stmt (exec (sql_insert_snapshot name serial content created))) (\<lambda>_.
       stmt (\<lambda>s. exec (sql_prune_snapshots name (st_keep s)) s)))"

definition ImportZone_p ::
    "'r dns_lib \<Rightarrow> string \<Rightarrow> string \<Rightarrow> string list \<Rightarrow> string \<Rightarrow> (store_error + nat) web_prog" where
  "ImportZone_p L name content targets created = bindEP (stmt (ZoneExists name)) (\<lambda>ok.
     if ok then Done (Inl (Zone_already_exists name))
     else
       case Parse L content name of
         Inl e \<Rightarrow> Done (Inl (Import_parse e))
       | Inr z \<Rightarrow>
           (case SOA z of
              Inl e \<Rightarrow> Done (Inl (Zone_failure e))
            | Inr soa \<Rightarrow>
                let recs = DataRecords L z;
                    zr = zone_defaults (zone_of_soa name soa targets)
                in bindEP (stmt (with_tx (bindE (exec (sql_insert_zone (zone_to_row zr created)))
                                    (\<lambda>_. insert_records name recs))))
                     (\<lambda>_. Done (Inr (length recs)))))"

definition RestoreSnapshot_p :: "'r dns_lib \<Rightarrow> string \<Rightarrow> int \<Rightarrow> (store_error + unit) web_prog" where
  "RestoreSnapshot_p L name i = bindEP (stmt (query (snapshot_content_of name i))) (\<lambda>c.
     case c of
       None \<Rightarrow> Done (Inl ErrNotFound)
     | Some content \<Rightarrow>
         (case Parse L content name of
            Inl e \<Rightarrow> Done (Inl (Snapshot_parse e))
          | Inr z \<Rightarrow>
              (case SOA z of
                 Inl e \<Rightarrow> Done (Inl (Zone_failure e))
               | Inr soa \<Rightarrow>
                   let recs = DataRecords L z in
                   stmt (with_tx (bindE (exec (sql_restore_soa name soa)) (\<lambda>_.
                                  bindE (exec (sql_delete_records name)) (\<lambda>_.
                                  insert_records name recs)))))))"

text \<open>Run alone, they are the calls of the store.\<close>

lemma on_store_bindE:
  "on_store (bindE m k) st = (case on_store m st of (Inl e, st') \<Rightarrow> (Inl e, st') | (Inr x, st') \<Rightarrow> on_store (k x) st')"
  by (auto simp: on_store_def bindE_def split: prod.splits sum.splits)

lemma on_store_return: "on_store (returnE x) st = (Inr x, st)" "on_store (failE e) st = (Inl e, st)"
  by (simp_all add: on_store_def returnE_def failE_def)

lemma runP_bindEP:
  "runP (bindEP p k) st = (case runP p st of (Inl e, st') \<Rightarrow> (Inl e, st') | (Inr x, st') \<Rightarrow> runP (k x) st')"
  by (auto simp: bindEP_def split: prod.splits sum.splits)

lemmas run_store = runP_bindEP on_store_bindE on_store_return

lemma run_BuildZone: "runP (BuildZone_p L name) st = on_store (BuildZone L name) st"
  by (auto simp: BuildZone_p_def BuildZone_def run_store split: prod.splits sum.splits)

lemma run_Publish: "runP (Publish_p name content serial created) st = on_store (Publish name content serial created) st"
  by (auto simp: Publish_p_def Publish_def run_store split: prod.splits sum.splits)

lemma run_ImportZone:
  "runP (ImportZone_p L name content targets created) st = on_store (ImportZone L name content targets created) st"
  by (auto simp: ImportZone_p_def ImportZone_def run_store Let_def split: prod.splits sum.splits)

lemma run_RestoreSnapshot: "runP (RestoreSnapshot_p L name i) st = on_store (RestoreSnapshot L name i) st"
  by (auto simp: RestoreSnapshot_p_def RestoreSnapshot_def run_store Let_def split: prod.splits sum.splits option.splits)


subsection \<open>The handlers\<close>

definition handleCreateZone_p :: "'r web_server \<Rightarrow> http_env \<Rightarrow> http_request \<Rightarrow> response web_prog" where
  "handleCreateZone_p w e r =
     (let z = zoneFromForm (ws_cfg w) r;
          reErr = (\<lambda>err. page w e r ''New zone''
            (C_new_zone z (serverChoices (ws_cfg w) (sz_targets z)) (Some err)))
      in if sz_name z = [] \<or> sz_primary_ns z = [] \<or> sz_mbox z = [] then
           Done (reErr (E_text ''name, primary NS, and admin email are required''))
         else bindP (stmt (ZoneExists (sz_name z))) (\<lambda>ok.
           if value_or False ok then
             Done (reErr (E_text (''a zone named '' @ sz_name z @ '' already exists'')))
           else
             case Build (ws_lib w) (sz_name z) (SOAData z) [] of
               Inl err \<Rightarrow> Done (reErr (E_zone ''invalid zone settings: '' err))
             | Inr _ \<Rightarrow> bindP (stmt (CreateZone z (he_created e))) (\<lambda>x.
                 case x of
                   Inl err \<Rightarrow> Done (reErr (E_store ''create: '' err))
                 | Inr _ \<Rightarrow> bindP (update (audit w e (zone_event r ''zone_create'' (sz_name z)))) (\<lambda>_.
                     Done (respond (Redirect (''/zones/'' @ sz_name z @ ''?flash=Zone+created'')))))))"

definition handleImport_p :: "'r web_server \<Rightarrow> http_env \<Rightarrow> http_request \<Rightarrow> response web_prog" where
  "handleImport_p w e r =
     (let name = trim_space (post_value r ''name'');
          content = post_value r ''content'';
          targets = formTargets (ws_cfg w) r;
          reErr = (\<lambda>err. page w e r ''Import zone''
            (C_import (serverChoices (ws_cfg w) targets) name content (Some err)))
      in if name = [] \<or> trim_space content = [] then
           Done (reErr (E_text ''zone name and file content are required''))
         else bindP (ImportZone_p (ws_lib w) name content targets (he_created e)) (\<lambda>x.
           case x of
             Inl err \<Rightarrow> Done (reErr (E_store [] err))
           | Inr n \<Rightarrow>
               bindP (update (audit w e ((zone_event r ''zone_import'' name)\<lparr>ev_detail := imported_text n\<rparr>))) (\<lambda>_.
               Done (respond (Redirect (''/zones/'' @ name @ ''?flash=Imported+'' @ dec n @ ''+records''))))))"

text \<open>What \<open>handleDeploy\<close> does once it has read the zone. The deploy itself is a step of its own: the time at which
  the servers are changed.\<close>

definition finish_deploy ::
    "'r web_server \<Rightarrow> http_env \<Rightarrow> http_request \<Rightarrow> store_zone \<Rightarrow> 'r zone \<Rightarrow> response web_prog" where
  "finish_deploy w e r z built =
     (let name = hr_zone r; title = ''Deploy '' @ name in
      case BumpSerial (c_serial_policy (ws_cfg w)) (he_now e) built of
        (Inl err, _) \<Rightarrow> Done (page w e r title (C_deploy name None (Some (E_zone [] err))))
      | (Inr (old, newSerial), built') \<Rightarrow>
          let content = Render (ws_lib w) built';
              req = \<lparr>rq_zone = name, rq_content = content, rq_old_serial = old,
                     rq_new_serial = newSerial, rq_targets = sz_targets z\<rparr>
          in bindP (update id) (\<lambda>_.
             case ws_deploy w req of
               (res, Some derr) \<Rightarrow>
                 bindP (update (audit w e ((zone_event r ''deploy'' name)
                    \<lparr>ev_status := ''error'', ev_detail := deploy_error_text derr\<rparr>))) (\<lambda>_.
                 Done (page w e r title (C_deploy name res (Some (E_deploy derr)))))
             | (None, None) \<Rightarrow> Done (respond (Http_error 500 (E_text ''internal error'')))
             | (Some res, None) \<Rightarrow>
                 bindP (update (observe res)) (\<lambda>_.
                 bindP (if AllMoved res then Publish_p name content newSerial (he_created e)
                        else Done (Inl ErrNotFound)) (\<lambda>pub.
                 let res' = (if AllMoved res \<and> is_ok pub then res\<lparr>dr_promoted := True\<rparr> else res)
                 in bindP (update (audit w e ((zone_event r ''deploy'' name)
                       \<lparr>ev_status := status_text (dr_status res'), ev_old_serial := dr_old_serial res',
                        ev_new_serial := dr_new_serial res',
                        ev_servers := serverSummaries (dr_servers res')\<rparr>))) (\<lambda>_.
                    Done (page w e r title (C_deploy name (Some res') None)))))))"

definition handleDeploy_p :: "'r web_server \<Rightarrow> http_env \<Rightarrow> http_request \<Rightarrow> response web_prog" where
  "handleDeploy_p w e r =
     (let name = hr_zone r in
      bindP (stmt (GetZone name)) (\<lambda>x.
      case x of Inl err \<Rightarrow> Done (zone_failure err)
      | Inr z \<Rightarrow> bindP (BuildZone_p (ws_lib w) name) (\<lambda>y.
         case y of Inl err \<Rightarrow> Done (page w e r (''Deploy '' @ name) (C_deploy name None (Some (E_store [] err))))
         | Inr built \<Rightarrow> finish_deploy w e r z built)))"

definition handleRollback_p :: "'r web_server \<Rightarrow> http_env \<Rightarrow> http_request \<Rightarrow> response web_prog" where
  "handleRollback_p w e r =
     (let name = hr_zone r; i = fst (parse_int64 (post_value r ''id'')) in
      bindP (RestoreSnapshot_p (ws_lib w) name i) (\<lambda>x.
      case x of
        Inl err \<Rightarrow>
          Done (respond (if err = ErrNotFound then Http_error 404 (E_text ''unknown snapshot'')
                    else Http_error 500 (E_store ''rollback: '' err)))
      | Inr _ \<Rightarrow>
          bindP (update (audit w e ((zone_event r ''rollback'' name)\<lparr>ev_detail := dec_int i\<rparr>))) (\<lambda>_.
          Done (respond (Redirect (''/zones/'' @ name @ ''?flash=Restored;+review+and+deploy''))))))"

lemma run_create: "runP (handleCreateZone_p w e r) st = handleCreateZone w e r st"
  by (auto simp: handleCreateZone_p_def handleCreateZone_def Let_def split: prod.splits sum.splits)

lemma run_import: "runP (handleImport_p w e r) st = handleImport w e r st"
  by (auto simp: handleImport_p_def handleImport_def Let_def run_ImportZone split: prod.splits sum.splits)

lemma run_deploy: "runP (handleDeploy_p w e r) st = handleDeploy w e r st"
  by (auto simp: handleDeploy_p_def finish_deploy_def handleDeploy_def Let_def run_BuildZone run_Publish
      split: prod.splits sum.splits option.splits)

lemma run_rollback: "runP (handleRollback_p w e r) st = handleRollback w e r st"
  by (auto simp: handleRollback_p_def handleRollback_def Let_def run_RestoreSnapshot split: prod.splits sum.splits)

end
