(* ===== verification/Web_Concurrency.thy ===== *)
theory Web_Concurrency
  imports Web_Steps
begin

section \<open>Interleaved requests\<close>

text \<open>
  The requests in flight as one state machine: what every interleaving of their steps keeps, as a rule over the
  tables that a request has met so far, and what a deploy does that is overtaken by others. What the history can then
  contain is in \<open>Web_History\<close>.
\<close>

subsection \<open>Requests and their interleaving\<close>

text \<open>The statements of the four handlers above are steps of their own. Every other request has at most one
  statement that writes, and is one step: what it reads besides only shows on its own page.\<close>

definition stepwise :: "'r web_server \<Rightarrow> http_env \<Rightarrow> route \<Rightarrow> (http_request \<Rightarrow> response web_prog) option" where
  "stepwise w e rt =
     (case rt of
        R_create_zone \<Rightarrow> Some (handleCreateZone_p w e)
      | R_import \<Rightarrow> Some (handleImport_p w e)
      | R_deploy \<Rightarrow> Some (handleDeploy_p w e)
      | R_rollback \<Rightarrow> Some (handleRollback_p w e)
      | _ \<Rightarrow> None)"

definition requireAuth_p ::
    "'r web_server \<Rightarrow> http_env \<Rightarrow> (http_request \<Rightarrow> response web_prog) \<Rightarrow> http_request \<Rightarrow> response web_prog" where
  "requireAuth_p w e next r =
     (case currentSession w e r of
        None \<Rightarrow> Done (respond (Redirect ''/login''))
      | Some s \<Rightarrow>
          if \<not> se_authed s then Done (respond (Redirect ''/login''))
          else if isMutating (hr_method r) \<and> csrf_token r \<noteq> se_csrf s then
            Done (respond (Http_error 403 (E_text ''csrf token mismatch'')))
          else next r)"

definition count_request :: "server_state \<Rightarrow> server_state" where
  "count_request st = st\<lparr>ss_metrics := (ss_metrics st)\<lparr>m_http_requests := m_http_requests (ss_metrics st) + 1\<rparr>\<rparr>"

definition request_prog :: "'r served \<Rightarrow> response web_prog" where
  "request_prog q =
     (case q of (w, e, path, r) \<Rightarrow>
      case mux (hr_method r) path of
        None \<Rightarrow> atomic (serve w e path r)
      | Some (rt, zone) \<Rightarrow>
         (case stepwise w e rt of
            None \<Rightarrow> atomic (serve w e path r)
          | Some h \<Rightarrow> bindP (update count_request) (\<lambda>_. requireAuth_p w e h (r\<lparr>hr_zone := zone\<rparr>))))"

lemma run_requireAuth:
  "(\<And>r st. runP (h r) st = h' r st) \<Longrightarrow> runP (requireAuth_p w e h r) st = requireAuth w e h' r st"
  by (simp add: requireAuth_p_def requireAuth_def split: option.splits)

lemma request_alone: "runP (request_prog (w, e, path, r)) st = serve w e path r st"
proof (cases "\<exists>rt zone h. mux (hr_method r) path = Some (rt, zone) \<and> stepwise w e rt = Some h")
  case False
  then show ?thesis by (auto simp: request_prog_def split: option.splits)
next
  case True
  then obtain rt zone h where m: "mux (hr_method r) path = Some (rt, zone)" and h: "stepwise w e rt = Some h" by blast
  obtain h' where "route_handler w e rt = requireAuth w e h'" and "runP (h r) st = h' r st" for r st
    using h run_create [of w e] run_import [of w e] run_deploy [of w e] run_rollback [of w e]
    by (cases rt) (auto simp: stepwise_def route_handler_def Let_def)
  with m h show ?thesis
    by (simp add: request_prog_def serve_def logRequests_def serve_mux_def count_request_def run_requireAuth)
qed

text \<open>A request arrives, or the \<open>i\<close>-th request in flight takes its next step.\<close>

datatype 'q happening = Arrive 'q | Advance nat

type_synonym in_flight = "server_state \<times> response web_prog list"

fun conc_step :: "'r served happening \<Rightarrow> in_flight \<Rightarrow> in_flight" where
  "conc_step (Arrive q) (st, ps) = (st, ps @ [request_prog q])"
| "conc_step (Advance i) (st, ps) =
     (if i < length ps
      then (case ps ! i of
              Done resp \<Rightarrow> (st, ps)
            | Atom f \<Rightarrow> (case f st of (p, st') \<Rightarrow> (st', ps[i := p])))
      else (st, ps))"


subsection \<open>What every step keeps\<close>

text \<open>Properties of the tables and of the limiter; a statement changes only the former.\<close>

definition holds :: "(db \<Rightarrow> bool) \<Rightarrow> (rate_limiter \<Rightarrow> bool) \<Rightarrow> server_state \<Rightarrow> bool" where
  "holds J K st \<longleftrightarrow> J (ss_db st) \<and> K (ss_limiter st)"

lemma holds_frame [simp]:
  "holds J K (audit w e ev st) = holds J K st" "holds J K (observe res st) = holds J K st"
  "holds J K (count_request st) = holds J K st"
  by (simp_all add: holds_def audit_def observe_def count_request_def ss_db_def)

text \<open>A request reads the tables at several times, so what it may write depends on the tables it has met: \<open>ds\<close> are the
  tables before every step since it arrived, its own steps and those of others, and \<open>JS ds\<close> the properties that
  its next step must keep. \<open>Q x ds\<close> is to hold of the result and the tables met.\<close>

inductive steps_keep ::
    "(db list \<Rightarrow> (db \<Rightarrow> bool) set) \<Rightarrow> (rate_limiter \<Rightarrow> bool) \<Rightarrow> ('a \<Rightarrow> db list \<Rightarrow> bool) \<Rightarrow> db list \<Rightarrow> 'a web_prog \<Rightarrow> bool"
  for JS K Q where
  Done: "Q x ds \<Longrightarrow> steps_keep JS K Q ds (Done x)"
| Atom: "(\<And>es s. prefix ds es \<Longrightarrow> (\<forall>J\<in>JS (es @ [ss_db s]). holds J K s \<longrightarrow> holds J K (snd (f s)))
      \<and> steps_keep JS K Q (es @ [ss_db s]) (fst (f s))) \<Longrightarrow> steps_keep JS K Q ds (Atom f)"

inductive_simps steps_keep_simps [simp]:
  "steps_keep JS K Q ds (Done x)"
  "steps_keep JS K Q ds (Atom f)"

lemma steps_keep_bindP:
  "steps_keep JS K R ds p \<Longrightarrow> (\<And>x es. R x es \<Longrightarrow> steps_keep JS K Q es (k x)) \<Longrightarrow> steps_keep JS K Q ds (bindP p k)"
  by (induction rule: steps_keep.induct) (auto simp: fst_map_prod snd_map_prod)

lemma steps_keep_bindEP:
  assumes "steps_keep JS K R ds p" and "\<And>x es. R (Inr x) es \<Longrightarrow> steps_keep JS K Q es (k x)"
    and "\<And>e es. Q (Inl e) es"
  shows "steps_keep JS K Q ds (bindEP p k)"
  unfolding bindEP_def using assms(1)
  by (rule steps_keep_bindP) (use assms(2,3) in \<open>auto split: sum.split\<close>)

lemma steps_keep_atomic:
  assumes "\<And>es s. prefix ds es \<Longrightarrow> (\<forall>J\<in>JS (es @ [ss_db s]). holds J K s \<longrightarrow> holds J K (snd (f s)))
    \<and> Q (fst (f s)) (es @ [ss_db s])"
  shows "steps_keep JS K Q ds (atomic f)"
  using assms by (simp add: atomic_def fst_map_prod snd_map_prod)

lemma steps_keep_update:
  "(\<And>J st. holds J K (f st) = holds J K st) \<Longrightarrow> steps_keep JS K (\<lambda>_ es. prefix ds es) ds (update f)"
  unfolding update_def by (rule steps_keep_atomic) simp

lemma steps_keep_later:
  "steps_keep JS K Q ds p \<Longrightarrow> prefix ds es \<Longrightarrow> (\<And>x ds es. Q x ds \<Longrightarrow> prefix ds es \<Longrightarrow> Q x es) \<Longrightarrow> steps_keep JS K Q es p"
  by (cases p) (auto intro: prefix_order.trans)

text \<open>A program with such steps from whatever tables it has met before, and whatever its result.\<close>

definition steps :: "(db list \<Rightarrow> (db \<Rightarrow> bool) set) \<Rightarrow> (rate_limiter \<Rightarrow> bool) \<Rightarrow> 'a web_prog \<Rightarrow> bool" where
  "steps JS K p \<longleftrightarrow> (\<forall>ds. steps_keep JS K (\<lambda>_ _. True) ds p)"

lemma steps_Done [simp]: "steps JS K (Done x)"
  by (simp add: steps_def)

lemma steps_bindP: "steps JS K p \<Longrightarrow> (\<And>x. steps JS K (k x)) \<Longrightarrow> steps JS K (bindP p k)"
  unfolding steps_def by (blast intro: steps_keep_bindP)

lemma steps_bindEP: "steps JS K p \<Longrightarrow> (\<And>x. steps JS K (k x)) \<Longrightarrow> steps JS K (bindEP p k)"
  unfolding bindEP_def by (rule steps_bindP) (auto split: sum.split)

lemma steps_update: "(\<And>J st. holds J K (f st) = holds J K st) \<Longrightarrow> steps JS K (update f)"
  by (simp add: steps_def update_def steps_keep_atomic)


subsection \<open>The interface of a handler to what its steps may write\<close>

text \<open>The more tables a request has met, the more it may write; whatever it has met, it may run the statements that
  record no snapshot.\<close>

locale evidence =
  fixes JS :: "db list \<Rightarrow> (db \<Rightarrow> bool) set" and K :: "rate_limiter \<Rightarrow> bool" and okR :: "zrecord \<Rightarrow> bool"
  assumes shrinks: "prefix ds es \<Longrightarrow> JS es \<subseteq> JS ds"
    and edits: "J \<in> JS [] \<Longrightarrow> stmts_keep okR (\<lambda>_ _. False) name J"
begin

lemma always: "J \<in> JS ds \<Longrightarrow> J \<in> JS []"
  using shrinks [of "[]" ds] by auto

lemma steps_keep_stmt:
  assumes "\<And>J. J \<in> JS ds \<Longrightarrow> db_preserves J m"
    and "\<And>es st x st'. prefix ds es \<Longrightarrow> on_store m st = (x, st') \<Longrightarrow> Q x (es @ [ss_db st])"
  shows "steps_keep JS K Q ds (stmt m)"
  unfolding stmt_def
proof (rule steps_keep_atomic, intro conjI ballI impI)
  fix es st J
  assume es: "prefix ds es"
  obtain x st' where run: "on_store m st = (x, st')" by fastforce
  from assms(2) [OF es run] show "Q (fst (on_store m st)) (es @ [ss_db st])" by (simp add: run)
  assume "J \<in> JS (es @ [ss_db st])" and "holds J K st"
  moreover from this(1) have "J \<in> JS ds" using shrinks [of ds "es @ [ss_db st]"] es by auto
  ultimately show "holds J K (snd (on_store m st))"
    using on_store_keeps [OF run, of J] assms(1) [of J] on_store_frame [OF run] by (simp add: holds_def run)
qed

lemma steps_stmt: "(\<And>J. J \<in> JS [] \<Longrightarrow> db_preserves J m) \<Longrightarrow> steps JS K (stmt m)"
  unfolding steps_def by (auto intro!: steps_keep_stmt dest: always)

lemma steps_Publish:
  assumes "\<And>J t. J \<in> JS ds \<Longrightarrow> stmt_keeps J (sql_insert_snapshot name serial content t)"
  shows "steps_keep JS K (\<lambda>_ _. True) ds (Publish_p name content serial created)"
  unfolding Publish_p_def
proof (rule steps_keep_bindEP, rule steps_keep_stmt [where Q = "\<lambda>_ es. prefix ds es"])
  show "db_preserves J (SetSerial name serial)" if "J \<in> JS ds" for J
    by (rule keep_SetSerial [OF edits [OF always [OF that]]])
  fix es
  assume "prefix ds es"
  then have "db_preserves J (exec (sql_insert_snapshot name serial content created))" if "J \<in> JS es" for J
    using that shrinks [of ds es] assms by blast
  moreover have "db_preserves J (\<lambda>s. exec (sql_prune_snapshots name (st_keep s)) s)" if "J \<in> JS fs" for J fs
    by (rule keep_prune [OF edits [OF always [OF that]]])
  ultimately show "steps_keep JS K (\<lambda>_ _. True) es
      (bindEP (stmt (exec (sql_insert_snapshot name serial content created)))
         (\<lambda>_. stmt (\<lambda>s. exec (sql_prune_snapshots name (st_keep s)) s)))"
    by (intro steps_keep_bindEP [where R = "\<lambda>_ _. True"] steps_keep_stmt) auto
qed (auto intro: prefix_order.trans)

lemma steps_ImportZone:
  assumes "parses_to L name okR"
  shows "steps JS K (ImportZone_p L name content targets created)"
proof -
  have zone: "db_preserves J (exec (sql_insert_zone (zone_to_row (zone_defaults (zone_of_soa name soa targets)) created)))"
    if "J \<in> JS []" for J soa
    using edits [OF that, of name] by (auto simp: stmts_keep_def zone_to_row_def zone_defaults_def zone_of_soa_def)
  have recs: "db_preserves J (insert_records name (DataRecords L z))" if "J \<in> JS []" and "Parse L content name = Inr z" for J z
    using keep_insert_records [OF edits [OF that(1)]] that(2) assms by (auto simp: parses_to_def)
  show ?thesis
    unfolding ImportZone_p_def Let_def
    by (auto intro!: steps_bindEP steps_stmt read_ZoneExists db_preserves_with_tx preserves_bindE zone recs
        split: sum.split)
qed

lemma steps_RestoreSnapshot:
  assumes "parses_to L name okR"
  shows "steps JS K (RestoreSnapshot_p L name i)"
proof -
  have soa: "db_preserves J (exec (sql_restore_soa name soa))" and del: "db_preserves J (exec (sql_delete_records name))"
    if "J \<in> JS []" for J soa
    using edits [OF that, of name] by (auto simp: stmts_keep_def)
  have recs: "db_preserves J (insert_records name (DataRecords L z))" if "J \<in> JS []" and "Parse L content name = Inr z" for J content z
    using keep_insert_records [OF edits [OF that(1)]] that(2) assms by (auto simp: parses_to_def)
  show ?thesis
    unfolding RestoreSnapshot_p_def Let_def
    by (auto intro!: steps_bindEP steps_stmt db_preserves_with_tx preserves_bindE soa del recs
        split: option.split sum.split)
qed

lemma steps_create: "steps JS K (handleCreateZone_p w e r)"
proof -
  have "db_preserves J (CreateZone (zoneFromForm (ws_cfg w) r) t)" if "J \<in> JS []" for J t
    by (rule keep_CreateZone) (rule edits [OF that])
  then show ?thesis
    unfolding handleCreateZone_p_def Let_def
    by (auto intro!: steps_bindP steps_update steps_stmt read_ZoneExists split: sum.split)
qed

lemma steps_import:
  assumes "parses_to (ws_lib w) (trim_space (post_value r ''name'')) okR"
  shows "steps JS K (handleImport_p w e r)"
  unfolding handleImport_p_def Let_def
  by (auto intro!: steps_bindP steps_update steps_ImportZone [OF assms] split: sum.split)

lemma steps_rollback:
  assumes "parses_to (ws_lib w) (hr_zone r) okR"
  shows "steps JS K (handleRollback_p w e r)"
  unfolding handleRollback_p_def Let_def
  by (auto intro!: steps_bindP steps_update steps_RestoreSnapshot [OF assms] split: sum.split)

end

subsection \<open>What a deploy has read\<close>

text \<open>The zone row, the row again and the records are three statements, each with the tables of its own time: \<open>rq\<close> is
  the request that a deploy prepares which has met the tables \<open>ds\<close>.\<close>

definition prepared :: "'r web_server \<Rightarrow> http_env \<Rightarrow> string \<Rightarrow> db list \<Rightarrow> request \<Rightarrow> bool" where
  "prepared w e name ds rq \<longleftrightarrow>
     (\<exists>d1 d2 d3 row row' built old new built'. subseq [d1, d2, d3] ds
        \<and> zone_row_of name d1 = Some row \<and> zone_row_of name d2 = Some row'
        \<and> Build (ws_lib w) name (SOAData (scanZone row')) (map snd (records_view name d3)) = Inr built
        \<and> BumpSerial (c_serial_policy (ws_cfg w)) (he_now e) built = (Inr (old, new), built')
        \<and> rq = deploy_request (ws_lib w) name built' old new (sz_targets (scanZone row)))"

lemma prepared_later: "prepared w e name ds rq \<Longrightarrow> prefix ds es \<Longrightarrow> prepared w e name es rq"
proof -
  assume "prefix ds es" and "prepared w e name ds rq"
  moreover from this(1) have "subseq xs ds \<Longrightarrow> subseq xs es" for xs
    by (blast intro: prefix_imp_subseq subseq_order.trans)
  ultimately show "prepared w e name es rq" unfolding prepared_def by blast
qed

lemma met_next: "subseq ds es \<Longrightarrow> prefix es fs \<Longrightarrow> subseq (ds @ [d]) (fs @ [d])"
  by (meson list_emb_append_mono prefix_imp_subseq subseq_order.refl subseq_order.trans)

lemma RecordsOf_ok:
  "on_store (RecordsOf name) st = (Inr recs, st') \<Longrightarrow> recs = records_view name (ss_db st)"
  by (auto simp: on_store_def RecordsOf_def records_view_def ss_db_def split: prod.splits dest!: query_ok)

lemma deploy_request_simps [simp]:
  "rq_zone (deploy_request L name built old new targets) = name"
  "rq_new_serial (deploy_request L name built old new targets) = new"
  "rq_content (deploy_request L name built old new targets) = Render L built"
  by (simp_all add: deploy_request_def)

context evidence begin

text \<open>The two calls that read, and what is known after them.\<close>

lemma steps_GetZone:
  assumes "subseq ds0 ds"
    and "\<And>x es. (\<And>z. x = Inr z \<Longrightarrow> \<exists>d row. subseq (ds0 @ [d]) es \<and> zone_row_of name d = Some row \<and> z = scanZone row)
      \<Longrightarrow> Q x es"
  shows "steps_keep JS K Q ds (stmt (GetZone name))"
proof (rule steps_keep_stmt)
  show "db_preserves J (GetZone name)" for J by (rule read_GetZone)
  fix es st x st'
  assume es: "prefix ds es" and run: "on_store (GetZone name) st = (x, st')"
  show "Q x (es @ [ss_db st])"
  proof (rule assms(2))
    fix z
    assume "x = Inr z"
    with GetZone_ok [of name st z st'] run met_next [OF assms(1) es]
    show "\<exists>d row. subseq (ds0 @ [d]) (es @ [ss_db st]) \<and> zone_row_of name d = Some row \<and> z = scanZone row" by blast
  qed
qed

lemma steps_BuildZone:
  assumes "subseq ds0 ds"
    and "\<And>x es. (\<And>built. x = Inr built \<Longrightarrow> \<exists>d d' row. subseq (ds0 @ [d, d']) es \<and> zone_row_of name d = Some row
        \<and> Build L name (SOAData (scanZone row)) (map snd (records_view name d')) = Inr built) \<Longrightarrow> Q x es"
  shows "steps_keep JS K Q ds (BuildZone_p L name)"
  unfolding BuildZone_p_def
proof (rule steps_keep_bindEP [where R = "\<lambda>x es. \<forall>z. x = Inr z \<longrightarrow>
      (\<exists>d row. subseq (ds0 @ [d]) es \<and> zone_row_of name d = Some row \<and> z = scanZone row)"], rule steps_GetZone [OF assms(1)])
  show "Q (Inl err) es" for err es by (rule assms(2)) simp
  fix z es
  assume "\<forall>z'. Inr z = Inr z' \<longrightarrow> (\<exists>d row. subseq (ds0 @ [d]) es \<and> zone_row_of name d = Some row \<and> z' = scanZone row)"
  then have "\<exists>d row. subseq (ds0 @ [d]) es \<and> zone_row_of name d = Some row \<and> z = scanZone row" by blast
  then obtain d row where es: "subseq (ds0 @ [d]) es" and row: "zone_row_of name d = Some row" and z: "z = scanZone row"
    by blast
  have name: "sz_name z = name" using zone_row_of_Some [OF row] by (simp add: z scanZone_def)
  show "steps_keep JS K Q es (bindEP (stmt (RecordsOf name)) (\<lambda>recs.
      case Build L (sz_name z) (SOAData z) (map snd recs) of
        Inl err \<Rightarrow> Done (Inl (Zone_failure err)) | Inr built \<Rightarrow> Done (Inr built)))"
  proof (rule steps_keep_bindEP [where R = "\<lambda>x fs. case x of
        Inr recs \<Rightarrow> \<exists>d'. subseq (ds0 @ [d, d']) fs \<and> recs = records_view name d' | _ \<Rightarrow> True"],
      rule steps_keep_stmt [OF read_RecordsOf])
    show "Q (Inl err) fs" for err fs by (rule assms(2)) simp
    show "case x of Inr recs \<Rightarrow> \<exists>d'. subseq (ds0 @ [d, d']) (fs @ [ss_db st]) \<and> recs = records_view name d' | _ \<Rightarrow> True"
      if "prefix es fs" and "on_store (RecordsOf name) st = (x, st')" for fs st x st'
      using met_next [OF es that(1), of "ss_db st"] RecordsOf_ok [of name st _ st'] that(2) by (auto split: sum.split)
    fix recs fs
    assume "case Inr recs of Inr recs \<Rightarrow> \<exists>d'. subseq (ds0 @ [d, d']) fs \<and> recs = records_view name d' | _ \<Rightarrow> True"
    then obtain d' where fs: "subseq (ds0 @ [d, d']) fs" and recs: "recs = records_view name d'" by auto
    show "steps_keep JS K Q fs (case Build L (sz_name z) (SOAData z) (map snd recs) of
        Inl err \<Rightarrow> Done (Inl (Zone_failure err)) | Inr built \<Rightarrow> Done (Inr built))"
      using fs row by (auto simp: name [unfolded z] z recs split: sum.split intro!: assms(2))
  qed
qed simp_all

lemma steps_finish:
  assumes "\<And>es old new built' res J t. prefix ds es
      \<Longrightarrow> BumpSerial (c_serial_policy (ws_cfg w)) (he_now e) built = (Inr (old, new), built')
      \<Longrightarrow> ws_deploy w (deploy_request (ws_lib w) (hr_zone r) built' old new (sz_targets z)) = (Some res, None) \<Longrightarrow> AllMoved res
      \<Longrightarrow> J \<in> JS es \<Longrightarrow> stmt_keeps J (sql_insert_snapshot (hr_zone r) new (Render (ws_lib w) built') t)"
  shows "steps_keep JS K (\<lambda>_ _. True) ds (finish_deploy w e r z built)"
proof -
  have rest: "steps_keep JS K (\<lambda>_ _. True) es (bindP (update (audit w e ev)) (\<lambda>_. Done resp))" for es ev and resp :: response
    by (rule steps_keep_bindP [where R = "\<lambda>_ _. True"], unfold update_def, rule steps_keep_atomic) simp_all
  have publish: "steps_keep JS K (\<lambda>_ _. True) es (if AllMoved res then Publish_p (hr_zone r) (Render (ws_lib w) built') new (he_created e)
        else Done (Inl ErrNotFound))"
    if "prefix ds es" and "BumpSerial (c_serial_policy (ws_cfg w)) (he_now e) built = (Inr (old, new), built')"
      and "ws_deploy w (deploy_request (ws_lib w) (hr_zone r) built' old new (sz_targets z)) = (Some res, None)"
    for es old new built' res
    using assms [OF that] by (auto intro: steps_Publish)
  have deployed: "steps_keep JS K (\<lambda>_ _. True) es (case ws_deploy w rq of
             (res, Some derr) \<Rightarrow>
                 bindP (update (audit w e (ev1 derr))) (\<lambda>_. Done (page1 res derr))
             | (None, None) \<Rightarrow> Done resp
             | (Some res, None) \<Rightarrow>
                 bindP (update (observe res)) (\<lambda>_.
                 bindP (if AllMoved res then Publish_p (hr_zone r) (Render (ws_lib w) built') new (he_created e)
                        else Done (Inl ErrNotFound)) (\<lambda>pub.
                 bindP (update (audit w e (ev2 res pub))) (\<lambda>_. Done (page2 res pub)))))"
    if es: "prefix ds es" and bump: "BumpSerial (c_serial_policy (ws_cfg w)) (he_now e) built = (Inr (old, new), built')"
      and rq: "rq = deploy_request (ws_lib w) (hr_zone r) built' old new (sz_targets z)"
    for es old new built' rq ev1 ev2 page1 page2 and resp :: response
  proof (cases "ws_deploy w rq")
    case (Pair x y)
    have "steps_keep JS K (\<lambda>_ _. True) es (bindP (update (observe res)) (\<lambda>_.
        bindP (if AllMoved res then Publish_p (hr_zone r) (Render (ws_lib w) built') new (he_created e)
            else Done (Inl ErrNotFound)) (\<lambda>pub.
        bindP (update (audit w e (ev2 res pub))) (\<lambda>_. Done (page2 res pub)))))"
      if "x = Some res" "y = None" for res
    proof (rule steps_keep_bindP, rule steps_keep_update)
      fix fs
      assume "prefix es fs"
      then have "prefix ds fs" using es by (rule prefix_order.trans [rotated])
      from publish [OF this bump] Pair that
      show "steps_keep JS K (\<lambda>_ _. True) fs (bindP (if AllMoved res then Publish_p (hr_zone r) (Render (ws_lib w) built') new (he_created e)
            else Done (Inl ErrNotFound)) (\<lambda>pub.
        bindP (update (audit w e (ev2 res pub))) (\<lambda>_. Done (page2 res pub))))"
        by (intro steps_keep_bindP [where R = "\<lambda>_ _. True"] rest) (simp add: rq)
    qed simp
    with Pair show ?thesis by (auto simp: rest split: option.split)
  qed
  obtain x built' where bump: "BumpSerial (c_serial_policy (ws_cfg w)) (he_now e) built = (x, built')" by fastforce
  show ?thesis
  proof (cases x)
    case (Inl err)
    with bump show ?thesis by (simp add: finish_deploy_def Let_def)
  next
    case (Inr p)
    obtain old new where p: "p = (old, new)" by (cases p)
    show ?thesis
      unfolding finish_deploy_def Let_def
      by (simp add: bump Inr p)
        (rule steps_keep_bindP [OF steps_keep_update], simp, rule deployed [OF _ bump [unfolded Inr p]], assumption,
          simp add: deploy_request_def)
  qed
qed

lemma steps_deploy:
  fixes w :: "'r web_server"
  assumes "\<And>es rq res J t. prepared w e (hr_zone r) es rq \<Longrightarrow> ws_deploy w rq = (Some res, None) \<Longrightarrow> AllMoved res
      \<Longrightarrow> J \<in> JS es \<Longrightarrow> stmt_keeps J (sql_insert_snapshot (hr_zone r) (rq_new_serial rq) (rq_content rq) t)"
  shows "steps_keep JS K (\<lambda>_ _. True) ds (handleDeploy_p w e r)"
  unfolding handleDeploy_p_def Let_def
proof (rule steps_keep_bindP [where R = "\<lambda>x es. \<forall>z. x = Inr z \<longrightarrow>
      (\<exists>d row. subseq [d] es \<and> zone_row_of (hr_zone r) d = Some row \<and> z = scanZone row)"],
    rule steps_GetZone [of "[]"])
  fix x :: "store_error + store_zone" and es
  assume x: "\<forall>z. x = Inr z \<longrightarrow> (\<exists>d row. subseq [d] es \<and> zone_row_of (hr_zone r) d = Some row \<and> z = scanZone row)"
  show "steps_keep JS K (\<lambda>_ _. True) es (case x of Inl err \<Rightarrow> Done (zone_failure err)
      | Inr z \<Rightarrow> bindP (BuildZone_p (ws_lib w) (hr_zone r)) (\<lambda>y. case y of
          Inl err \<Rightarrow> Done (page w e r (''Deploy '' @ hr_zone r) (C_deploy (hr_zone r) None (Some (E_store [] err))))
        | Inr built \<Rightarrow> finish_deploy w e r z built))"
  proof (cases x)
    case (Inr z)
    with x obtain d row where es: "subseq [d] es" and row: "zone_row_of (hr_zone r) d = Some row" and z: "z = scanZone row"
      by blast
    show ?thesis
      unfolding Inr sum.case
    proof (rule steps_keep_bindP [where R = "\<lambda>y fs. \<forall>built. y = Inr built \<longrightarrow> (\<exists>d' d'' row'. subseq [d, d', d''] fs
          \<and> zone_row_of (hr_zone r) d' = Some row'
          \<and> Build (ws_lib w) (hr_zone r) (SOAData (scanZone row')) (map snd (records_view (hr_zone r) d'')) = Inr built)"],
        rule steps_BuildZone [OF es])
      fix y :: "store_error + 'r zone" and fs
      assume y: "\<forall>built. y = Inr built \<longrightarrow> (\<exists>d' d'' row'. subseq [d, d', d''] fs
          \<and> zone_row_of (hr_zone r) d' = Some row'
          \<and> Build (ws_lib w) (hr_zone r) (SOAData (scanZone row')) (map snd (records_view (hr_zone r) d'')) = Inr built)"
      show "steps_keep JS K (\<lambda>_ _. True) fs (case y of
          Inl err \<Rightarrow> Done (page w e r (''Deploy '' @ hr_zone r) (C_deploy (hr_zone r) None (Some (E_store [] err))))
        | Inr built \<Rightarrow> finish_deploy w e r z built)"
      proof (cases y)
        case (Inr built)
        have read: "prepared w e (hr_zone r) fs (deploy_request (ws_lib w) (hr_zone r) built' old new (sz_targets z))"
          if "BumpSerial (c_serial_policy (ws_cfg w)) (he_now e) built = (Inr (old, new), built')" for old new built'
          using y row that unfolding prepared_def Inr z by blast
        show ?thesis
          unfolding Inr sum.case
          using assms [OF prepared_later [OF read]] by (intro steps_finish) simp
      qed simp
    qed auto
  qed simp
qed auto

lemma steps_request:
  assumes deploy: "\<And>name s es rq res J t. mux (hr_method r) path = Some (R_deploy, name) \<Longrightarrow> currentSession w e r = Some s
      \<Longrightarrow> se_authed s \<Longrightarrow> (isMutating (hr_method r) \<Longrightarrow> csrf_token r = se_csrf s)
      \<Longrightarrow> prepared w e name es rq \<Longrightarrow> ws_deploy w rq = (Some res, None) \<Longrightarrow> AllMoved res
      \<Longrightarrow> J \<in> JS es \<Longrightarrow> stmt_keeps J (sql_insert_snapshot name (rq_new_serial rq) (rq_content rq) t)"
    and parse: "\<And>name. parses_to (ws_lib w) name okR"
    and whole: "\<And>J st. J \<in> JS [] \<Longrightarrow> \<forall>rt zone. mux (hr_method r) path = Some (rt, zone) \<longrightarrow> rt \<noteq> R_deploy \<Longrightarrow> holds J K st \<Longrightarrow>
      holds J K (snd (serve w e path r st))"
  shows "steps JS K (request_prog (w, e, path, r))"
proof (cases "\<exists>rt zone h. mux (hr_method r) path = Some (rt, zone) \<and> stepwise w e rt = Some h")
  case False
  then have "request_prog (w, e, path, r) = atomic (serve w e path r)"
    by (auto simp: request_prog_def split: option.splits)
  moreover have "mux (hr_method r) path = Some (rt, zone) \<longrightarrow> rt \<noteq> R_deploy" for rt zone
    using False by (auto simp: stepwise_def)
  ultimately show ?thesis using whole by (auto simp: steps_def intro!: steps_keep_atomic dest: always)
next
  case True
  then obtain rt zone h where m: "mux (hr_method r) path = Some (rt, zone)" and h: "stepwise w e rt = Some h" by blast
  let ?r = "r\<lparr>hr_zone := zone\<rparr>"
  have "steps JS K (requireAuth_p w e h ?r)"
  proof (cases "rt = R_deploy")
    case False
    then have "steps JS K (h ?r)"
      using h steps_create steps_import [OF parse] steps_rollback [OF parse] by (cases rt) (auto simp: stepwise_def)
    then show ?thesis by (auto simp: requireAuth_p_def split: option.split)
  next
    case True
    have "steps JS K (handleDeploy_p w e ?r)"
      if "currentSession w e r = Some s" "se_authed s" "isMutating (hr_method r) \<Longrightarrow> csrf_token r = se_csrf s" for s
      using deploy [OF m [unfolded True] that] by (auto simp: steps_def intro!: steps_deploy)
    moreover have "h = handleDeploy_p w e" using h True by (simp add: stepwise_def)
    ultimately show ?thesis by (auto simp: requireAuth_p_def split: option.split)
  qed
  with m h show ?thesis
    by (auto simp: request_prog_def intro!: steps_bindP steps_update)
qed

end


subsection \<open>The interface of an interleaving to an invariant\<close>

definition arrivals :: "'r served happening list \<Rightarrow> 'r served set" where
  "arrivals hs = {q. Arrive q \<in> set hs}"

text \<open>The tables before each step of a schedule.\<close>

fun tables_over :: "'r served happening list \<Rightarrow> in_flight \<Rightarrow> db list" where
  "tables_over [] c = []"
| "tables_over (h # hs) c = ss_db (fst c) # tables_over hs (conc_step h c)"

lemma tables_over_snoc [simp]: "tables_over (hs @ [h]) c = tables_over hs c @ [ss_db (fst (fold conc_step hs c))]"
  by (induction hs arbitrary: c) simp_all

text \<open>The tables that a request has met which arrived after the steps \<open>before\<close>.\<close>

definition met_since :: "server_state \<Rightarrow> 'r served happening list \<Rightarrow> 'r served \<Rightarrow> 'r served happening list \<Rightarrow> db list" where
  "met_since st before q since = tables_over since (fold conc_step (before @ [Arrive q]) (st, []))"

lemma met_since_snoc:
  "met_since st before q (since @ [h]) = met_since st before q since @ [ss_db (fst (fold conc_step (before @ Arrive q # since) (st, [])))]"
  by (simp add: met_since_def)

locale request_inv =
  fixes JS :: "'r served \<Rightarrow> db list \<Rightarrow> (db \<Rightarrow> bool) set" and K :: "rate_limiter \<Rightarrow> bool" and ok :: "'r served \<Rightarrow> bool"
  assumes shrinks: "prefix ds es \<Longrightarrow> JS q es \<subseteq> JS q ds"
    and request_steps: "ok q \<Longrightarrow> steps (JS q) K (request_prog q)"
begin

text \<open>What is left of a request in flight has the steps of a request that has met the tables since its arrival.\<close>

definition remains :: "server_state \<Rightarrow> 'r served happening list \<Rightarrow> response web_prog \<Rightarrow> bool" where
  "remains st hs p \<longleftrightarrow> (\<exists>before q since. hs = before @ Arrive q # since
     \<and> steps_keep (JS q) K (\<lambda>_ _. True) (met_since st before q since) p)"

lemma remains_later: "remains st hs p \<Longrightarrow> remains st (hs @ [h]) p"
  unfolding remains_def
proof (elim exE conjE)
  fix before q since
  assume "hs = before @ Arrive q # since" and "steps_keep (JS q) K (\<lambda>_ _. True) (met_since st before q since) p"
  then show "\<exists>before q since. hs @ [h] = before @ Arrive q # since
    \<and> steps_keep (JS q) K (\<lambda>_ _. True) (met_since st before q since) p"
    by (intro exI [of _ before] exI [of _ q] exI [of _ "since @ [h]"]) (auto simp: met_since_snoc intro: steps_keep_later)
qed

lemma remains_step:
  assumes "remains st hs (Atom f)" and "fst (fold conc_step hs (st, [])) = s"
  obtains before q since where "hs = before @ Arrive q # since"
    and "\<forall>J\<in>JS q (met_since st before q (since @ [h])). holds J K s \<longrightarrow> holds J K (snd (f s))" and "remains st (hs @ [h]) (fst (f s))"
proof -
  obtain before q since where hs: "hs = before @ Arrive q # since"
    and keep: "steps_keep (JS q) K (\<lambda>_ _. True) (met_since st before q since) (Atom f)"
    using assms(1) unfolding remains_def by blast
  have met: "met_since st before q (since @ [h]) = met_since st before q since @ [ss_db s]"
    using assms(2) hs by (simp add: met_since_snoc del: fold_append fold_simps)
  have next_step: "(\<forall>J\<in>JS q (met_since st before q (since @ [h])). holds J K s \<longrightarrow> holds J K (snd (f s)))
      \<and> steps_keep (JS q) K (\<lambda>_ _. True) (met_since st before q (since @ [h])) (fst (f s))"
    using keep unfolding met steps_keep_simps by blast
  with hs have "remains st (hs @ [h]) (fst (f s))" unfolding remains_def by (metis append.assoc append_Cons)
  with hs next_step that show thesis by blast
qed

lemma flight_run:
  assumes "\<And>q. q \<in> arrivals hs \<Longrightarrow> ok q"
  shows "\<forall>p\<in>set (snd (fold conc_step hs (st, []))). remains st hs p"
  using assms
proof (induction hs rule: rev_induct)
  case Nil
  then show ?case by simp
next
  case (snoc h hs)
  then have IH: "\<forall>p\<in>set (snd (fold conc_step hs (st, []))). remains st hs p" by (auto simp: arrivals_def)
  obtain s ps where c: "fold conc_step hs (st, []) = (s, ps)" by fastforce
  have old: "remains st (hs @ [h]) p" if "p \<in> set ps" for p
    using IH that c remains_later by simp
  show ?case
  proof (cases "\<exists>i f. h = Advance i \<and> i < length ps \<and> ps ! i = Atom f")
    case True
    then obtain i f where h: "h = Advance i" and i: "i < length ps" and f: "ps ! i = Atom f" by blast
    have "Atom f \<in> set ps" using i f by (metis nth_mem)
    with IH c have "remains st hs (Atom f)" by simp
    then have "remains st (hs @ [h]) (fst (f s))" by (rule remains_step [where s = s and h = h]) (simp_all add: c)
    with old c h i f show ?thesis
      by (auto split: prod.split dest!: set_update_subset_insert [THEN subsetD])
  next
    case False
    show ?thesis
    proof (cases h)
      case (Arrive q)
      with snoc.prems have "steps (JS q) K (request_prog q)" by (intro request_steps) (simp add: arrivals_def)
      then have "steps_keep (JS q) K (\<lambda>_ _. True) (met_since st hs q []) (request_prog q)" by (simp add: steps_def)
      with Arrive have "remains st (hs @ [h]) (request_prog q)" unfolding remains_def by blast
      with old c Arrive show ?thesis by auto
    next
      case (Advance i)
      with False c have "fold conc_step (hs @ [h]) (st, []) = (s, ps)" by (auto split: prog.split)
      with old show ?thesis by simp
    qed
  qed
qed

lemma interleaving:
  assumes "holds J K st" and "\<And>before q since. hs = before @ Arrive q # since \<Longrightarrow> ok q \<and> J \<in> JS q (met_since st before q since)"
  shows "holds J K (fst (fold conc_step hs (st, [])))"
  using assms(2)
proof (induction hs rule: rev_induct)
  case Nil
  with assms(1) show ?case by simp
next
  case (snoc h hs)
  have "J \<in> JS q (met_since st before q since)" if "hs = before @ Arrive q # since" for before q since
    using snoc.prems [of before q "since @ [h]"] that shrinks [of "met_since st before q since" "met_since st before q (since @ [h])" q]
    by (auto simp: met_since_snoc)
  moreover have ok: "ok q" if "hs = before @ Arrive q # since" for before q since
    using snoc.prems [of before q "since @ [h]"] that by simp
  ultimately have IH: "holds J K (fst (fold conc_step hs (st, [])))" by (intro snoc.IH) blast
  have fl: "\<forall>p\<in>set (snd (fold conc_step hs (st, []))). remains st hs p"
    by (rule flight_run) (auto simp: arrivals_def dest!: split_list intro: ok)
  obtain s ps where c: "fold conc_step hs (st, []) = (s, ps)" by fastforce
  show ?case
  proof (cases "\<exists>i f. h = Advance i \<and> i < length ps \<and> ps ! i = Atom f")
    case True
    then obtain i f where h: "h = Advance i" and i: "i < length ps" and f: "ps ! i = Atom f" by blast
    have "Atom f \<in> set ps" using i f by (metis nth_mem)
    with fl c have "remains st hs (Atom f)" by simp
    then obtain before q since where hs: "hs = before @ Arrive q # since"
      and keep: "\<forall>J\<in>JS q (met_since st before q (since @ [h])). holds J K s \<longrightarrow> holds J K (snd (f s))"
      by (rule remains_step [where s = s and h = h]) (simp_all add: c)
    have "J \<in> JS q (met_since st before q (since @ [h]))"
      using snoc.prems [of before q "since @ [h]"] hs by simp
    with keep IH c have "holds J K (snd (f s))" by simp
    with c h i f show ?thesis by (simp split: prod.split) (metis snd_conv)
  next
    case False
    with IH c show ?thesis by (cases h) (auto split: prog.split)
  qed
qed

end


subsection \<open>Integrity\<close>

definition limiter_ok :: "rate_limiter \<Rightarrow> bool" where
  "limiter_ok l \<longleftrightarrow> hits_bounded l \<and> rl_max l = 5 \<and> rl_window l = 60 * 1000000000"

lemma server_inv_holds: "server_inv = holds db_inv limiter_ok"
  by (rule ext) (auto simp: server_inv_def holds_def limiter_ok_def)

interpretation sound: evidence "\<lambda>_. {db_inv}" limiter_ok "\<lambda>_. True"
  by unfold_locales (auto intro: stmts_keep_weaken [OF zone_stmts_keep_inv])

interpretation integrity: request_inv "\<lambda>q ds. {db_inv}" limiter_ok "\<lambda>_. True"
proof
  fix q :: "'r served"
  obtain w e path r where q: "q = (w, e, path, r)" by (cases q)
  show "steps (\<lambda>ds. {db_inv}) limiter_ok (request_prog q)"
    unfolding q
  proof (rule sound.steps_request)
    show "stmt_keeps J (sql_insert_snapshot name n c t)" if "J \<in> {db_inv}" for J name n c t
      using zone_stmts_keep_inv [of name] that by (simp add: stmts_keep_def)
    show "holds J limiter_ok (snd (serve w e path r st))" if "J \<in> {db_inv}" "holds J limiter_ok st" for J st
      using serve_inv [of st "(w, e, path, r)"] that by (simp add: serve_step_def server_inv_holds)
  qed simp
qed simp

lemma interleaving_keeps_inv: "server_inv st \<Longrightarrow> server_inv (fst (fold conc_step hs (st, [])))"
  unfolding server_inv_holds by (rule integrity.interleaving) simp_all

text \<open>Whatever requests are in flight, and however their steps alternate.\<close>

theorem interleaved_requests_keep_integrity:
  assumes "db_inv (st_db s)"
  shows "server_inv (fst (fold conc_step hs (new_server_state s, [])))"
  using server_inv_new [OF assms] by (rule interleaving_keeps_inv)


subsection \<open>Every request ends, and alone it is the handler\<close>

lemma request_finishes:
  "i < length ps \<Longrightarrow> ps ! i = p \<Longrightarrow> \<exists>n. fold conc_step (replicate n (Advance i :: 'r served happening)) (st, ps) =
     (snd (runP p st), ps[i := Done (fst (runP p st))])"
proof (induction p arbitrary: st ps rule: prog_induct)
  case (Done x)
  then have "fold conc_step (replicate 0 (Advance i :: 'r served happening)) (st, ps) = (snd (runP (Done x) st), ps[i := Done (fst (runP (Done x) st))])"
    by (metis fold.simps(1) fst_conv id_apply list_update_id replicate_0 runP.simps(1) snd_conv)
  then show ?case ..
next
  case (Atom f)
  obtain p st' where f: "f st = (p, st')" by (cases "f st")
  have "\<exists>n. fold conc_step (replicate n (Advance i :: 'r served happening)) (st', ps[i := p]) =
      (snd (runP p st'), ps[i := p, i := Done (fst (runP p st'))])"
    using Atom.IH [of "ps[i := p]" st st'] Atom.prems f by simp
  then obtain n where n: "fold conc_step (replicate n (Advance i :: 'r served happening)) (st', ps[i := p]) =
      (snd (runP p st'), ps[i := Done (fst (runP p st'))])" by auto
  have "fold conc_step (replicate (Suc n) (Advance i :: 'r served happening)) (st, ps) =
      (snd (runP (Atom f) st), ps[i := Done (fst (runP (Atom f) st))])"
    using Atom.prems f n by (simp add: map_prod_def)
  then show ?case ..
qed

lemma undisturbed_request:
  "\<exists>n. fold conc_step (Arrive (w, e, path, r) # replicate n (Advance (length ps))) (st, ps) =
     (snd (serve w e path r st), ps @ [Done (fst (serve w e path r st))])"
  using request_finishes [of "length ps" "ps @ [request_prog (w, e, path, r)]" "request_prog (w, e, path, r)" st]
  by (simp add: request_alone)

fun arrived :: "'q happening list \<Rightarrow> 'q list" where
  "arrived [] = []"
| "arrived (Arrive q # hs) = q # arrived hs"
| "arrived (Advance i # hs) = arrived hs"

lemma arrived_append [simp]: "arrived (hs @ hs') = arrived hs @ arrived hs'"
  by (induction hs rule: arrived.induct) simp_all

lemma arrived_replicate [simp]: "arrived (replicate n (Advance i)) = []"
  by (induction n) simp_all

text \<open>
  A request runs to its end when it is given its steps, beside any others that stand still;
  requests that run in turn leave the state, and give the responses, of the handlers called one
  after the other as single functions.
\<close>
theorem requests_in_turn_are_served:
  "\<exists>hs. arrived hs = qs \<and> fold conc_step hs (st, ps) = (snd (serve_all qs st), ps @ map Done (fst (serve_all qs st)))"
proof (induction qs arbitrary: st ps)
  case Nil
  show ?case by (rule exI [of _ "[]"]) simp
next
  case (Cons q qs)
  obtain w e path r where q: "q = (w, e, path, r)" by (cases q)
  obtain resp st1 where s: "serve w e path r st = (resp, st1)" by fastforce
  obtain n where n: "fold conc_step (Arrive q # replicate n (Advance (length ps))) (st, ps) = (st1, ps @ [Done resp])"
    using undisturbed_request [of w e path r ps st] s q by auto
  obtain hs where hs: "arrived hs = qs"
    "fold conc_step hs (st1, ps @ [Done resp]) = (snd (serve_all qs st1), (ps @ [Done resp]) @ map Done (fst (serve_all qs st1)))"
    using Cons.IH by blast
  show ?case
    by (rule exI [of _ "(Arrive q # replicate n (Advance (length ps))) @ hs"])
      (use n hs s q in \<open>simp add: split_beta\<close>)
qed


subsection \<open>A deploy that is overtaken\<close>

lemma deploy_request_prog:
  assumes "mux (hr_method r) path = Some (R_deploy, name)" and "currentSession w e r = Some s" and "se_authed s"
    and "isMutating (hr_method r) \<Longrightarrow> csrf_token r = se_csrf s"
  shows "request_prog (w, e, path, r) = bindP (update count_request) (\<lambda>_. handleDeploy_p w e (r\<lparr>hr_zone := name\<rparr>))"
  using assms by (auto simp: request_prog_def stepwise_def requireAuth_p_def)

lemma BuildZone_statements:
  assumes "on_store (BuildZone L name) st = (Inr built, st')"
  obtains z st1 recs where "on_store (GetZone name) st = (Inr z, st1)"
    and "on_store (RecordsOf name) st1 = (Inr recs, st')"
    and "Build L (sz_name z) (SOAData z) (map snd recs) = Inr built"
  using assms by (auto simp: BuildZone_def run_store split: prod.splits sum.splits)

text \<open>Four steps: the count of the request, and the three statements that read.\<close>

lemma deploy_reads:
  assumes "on_store (GetZone (hr_zone r)) (count_request st) = (Inr z, st1)"
    and "on_store (BuildZone (ws_lib w) (hr_zone r)) st1 = (Inr built, st2)"
  shows "fold conc_step (replicate 4 (Advance 0)) (st, [bindP (update count_request) (\<lambda>_. handleDeploy_p w e r)]) =
    (st2, [finish_deploy w e r z built])"
proof -
  obtain z' st' recs where b: "on_store (GetZone (hr_zone r)) st1 = (Inr z', st')"
    "on_store (RecordsOf (hr_zone r)) st' = (Inr recs, st2)"
    "Build (ws_lib w) (sz_name z') (SOAData z') (map snd recs) = Inr built"
    by (rule BuildZone_statements [OF assms(2)])
  show ?thesis
    by (simp add: eval_nat_numeral update_def atomic_def handleDeploy_p_def BuildZone_p_def stmt_def bindEP_def
        Let_def assms(1) b)
qed

lemma others_leave_first:
  "Advance 0 \<notin> set hs \<Longrightarrow> \<exists>st' ps'. fold conc_step hs (st, p # ps) = (st', p # ps')"
proof (induction hs arbitrary: st ps)
  case Nil
  then show ?case by simp
next
  case (Cons h hs)
  have "\<exists>st1 ps1. conc_step h (st, p # ps) = (st1, p # ps1)"
  proof (cases h)
    case (Arrive q)
    then show ?thesis by simp
  next
    case (Advance i)
    with Cons.prems obtain j where "i = Suc j" by (cases i) auto
    with Advance show ?thesis by (auto split: prog.split prod.split)
  qed
  with Cons show ?case by auto
qed

lemma finish_deploy_run:
  assumes "BumpSerial (c_serial_policy (ws_cfg w)) (he_now e) built = (Inr (old, new), built')"
    and "ws_deploy w (deploy_request (ws_lib w) (hr_zone r) built' old new (sz_targets z)) = (Some res, None)"
    and "AllMoved res"
    and "on_store (Publish (hr_zone r) (Render (ws_lib w) built') new (he_created e)) (observe res st) = (Inr (), st')"
  shows "ss_db (snd (runP (finish_deploy w e r z built) st)) = ss_db st'"
  using assms by (simp add: finish_deploy_def deploy_request_def run_Publish Let_def)

text \<open>
  C17: There is no lock around a deploy: once it has read the zone, other requests can edit and
  deploy that zone, and it then still publishes the text and the serial computed from what it had
  read, as the newest snapshot and the serial of the zone, even over the same or a larger serial.
\<close>
theorem overtaken_deploy_takes_serial_back:
  fixes w :: "'r web_server"
  assumes deploys: "mux (hr_method r) path = Some (R_deploy, name)" "currentSession w e r = Some s" "se_authed s"
      "isMutating (hr_method r) \<Longrightarrow> csrf_token r = se_csrf s"
    and reads: "on_store (GetZone name) (count_request st) = (Inr z, st1)"
      "on_store (BuildZone (ws_lib w) name) st1 = (Inr built, st2)"
    and bump: "BumpSerial (c_serial_policy (ws_cfg w)) (he_now e) built = (Inr (old, new), built')"
    and moved: "ws_deploy w (deploy_request (ws_lib w) name built' old new (sz_targets z)) = (Some res, None)" "AllMoved res"
    and others: "Advance 0 \<notin> set hs"
      "fold conc_step (Arrive (w, e, path, r) # replicate 4 (Advance 0) @ hs) (st, []) = (st', ps)"
    and publish: "on_store (Publish name (Render (ws_lib w) built') new (he_created e)) (observe res st') = (Inr (), st4)"
    and inv: "server_inv st"
  shows "\<exists>n d sn. d = ss_db (fst (fold conc_step
      (Arrive (w, e, path, r) # replicate 4 (Advance 0) @ hs @ replicate n (Advance 0)) (st, [])))
    \<and> map_option zr_serial (zone_row_of name d) = Some new \<and> sn_serial sn = new \<and> sn_content sn = Render (ws_lib w) built'
    \<and> snapshots_desc name d = sql_limit (st_keep (ss_store st')) (sn # snapshots_desc name (ss_db st'))"
proof -
  let ?r = "r\<lparr>hr_zone := name\<rparr>" and ?q = "(w, e, path, r)"
  let ?tail = "finish_deploy w e ?r z built"
  note q = deploy_request_prog [OF deploys]
  have read: "fold conc_step (Arrive ?q # replicate 4 (Advance 0)) (st, []) = (st2, [?tail])"
    using deploy_reads [of ?r st z st1 w built st2 e] reads q by simp
  obtain ps' where ps: "fold conc_step hs (st2, [?tail]) = (st', ?tail # ps')"
  proof -
    obtain st'' ps'' where "fold conc_step hs (st2, [?tail]) = (st'', ?tail # ps'')"
      using others_leave_first [OF others(1), of st2 ?tail "[]"] by blast
    moreover from this have "st'' = st'" using others(2) read by simp
    ultimately show thesis using that by blast
  qed
  obtain n where n: "fold conc_step (replicate n (Advance 0 :: 'r served happening)) (st', ?tail # ps') =
      (snd (runP ?tail st'), (?tail # ps')[0 := Done (fst (runP ?tail st'))])"
    using request_finishes [of 0 "?tail # ps'" ?tail st'] by auto
  let ?d = "ss_db (fst (fold conc_step (Arrive ?q # replicate 4 (Advance 0) @ hs @ replicate n (Advance 0)) (st, [])))"
  have d: "?d = ss_db st4"
    using read ps n finish_deploy_run [OF bump, of ?r z res st' st4] moved publish by simp
  have "server_inv (fst (fold conc_step (Arrive ?q # replicate 4 (Advance 0) @ hs) (st, [])))"
    using inv by (rule interleaving_keeps_inv)
  then have "server_inv st'" unfolding others(2) by simp
  then have "db_inv (st_db (ss_store st'))" by (simp add: server_inv_def ss_db_def)
  moreover obtain s4 where "Publish name (Render (ws_lib w) built') new (he_created e) (ss_store st') = (Inr (), s4)"
    and s4: "ss_db st4 = st_db s4"
    using publish by (auto simp: on_store_def observe_def ss_db_def split: prod.splits)
  ultimately have "\<exists>sn. sn_serial sn = new \<and> sn_content sn = Render (ws_lib w) built'
      \<and> snapshots_desc name (st_db s4) = sql_limit (st_keep (ss_store st')) (sn # snapshots_desc name (ss_db st'))
      \<and> map_option zr_serial (zone_row_of name (st_db s4)) = Some new"
    by (cases rule: Publish_cases [rotated]) (auto simp: ss_db_def)
  then obtain sn where "sn_serial sn = new" "sn_content sn = Render (ws_lib w) built'"
    "snapshots_desc name (st_db s4) = sql_limit (st_keep (ss_store st')) (sn # snapshots_desc name (ss_db st'))"
    "map_option zr_serial (zone_row_of name (st_db s4)) = Some new" by blast
  with d s4 show ?thesis by (intro exI [of _ n] exI [of _ ?d] exI [of _ sn]) simp
qed

end
