(* ===== verification/Web_History.thy ===== *)
theory Web_History
  imports Web_Concurrency Remote_Files
begin

section \<open>The history\<close>

text \<open>
  Where the snapshots come from: each one in the history, whatever requests overlap, is traced back to the request
  that put it there, to the tables this request had read, and to what its run of the pipeline did.
\<close>

definition snapshot_key :: "snapshot_row \<Rightarrow> string \<times> u32 \<times> string" where
  "snapshot_key sn = (sn_zone sn, sn_serial sn, sn_content sn)"

definition history_in :: "(string \<times> u32 \<times> string) set \<Rightarrow> db \<Rightarrow> bool" where
  "history_in T d \<longleftrightarrow> snapshot_key ` set (db_snapshots d) \<subseteq> T"

lemma history_stmts: "stmts_keep (\<lambda>_. True) (\<lambda>n c. (name, n, c) \<in> T) name (history_in T)"
  unfolding stmts_keep_def stmt_keeps_def history_in_def
  by (auto simp: sql_insert_zone_def sql_insert_record_def sql_insert_snapshot_def sql_set_serial_def
      sql_update_settings_def sql_restore_soa_def update_zones_def sql_delete_zone_def sql_update_record_def
      sql_delete_record_def sql_delete_records_def sql_prune_snapshots_def Let_def mk_snapshot_def
      snapshot_key_def split: if_splits)

lemma history_edits: "stmts_keep (\<lambda>_. True) (\<lambda>_ _. False) name (history_in T)"
  by (rule stmts_keep_weaken [OF history_stmts]) simp_all

text \<open>Only a deploy adds to the history.\<close>

lemma serve_keeps_history:
  assumes "\<And>rt zone. mux (hr_method r) path = Some (rt, zone) \<Longrightarrow> rt \<noteq> R_deploy"
    and "history_in T (ss_db st)" and "serve w e path r st = (resp, st')"
  shows "history_in T (ss_db st')"
  using assms(3)
proof (cases rule: serve_cases)
  case unrouted
  with assms(2) show ?thesis by simp
next
  case (routed rt zone st1)
  have rt: "rt \<noteq> R_deploy" by (rule assms(1) [OF routed(1)])
  show ?thesis
  proof (cases "writing_route rt")
    case False
    with route_reads [OF routed(2)] routed(3) assms(2) show ?thesis by simp
  next
    case True
    from routed(2) this show ?thesis
    proof (cases rule: route_writes_with)
      case refused
      with routed(3) assms(2) show ?thesis by simp
    next
      case (passed s)
      from passed(4) [OF history_edits parses_to_any] rt routed(3) assms(2) show ?thesis by simp
    qed
  qed
qed

text \<open>\<open>env q\<close> is what the check program and the servers answer to the deploy of request \<open>q\<close>. What a request may record
  when it has met the tables \<open>ds\<close> since it arrived: it is a deploy of a signed-in user, the text and the serial are
  those it prepared from what it read, and its run of the pipeline moved that text into place on every target.\<close>

definition deploys_with :: "('r served \<Rightarrow> check_env \<times> remote) \<Rightarrow> 'r served \<Rightarrow> bool" where
  "deploys_with env q \<longleftrightarrow>
     (case (q, env q) of ((w, e, path, r), (ce, rm)) \<Rightarrow> ws_deploy w = pipeline_deploy (ws_lib w) (ws_cfg w) ce rm)"

definition live_by ::
    "('r served \<Rightarrow> check_env \<times> remote) \<Rightarrow> 'r served \<Rightarrow> db list \<Rightarrow> string \<times> u32 \<times> string \<Rightarrow> bool" where
  "live_by env q ds k \<longleftrightarrow>
     (case (q, env q) of ((w, e, path, r), (ce, rm)) \<Rightarrow> \<exists>name s rq res log.
          mux (hr_method r) path = Some (R_deploy, name)
        \<and> currentSession w e r = Some s \<and> se_authed s \<and> csrf_token r = se_csrf s
        \<and> prepared w e name ds rq
        \<and> Deploy (ws_lib w) (ws_cfg w) ce rm rq = (res, None, log) \<and> moved_everywhere (ws_cfg w) rm rq log
        \<and> k = (name, rq_new_serial rq, rq_content rq))"

lemma live_by_later: "live_by env q ds k \<Longrightarrow> prefix ds es \<Longrightarrow> live_by env q es k"
  unfolding live_by_def by (cases q; cases "env q") (simp only: prod.case, blast intro: prepared_later)

definition recordable ::
    "('r served \<Rightarrow> check_env \<times> remote) \<Rightarrow> 'r served \<Rightarrow> db list \<Rightarrow> (db \<Rightarrow> bool) set" where
  "recordable env q ds = {history_in T | T. {k. live_by env q ds k} \<subseteq> T}"

lemma recordable_shrinks: "prefix ds es \<Longrightarrow> recordable env q es \<subseteq> recordable env q ds"
  unfolding recordable_def using live_by_later by blast

interpretation recording: evidence "recordable env q" "\<lambda>_. True" "\<lambda>_. True" for env q
proof
  show "prefix ds es \<Longrightarrow> recordable env q es \<subseteq> recordable env q ds" for ds es by (rule recordable_shrinks)
  show "J \<in> recordable env q [] \<Longrightarrow> stmts_keep (\<lambda>_. True) (\<lambda>_ _. False) name J" for J name
    by (auto simp: recordable_def intro: history_edits)
qed

lemma deploy_route_is_post: "mux m path = Some (R_deploy, name) \<Longrightarrow> isMutating m"
  using post_routes_method [of m path R_deploy name] by (simp add: writing_route_def isMutating_def)

interpretation history: request_inv "recordable env" "\<lambda>_. True" "deploys_with env"
    for env :: "'r served \<Rightarrow> check_env \<times> remote"
proof
  fix q :: "'r served"
  assume q0: "deploys_with env q"
  obtain w e path r where q: "q = (w, e, path, r)" by (cases q)
  obtain ce rm where env: "env q = (ce, rm)" by (cases "env q")
  from q0 q env have dep: "ws_deploy w = pipeline_deploy (ws_lib w) (ws_cfg w) ce rm" by (simp add: deploys_with_def)
  show "steps (recordable env q) (\<lambda>_. True) (request_prog q)"
    unfolding q
  proof (rule recording.steps_request)
    fix name s ds rq res J t
    assume m: "mux (hr_method r) path = Some (R_deploy, name)" and s: "currentSession w e r = Some s" "se_authed s"
      and csrf: "isMutating (hr_method r) \<Longrightarrow> csrf_token r = se_csrf s" and prep: "prepared w e name ds rq"
      and run: "ws_deploy w rq = (Some res, None)" "AllMoved res" and J: "J \<in> recordable env (w, e, path, r) ds"
    obtain log where d: "Deploy (ws_lib w) (ws_cfg w) ce rm rq = (res, None, log)"
      using dep run(1) by (auto simp: pipeline_deploy_def split: prod.splits)
    from AllMoved_moved_everywhere [OF d run(2)] m s csrf [OF deploy_route_is_post [OF m]] prep d
    have "live_by env (w, e, path, r) ds (name, rq_new_serial rq, rq_content rq)"
      unfolding live_by_def env [unfolded q] prod.case by blast
    with J obtain T where "J = history_in T" and "(name, rq_new_serial rq, rq_content rq) \<in> T"
      by (auto simp: recordable_def)
    with history_stmts [of name T] show "stmt_keeps J (sql_insert_snapshot name (rq_new_serial rq) (rq_content rq) t)"
      by (simp add: stmts_keep_def)
  next
    fix J st
    assume "J \<in> recordable env (w, e, path, r) []" and "\<forall>rt zone. mux (hr_method r) path = Some (rt, zone) \<longrightarrow> rt \<noteq> R_deploy"
      and "holds J (\<lambda>_. True) st"
    then show "holds J (\<lambda>_. True) (snd (serve w e path r st))"
      by (auto simp: holds_def recordable_def intro!: serve_keeps_history [OF _ _ prod.collapse [symmetric]])
  qed simp
qed (rule recordable_shrinks)

text \<open>
  C4: Each snapshot of the history, whatever requests overlap and however their statements
  alternate, was there before or comes from a request of a signed-in user to deploy its zone, that
  arrived during the run: its serial and text are those that this request computed from the zone
  rows and records it read, in this order, after it arrived, and its run of the pipeline ended
  without error and had uploaded that text to, and moved it into place on, every target of the
  zone it had read.
\<close>
theorem history_holds_only_what_was_live:
  assumes "\<forall>q\<in>arrivals hs. deploys_with env q"
    and "sn \<in> set (db_snapshots (ss_db (fst (fold conc_step hs (st, [])))))"
  shows "(\<exists>old\<in>set (db_snapshots (ss_db st)). snapshot_key old = snapshot_key sn)
    \<or> (\<exists>before q since. hs = before @ Arrive q # since \<and> live_by env q (met_since st before q since) (snapshot_key sn))"
proof -
  let ?T = "snapshot_key ` set (db_snapshots (ss_db st))
    \<union> {k. \<exists>before q since. hs = before @ Arrive q # since \<and> live_by env q (met_since st before q since) k}"
  have "holds (history_in ?T) (\<lambda>_. True) st" by (auto simp: holds_def history_in_def)
  then have "holds (history_in ?T) (\<lambda>_. True) (fst (fold conc_step hs (st, [])))"
  proof (rule history.interleaving)
    fix before q since
    assume hs: "hs = before @ Arrive q # since"
    then have "history_in ?T \<in> recordable env q (met_since st before q since)" unfolding recordable_def by blast
    moreover from hs have "q \<in> arrivals hs" by (simp add: arrivals_def)
    ultimately show "deploys_with env q \<and> history_in ?T \<in> recordable env q (met_since st before q since)"
      using assms(1) by blast
  qed
  with assms(2) have "snapshot_key sn \<in> ?T" by (auto simp: holds_def history_in_def)
  then show ?thesis by auto
qed

end
