(* ===== verification/Example_Overlap.thy ===== *)
theory Example_Overlap
  imports Example_Web Web_History
begin

section \<open>Overlapping requests at concrete inputs\<close>

text \<open>
  Two deploys of one zone and the addition of a record: the first deploy reads the zone, then the record is added
  and the second deploy runs to its end, then the first one goes on. Both publish serial 8, with different texts.
\<close>

definition ex_row :: "store \<Rightarrow> zone_row" where
  "ex_row s = the (zone_row_of ''a'' (st_db s))"

definition ex_build :: "store \<Rightarrow> zone_error + string zone" where
  "ex_build s = Build ex_lib ''a'' (SOAData (scanZone (ex_row s))) (map snd (records_view ''a'' (st_db s)))"

definition ex_bumped :: "store \<Rightarrow> (zone_error + u32 \<times> u32) \<times> string zone" where
  "ex_bumped s = BumpSerial SerialIncrement ex_now (projr (ex_build s))"

definition ex_text :: "store \<Rightarrow> string" where
  "ex_text s = Render ex_lib (snd (ex_bumped s))"

definition ex_publish :: "store \<Rightarrow> store \<Rightarrow> (store_error + unit) \<times> store" where
  "ex_publish s t = Publish ''a'' (ex_text s) 8 (he_created ex_env) t"

definition ex_ready :: "store \<Rightarrow> bool" where
  "ex_ready s \<longleftrightarrow> zone_row_of ''a'' (st_db s) \<noteq> None \<and> \<not> isl (ex_build s) \<and> fst (ex_bumped s) = Inr (7, 8)
     \<and> st_faults s = []
     \<and> (case Deploy ex_lib ex_web_cfg ex_check ex_remote
            (deploy_request ex_lib ''a'' (snd (ex_bumped s)) 7 8 (sz_targets (scanZone (ex_row s)))) of
          (res, err, log) \<Rightarrow> err = None \<and> AllMoved res)"

definition ex_mail :: zrecord where
  "ex_mail = \<lparr>r_name = ''mail.a.'', r_ttl = 60, r_class = ''IN'', r_type = ''A'', r_data = ''192.0.2.3''\<rparr>"

definition ex_add_form :: "(string \<times> string) list" where
  "ex_add_form = [(''name'', ''mail''), (''ttl'', ''60''), (''type'', ''A''), (''data'', ''192.0.2.3'')]"

definition ex_s2 :: store where "ex_s2 = snd (AddRecord ''a'' ex_mail ex_s1)"

definition ex_s3 :: store where "ex_s3 = snd (ex_publish ex_s2 ex_s2)"

definition ex_s4 :: store where "ex_s4 = snd (ex_publish ex_s1 ex_s3)"

lemma ex_normal: "form_record ex_web ((ex_post ex_add_form)\<lparr>hr_zone := ''a''\<rparr>) = Inr ex_mail"
proof -
  have "NormalizeRecord ex_lib ''a'' ''mail'' 60 ''A'' ''192.0.2.3'' = Inr ex_mail" by code_simp
  moreover have "trim_space ''60'' = ''60''" and "parse_uint (2 ^ 32 - 1) ''60'' = Inr 60" by (code_simp, code_simp)
  then have "formUint ((ex_post ex_add_form)\<lparr>hr_zone := ''a''\<rparr>) ''ttl'' 3600 = 60"
    by (simp add: formUint_def ex_post_def post_value_def first_value_def ex_add_form_def)
  ultimately show ?thesis
    by (simp add: form_record_def ex_post_def post_value_def first_value_def ex_add_form_def ex_web_def)
qed

text \<open>The text of the zone does not matter for a deploy or a \<open>Publish\<close> of the examples.\<close>

lemma ex_deploy_any:
  "(case Deploy ex_lib ex_web_cfg ex_check ex_remote
      \<lparr>rq_zone = ''a'', rq_content = c, rq_old_serial = 7, rq_new_serial = 8, rq_targets = [''s1'', ''s2'']\<rparr> of
      (res, err, log) \<Rightarrow> err = None \<and> AllMoved res)"
  by code_simp

lemma ex_publish_any:
  "(let s = snd (Publish ''a'' c 8 t ex_s2) in fst (Publish ''a'' c 8 t ex_s2) = Inr () \<and> st_faults s = [] \<and> st_keep s = 2
     \<and> fst (Publish ''a'' c' 8 t s) = Inr ()
     \<and> map (\<lambda>n. (sn_serial n, sn_content n)) (snapshots_desc ''a'' (st_db s)) = [(8, c)])"
  by code_simp

lemma ex_published:
  "fst (ex_publish ex_s2 ex_s2) = Inr ()" "st_faults ex_s3 = []" "st_keep ex_s3 = 2" "fst (ex_publish ex_s1 ex_s3) = Inr ()"
  "map (\<lambda>n. (sn_serial n, sn_content n)) (snapshots_desc ''a'' (st_db ex_s3)) = [(8, ex_text ex_s2)]"
  using ex_publish_any [of "ex_text ex_s2" "he_created ex_env" "ex_text ex_s1"]
  by (simp_all add: ex_s3_def ex_publish_def Let_def)

definition ex_read :: "store \<Rightarrow> bool" where
  "ex_read s \<longleftrightarrow> zone_row_of ''a'' (st_db s) \<noteq> None \<and> \<not> isl (ex_build s) \<and> fst (ex_bumped s) = Inr (7, 8)
     \<and> st_faults s = [] \<and> sz_targets (scanZone (ex_row s)) = [''s1'', ''s2'']"

lemma ex_read_ready: "ex_read s \<Longrightarrow> ex_ready s"
  using ex_deploy_any [of "Render ex_lib (snd (ex_bumped s))"] by (simp add: ex_read_def ex_ready_def deploy_request_def)

lemma ex_ready1: "ex_ready ex_s1"
  by (rule ex_read_ready) code_simp

lemma ex_ready2: "ex_ready ex_s2"
  by (rule ex_read_ready) code_simp

lemma ex_added: "fst (AddRecord ''a'' ex_mail ex_s1) = Inr 3"
  by code_simp

lemma ex_texts: "ex_text ex_s1 \<noteq> ex_text ex_s2"
  by code_simp


subsection \<open>The run\<close>

lemma ex_passes:
  "requireAuth ex_web ex_env h ((ex_post form)\<lparr>hr_zone := z\<rparr>) st = h ((ex_post form)\<lparr>hr_zone := z\<rparr>) st"
proof -
  have "currentSession ex_web ex_env ((ex_post form)\<lparr>hr_zone := z\<rparr>) = Some ex_signed_in" using ex_current by simp
  moreover have "csrf_token ((ex_post form)\<lparr>hr_zone := z\<rparr>) = se_csrf ex_signed_in"
    using ex_csrf by (simp add: ex_post_def csrf_token_def)
  moreover have "se_authed ex_signed_in" by (simp add: ex_signed_in_def)
  ultimately show ?thesis by (simp add: requireAuth_def)
qed

lemma ex_deploy_on:
  assumes "ss_store st = s" and "ex_ready s" and "ex_publish s s = (Inr (), s')"
  shows "ss_store (snd (handleDeploy ex_web ex_env ((ex_post [])\<lparr>hr_zone := ''a''\<rparr>) st)) = s'"
proof -
  let ?r = "(ex_post [])\<lparr>hr_zone := ''a''\<rparr>"
  have quiet: "st_faults s = []" and row: "zone_row_of ''a'' (st_db s) = Some (ex_row s)"
    and built: "Build ex_lib ''a'' (SOAData (scanZone (ex_row s))) (map snd (records_view ''a'' (st_db s))) = Inr (projr (ex_build s))"
    and bump: "BumpSerial SerialIncrement ex_now (projr (ex_build s)) = (Inr (7, 8), snd (ex_bumped s))"
    using assms(2) by (auto simp: ex_ready_def ex_row_def ex_build_def ex_bumped_def prod_eq_iff)
  obtain res log where d: "Deploy ex_lib ex_web_cfg ex_check ex_remote
      (deploy_request ex_lib ''a'' (snd (ex_bumped s)) 7 8 (sz_targets (scanZone (ex_row s)))) = (res, None, log)"
    and moved: "AllMoved res"
    using assms(2) by (auto simp: ex_ready_def split: prod.splits)
  have get: "on_store (GetZone (hr_zone ?r)) st = (Inr (scanZone (ex_row s)), st)"
    using GetZone_no_faults [OF quiet row] assms(1) by (simp add: on_store_def)
  have build: "on_store (BuildZone (ws_lib ex_web) (hr_zone ?r)) st = (Inr (projr (ex_build s)), st)"
    using BuildZone_no_faults [OF quiet row, of ex_lib] built assms(1) by (simp add: on_store_def ex_web_simps)
  have dep: "pipeline_deploy ex_lib ex_web_cfg ex_check ex_remote
      (deploy_request ex_lib ''a'' (snd (ex_bumped s)) 7 8 (sz_targets (scanZone (ex_row s)))) = (Some res, None)"
    by (simp add: pipeline_deploy_def d)
  have pub: "on_store (Publish (hr_zone ?r) (Render (ws_lib ex_web) (snd (ex_bumped s))) 8 (he_created ex_env)) (observe res st) =
      (Inr (), (observe res st)\<lparr>ss_store := s'\<rparr>)"
    using assms(1,3) by (simp add: on_store_def observe_def ex_publish_def ex_text_def ex_web_simps)
  note run = pipeline.handler_run [OF ex_web_simps(1) get build, of ex_env 7 8 "snd (ex_bumped s)" res "Inr ()"]
  show ?thesis
    using run [OF _ _ moved pub] bump dep by (simp add: ex_web_simps audit_def)
qed

lemma ex_add_on:
  assumes "ss_store st = ex_s1"
  shows "ss_store (snd (handleAddRecord ex_web ex_env ((ex_post ex_add_form)\<lparr>hr_zone := ''a''\<rparr>) st)) = ex_s2"
proof -
  have add: "on_store (AddRecord ''a'' ex_mail) st = (Inr 3, st\<lparr>ss_store := ex_s2\<rparr>)"
    using ex_added assms by (simp add: on_store_def ex_s2_def split: prod.split) (metis fst_conv snd_conv)
  have "st_faults ex_s2 = []" using ex_ready2 by (simp add: ex_ready_def)
  then have "ss_store (snd (on_store (RecordsOf ''a'') (audit ex_web ex_env ev (st\<lparr>ss_store := ex_s2\<rparr>)))) = ex_s2" for ev
    by (simp add: on_store_def RecordsOf_def query_no_faults audit_def)
  with add show ?thesis
    by (simp add: handleAddRecord_def ex_normal show_records_def Let_def split: prod.split) (metis snd_conv)
qed

abbreviation ex_q :: "string list \<Rightarrow> (string \<times> string) list \<Rightarrow> string served" where
  "ex_q path form \<equiv> (ex_web, ex_env, path, ex_post form)"

lemma ex_served:
  assumes "mux ''POST'' path = Some (rt, ''a'')"
    and "route_handler ex_web ex_env rt = requireAuth ex_web ex_env h"
    and "\<And>st'. ss_store st' = s \<Longrightarrow> ss_store (snd (h ((ex_post form)\<lparr>hr_zone := ''a''\<rparr>) st')) = s'"
    and "ss_store st = s"
  shows "ss_store (snd (serve ex_web ex_env path (ex_post form) st)) = s'"
proof -
  have "hr_method (ex_post form) = ''POST''" by (simp add: ex_post_def)
  with assms show ?thesis
    by (simp add: serve_def logRequests_def serve_mux_def ex_passes)
qed

definition ex_overtaken :: "nat \<Rightarrow> string served happening list" where
  "ex_overtaken m = Arrive (ex_q [''zones'', ''a'', ''records''] ex_add_form) # Advance 1
     # Arrive (ex_q [''zones'', ''a'', ''deploy''] []) # replicate m (Advance 2)"

theorem overtaken_deploy_takes_serial_back_witness:
  "\<exists>m n d. d = ss_db (fst (fold conc_step (Arrive (ex_q [''zones'', ''a'', ''deploy''] []) # replicate 4 (Advance 0)
        @ ex_overtaken m @ replicate n (Advance 0)) (ex_start, [])))
     \<and> map (\<lambda>sn. (sn_serial sn, sn_content sn)) (snapshots_desc ''a'' d) = [(8, ex_text ex_s1), (8, ex_text ex_s2)]"
proof -
  let ?dep = "ex_q [''zones'', ''a'', ''deploy''] []" and ?add = "ex_q [''zones'', ''a'', ''records''] ex_add_form"
  let ?r = "(ex_post [])\<lparr>hr_zone := ''a''\<rparr>"
  let ?z = "scanZone (ex_row ex_s1)" and ?b = "projr (ex_build ex_s1)" and ?b' = "snd (ex_bumped ex_s1)"
  have quiet: "st_faults ex_s1 = []" and row: "zone_row_of ''a'' (st_db ex_s1) = Some (ex_row ex_s1)"
    and built: "Build ex_lib ''a'' (SOAData ?z) (map snd (records_view ''a'' (st_db ex_s1))) = Inr ?b"
    and bump: "BumpSerial SerialIncrement ex_now ?b = (Inr (7, 8), ?b')"
    using ex_ready1 by (auto simp: ex_ready_def ex_row_def ex_build_def ex_bumped_def prod_eq_iff)
  obtain res log where "Deploy ex_lib ex_web_cfg ex_check ex_remote
      (deploy_request ex_lib ''a'' ?b' 7 8 (sz_targets ?z)) = (res, None, log)" and moved: "AllMoved res"
    using ex_ready1 by (auto simp: ex_ready_def split: prod.splits)
  then have dep: "ws_deploy ex_web (deploy_request ex_lib ''a'' ?b' 7 8 (sz_targets ?z)) = (Some res, None)"
    by (simp add: ex_web_simps pipeline_deploy_def)
  have store: "ss_store (count_request ex_start) = ex_s1"
    by (simp add: count_request_def ex_start_def new_server_state_def)
  have get: "on_store (GetZone ''a'') (count_request ex_start) = (Inr ?z, count_request ex_start)"
    using GetZone_no_faults [OF quiet row] store by (simp add: on_store_def)
  have build: "on_store (BuildZone (ws_lib ex_web) ''a'') (count_request ex_start) = (Inr ?b, count_request ex_start)"
    using BuildZone_no_faults [OF quiet row, of ex_lib] built store by (simp add: on_store_def ex_web_simps)
  have auth: "mux (hr_method (ex_post [])) [''zones'', ''a'', ''deploy''] = Some (R_deploy, ''a'')"
    "currentSession ex_web ex_env (ex_post []) = Some ex_signed_in" "se_authed ex_signed_in"
    "csrf_token (ex_post []) = se_csrf ex_signed_in"
    using ex_current [of "[]"] ex_csrf
    by (simp_all add: ex_post_def mux_def post_routes_def ex_signed_in_def csrf_token_def)
  let ?tail = "finish_deploy ex_web ex_env ?r ?z ?b"
  let ?st1 = "count_request ex_start"
  let ?st2 = "snd (serve ex_web ex_env [''zones'', ''a'', ''records''] (ex_post ex_add_form) ?st1)"
  let ?st3 = "snd (serve ex_web ex_env [''zones'', ''a'', ''deploy''] (ex_post []) ?st2)"
  have reads: "fold conc_step (Arrive ?dep # replicate 4 (Advance 0)) (ex_start, []) = (?st1, [?tail])"
    using deploy_reads [of ?r ex_start ?z ?st1 ex_web ?b ?st1 ex_env] get build deploy_request_prog [OF auth(1-3)] auth(4)
    by simp
  have "request_prog ?add = atomic (serve ex_web ex_env [''zones'', ''a'', ''records''] (ex_post ex_add_form))"
    by (simp add: request_prog_def ex_post_def mux_def post_routes_def stepwise_def)
  then have added: "fold conc_step [Arrive ?add, Advance 1] (?st1, [?tail]) =
      (?st2, [?tail, Done (fst (serve ex_web ex_env [''zones'', ''a'', ''records''] (ex_post ex_add_form) ?st1))])"
    by (simp add: atomic_def map_prod_def split: prod.split) 
  obtain m ps where between: "fold conc_step (ex_overtaken m) (?st1, [?tail]) = (?st3, ps)"
  proof -
    let ?ps = "[?tail, Done (fst (serve ex_web ex_env [''zones'', ''a'', ''records''] (ex_post ex_add_form) ?st1))]"
    obtain m where "fold conc_step (Arrive ?dep # replicate m (Advance (length ?ps))) (?st2, ?ps) =
        (?st3, ?ps @ [Done (fst (serve ex_web ex_env [''zones'', ''a'', ''deploy''] (ex_post []) ?st2))])"
      using undisturbed_request by blast
    moreover have "fold conc_step (ex_overtaken m) (?st1, [?tail]) =
        fold conc_step (Arrive ?dep # replicate m (Advance (length ?ps))) (fold conc_step [Arrive ?add, Advance 1] (?st1, [?tail]))"
      by (simp add: ex_overtaken_def eval_nat_numeral)
    ultimately show thesis using that unfolding added by metis
  qed
  have s2: "ss_store ?st2 = ex_s2"
    by (rule ex_served [where rt = R_add_record and s = ex_s1 and h = "handleAddRecord ex_web ex_env"])
      (simp_all add: mux_def post_routes_def route_handler_def Let_def ex_add_on store)
  have s3: "ss_store ?st3 = ex_s3"
  proof (rule ex_served [where rt = R_deploy and s = ex_s2 and h = "handleDeploy ex_web ex_env"])
    show "ss_store (snd (handleDeploy ex_web ex_env ((ex_post [])\<lparr>hr_zone := ''a''\<rparr>) st')) = ex_s3"
      if "ss_store st' = ex_s2" for st'
      by (rule ex_deploy_on [OF that ex_ready2]) (use ex_published(1) in \<open>simp add: ex_s3_def prod_eq_iff\<close>)
  qed (simp_all add: mux_def post_routes_def route_handler_def Let_def s2)
  have pub: "on_store (Publish ''a'' (Render (ws_lib ex_web) ?b') 8 (he_created ex_env)) (observe res ?st3) =
      (Inr (), (observe res ?st3)\<lparr>ss_store := ex_s4\<rparr>)"
    using ex_published(4) s3
    by (simp add: on_store_def observe_def ex_publish_def ex_text_def ex_web_simps ex_s4_def prod_eq_iff split: prod.split)
  have hs: "Advance 0 \<notin> set (ex_overtaken m)" by (simp add: ex_overtaken_def)
  have run: "fold conc_step (Arrive ?dep # replicate 4 (Advance 0) @ ex_overtaken m) (ex_start, []) = (?st3, ps)"
    using reads between by simp
  obtain n d sn where d: "d = ss_db (fst (fold conc_step (Arrive ?dep # replicate 4 (Advance 0) @ ex_overtaken m
        @ replicate n (Advance 0)) (ex_start, [])))" "sn_serial sn = 8" "sn_content sn = ex_text ex_s1"
      "snapshots_desc ''a'' d = sql_limit (st_keep (ss_store ?st3)) (sn # snapshots_desc ''a'' (ss_db ?st3))"
    using overtaken_deploy_takes_serial_back [OF auth(1-3) _ get build _ _ moved hs run pub ex_start_inv] auth(4) bump dep
    unfolding ex_web_simps ex_text_def by auto
  obtain old where old: "snapshots_desc ''a'' (st_db ex_s3) = [old]" "sn_serial old = 8" "sn_content old = ex_text ex_s2"
    using ex_published(5) by (auto simp: map_eq_Cons_conv)
  have "snapshots_desc ''a'' d = sql_limit 2 [sn, old]"
    using d(4) unfolding ss_db_def s3 ex_published(3) old(1) .
  then have "map (\<lambda>sn. (sn_serial sn, sn_content sn)) (snapshots_desc ''a'' d) = [(8, ex_text ex_s1), (8, ex_text ex_s2)]"
    using d(2,3) old(2,3) by (simp add: sql_limit_def)
  with d(1) show ?thesis by (intro exI conjI)
qed

theorem interleaved_requests_keep_integrity_witness:
  "server_inv (fst (fold conc_step (ex_overtaken 3) (new_server_state ex_s1, [])))"
  by (rule interleaved_requests_keep_integrity [OF ex_s1_inv])


text \<open>The history after one deploy.\<close>

lemma ex_published1:
  "fst (Publish ''a'' c 8 t ex_s1) = Inr () \<and> db_snapshots (st_db (snd (Publish ''a'' c 8 t ex_s1))) \<noteq> []"
  by code_simp

lemma ex_no_history: "db_snapshots (st_db ex_s1) = []"
  by code_simp


theorem history_holds_only_what_was_live_witness:
  "\<exists>n sn. sn \<in> set (db_snapshots (ss_db (fst (fold conc_step
      (Arrive (ex_q [''zones'', ''a'', ''deploy''] []) # replicate n (Advance 0)) (ex_start, [])))))
     \<and> (\<exists>ds. live_by (\<lambda>_. (ex_check, ex_remote)) (ex_q [''zones'', ''a'', ''deploy''] []) ds (snapshot_key sn))"
proof -
  let ?dep = "ex_q [''zones'', ''a'', ''deploy''] []"
  obtain n where n: "fold conc_step (Arrive ?dep # replicate n (Advance 0)) (ex_start, []) =
      (snd (serve ex_web ex_env [''zones'', ''a'', ''deploy''] (ex_post []) ex_start),
       [Done (fst (serve ex_web ex_env [''zones'', ''a'', ''deploy''] (ex_post []) ex_start))])"
    using undisturbed_request [of ex_web ex_env _ _ "[]" ex_start] by auto
  let ?s = "snd (ex_publish ex_s1 ex_s1)"
  have "ss_store (snd (serve ex_web ex_env [''zones'', ''a'', ''deploy''] (ex_post []) ex_start)) = ?s"
  proof (rule ex_served [where rt = R_deploy and s = ex_s1 and h = "handleDeploy ex_web ex_env"])
    show "ss_store (snd (handleDeploy ex_web ex_env ((ex_post [])\<lparr>hr_zone := ''a''\<rparr>) st')) = ?s"
      if "ss_store st' = ex_s1" for st'
      by (rule ex_deploy_on [OF that ex_ready1]) (use ex_published1 [of "ex_text ex_s1"] in \<open>simp add: ex_publish_def prod_eq_iff\<close>)
  qed (simp_all add: mux_def post_routes_def route_handler_def Let_def ex_start_def new_server_state_def)
  then have db: "ss_db (fst (fold conc_step (Arrive ?dep # replicate n (Advance 0)) (ex_start, []))) = st_db ?s"
    unfolding n by (simp add: ss_db_def)
  obtain sn where sn: "sn \<in> set (db_snapshots (st_db ?s))"
    using ex_published1 [of "ex_text ex_s1" "he_created ex_env"] by (cases "db_snapshots (st_db ?s)") (auto simp: ex_publish_def)
  have "\<forall>q\<in>arrivals (Arrive ?dep # replicate n (Advance 0)). deploys_with (\<lambda>_. (ex_check, ex_remote)) q"
    using ex_web_simps by (auto simp: arrivals_def deploys_with_def)
  from history_holds_only_what_was_live [OF this sn [folded db]]
  obtain before q since where split: "Arrive ?dep # replicate n (Advance 0) = before @ Arrive q # since"
    and live: "live_by (\<lambda>_. (ex_check, ex_remote)) q (met_since ex_start before q since) (snapshot_key sn)"
    using ex_no_history by (auto simp: ex_start_def new_server_state_def ss_db_def)
  have "Arrive q \<in> set (before @ Arrive q # since)" by simp
  then have "q = ?dep" unfolding split [symmetric] by simp
  with sn db live show ?thesis by metis
qed

end
