(* ===== verification/Ssh_Transport.thy ===== *)
theory Ssh_Transport
  imports Pipeline_Safety
begin

section \<open>The SSH connection and the DNS query\<close>

text \<open>
  The rest of \<open>internal/deploy/ssh.go\<close>: \<open>dialSSH\<close>, the methods of \<open>sshConn\<close>, \<open>dnsVerifySerial\<close>, over what
  x/crypto/ssh, pkg/sftp, miekg/dns and the network answer (the record \<open>transport\<close>). \<open>ssh_remote\<close> is the
  \<open>remote\<close> the pipeline then works with.
\<close>

subsection \<open>Dialling\<close>

text \<open>\<open>'k\<close> is the host-key callback \<open>knownhosts.New\<close> returns, \<open>'p\<close> a parsed private key. \<open>tp_handshake\<close> is
  \<open>ssh.NewClientConn\<close> with the address, the user, the key and the callback of the client configuration.\<close>

record ('k, 'p) transport =
  tp_known_hosts :: "string \<Rightarrow> string + 'k"
  tp_read_file :: "string \<Rightarrow> string + string"
  tp_parse_key :: "string \<Rightarrow> string + 'p"
  tp_tcp :: "string \<Rightarrow> string option"
  tp_handshake :: "string \<Rightarrow> string \<Rightarrow> 'p \<Rightarrow> 'k \<Rightarrow> string option"
  tp_sftp :: "string option"

text \<open>What is opened and closed on the way.\<close>

datatype handle = Tcp_conn | Ssh_client | Sftp_client

datatype handle_event = Opened handle | Shut handle

definition JoinHostPort :: "string \<Rightarrow> string \<Rightarrow> string" where
  "JoinHostPort host port =
     (if CHR '':'' \<in> set host then ''['' @ host @ '']:'' @ port else host @ '':'' @ port)"

definition ssh_addr :: "server \<Rightarrow> string" where
  "ssh_addr srv = JoinHostPort (s_host srv) (dec_int (if s_port srv = 0 then 22 else s_port srv))"

definition dialSSH :: "('k, 'p) transport \<Rightarrow> server \<Rightarrow> (string + unit) \<times> handle_event list" where
  "dialSSH tp srv =
     (if s_known_hosts srv = []
      then (Inl (''server '' @ s_host srv @ '': known_hosts is required for host-key pinning''), [])
      else case tp_known_hosts tp (s_known_hosts srv) of
        Inl e \<Rightarrow> (Inl (''load known_hosts: '' @ e), [])
      | Inr cb \<Rightarrow>
       (case tp_read_file tp (s_ssh_key srv) of
          Inl e \<Rightarrow> (Inl (''read ssh key: '' @ e), [])
        | Inr bytes \<Rightarrow>
         (case tp_parse_key tp bytes of
            Inl e \<Rightarrow> (Inl (''parse ssh key (encrypted keys unsupported): '' @ e), [])
          | Inr key \<Rightarrow>
            let addr = ssh_addr srv in
            (case tp_tcp tp addr of
               Some e \<Rightarrow> (Inl (''dial '' @ addr @ '': '' @ e), [])
             | None \<Rightarrow>
              (case tp_handshake tp addr (s_user srv) key cb of
                 Some e \<Rightarrow> (Inl (''ssh handshake '' @ addr @ '': '' @ e), [Opened Tcp_conn, Shut Tcp_conn])
               | None \<Rightarrow>
                (case tp_sftp tp of
                   Some e \<Rightarrow> (Inl (''start sftp: '' @ e),
                             [Opened Tcp_conn, Opened Ssh_client, Shut Ssh_client])
                 | None \<Rightarrow> (Inr (), [Opened Tcp_conn, Opened Ssh_client, Opened Sftp_client])))))))"


text \<open>\<open>Close\<close> of a connection with or without its two clients; \<open>close_err\<close> is what closing the SSH client answers.\<close>

definition Close :: "bool \<Rightarrow> bool \<Rightarrow> string option \<Rightarrow> string option \<times> handle_event list" where
  "Close has_sftp has_client close_err =
     (if has_client then close_err else None,
      (if has_sftp then [Shut Sftp_client] else []) @ (if has_client then [Shut Ssh_client] else []))"


subsection \<open>Uploading and running\<close>

text \<open>The calls on an open SFTP client, over its state \<open>'s\<close>; each returns its error.\<close>

record 's sftp =
  sf_open :: "string \<Rightarrow> 's \<Rightarrow> string option \<times> 's"
  sf_write :: "string \<Rightarrow> string \<Rightarrow> 's \<Rightarrow> string option \<times> 's"
  sf_close :: "string \<Rightarrow> 's \<Rightarrow> string option \<times> 's"
  sf_chmod :: "string \<Rightarrow> nat \<Rightarrow> 's \<Rightarrow> string option \<times> 's"

definition Upload :: "'s sftp \<Rightarrow> string \<Rightarrow> string \<Rightarrow> nat \<Rightarrow> 's \<Rightarrow> string option \<times> 's" where
  "Upload c path content perm s =
     (case sf_open c path s of
        (Some e, s1) \<Rightarrow> (Some e, s1)
      | (None, s1) \<Rightarrow>
       (case sf_write c path content s1 of
          (Some e, s2) \<Rightarrow> (Some e, snd (sf_close c path s2))
        | (None, s2) \<Rightarrow>
         (case sf_close c path s2 of
            (Some e, s3) \<Rightarrow> (Some e, s3)
          | (None, s3) \<Rightarrow> sf_chmod c path perm s3)))"

text \<open>One call of \<open>Run\<close>: the errors of \<open>NewSession\<close> and \<open>Start\<close>, what the command prints and how it ends, and,
  when the context ends first, what it had printed and the error of the context.\<close>

record run_outcome =
  ro_session :: "string option"
  ro_start :: "string option"
  ro_wait :: "string \<times> string option"
  ro_cancelled :: "(string \<times> string) option"

definition Run :: "run_outcome \<Rightarrow> string \<times> string option" where
  "Run o' =
     (case ro_session o' of Some e \<Rightarrow> ([], Some e)
      | None \<Rightarrow>
       (case ro_start o' of Some e \<Rightarrow> ([], Some e)
        | None \<Rightarrow>
         (case ro_cancelled o' of
            Some (out, e) \<Rightarrow> (out, Some e)
          | None \<Rightarrow> ro_wait o')))"


subsection \<open>Asking for the serial\<close>

text \<open>\<open>exchange\<close> is \<open>ExchangeContext\<close> of a SOA question for the name to the address: an error, or the answer
  section of the reply.\<close>

fun first_soa :: "'r rr list \<Rightarrow> u32 option" where
  "first_soa [] = None"
| "first_soa (SOA_rr h s # rrs) = Some (soa_serial s)"
| "first_soa (Other_rr h d # rrs) = first_soa rrs"

definition dnsVerifySerial ::
    "'r dns_lib \<Rightarrow> (string \<Rightarrow> string \<Rightarrow> string + 'r rr list) \<Rightarrow> string \<Rightarrow> string \<Rightarrow> string + u32" where
  "dnsVerifySerial L exchange host zoneName =
     (case exchange (dns_fqdn L zoneName) (JoinHostPort host ''53'') of
        Inl e \<Rightarrow> Inl e
      | Inr answer \<Rightarrow>
          (case first_soa answer of
             Some n \<Rightarrow> Inr n
           | None \<Rightarrow> Inl ''no SOA record in response''))"


subsection \<open>The remote side of the pipeline\<close>

text \<open>What target \<open>i\<close> meets in one deploy: its transport, its SFTP client in state \<open>ep_files\<close>, the outcome of each
  command it runs, the name server it queries.\<close>

record ('k, 'p, 's, 'r) endpoint =
  ep_transport :: "('k, 'p) transport"
  ep_sftp :: "'s sftp"
  ep_files :: 's
  ep_run :: "call \<Rightarrow> string \<Rightarrow> run_outcome"
  ep_exchange :: "string \<Rightarrow> string \<Rightarrow> string + 'r rr list"

definition ssh_remote ::
    "'r dns_lib \<Rightarrow> (nat \<Rightarrow> ('k, 'p, 's, 'r) endpoint) \<Rightarrow> (nat \<Rightarrow> nat \<Rightarrow> 8 word) \<Rightarrow> remote" where
  "ssh_remote L ep random =
     \<lparr>rm_dial = (\<lambda>i srv. case fst (dialSSH (ep_transport (ep i)) srv) of Inl e \<Rightarrow> Some e | Inr _ \<Rightarrow> None),
      rm_upload = (\<lambda>i path content. fst (Upload (ep_sftp (ep i)) path content 420 (ep_files (ep i)))),
      rm_run = (\<lambda>i c cmd. Run (ep_run (ep i) c cmd)),
      rm_verify = (\<lambda>i host zone. dnsVerifySerial L (ep_exchange (ep i)) host zone),
      rm_random = random\<rparr>"


subsection \<open>Host keys are pinned, nothing leaks\<close>

lemma dialSSH_ok:
  assumes "dialSSH tp srv = (Inr u, evs)"
  shows "\<exists>cb bytes key. s_known_hosts srv \<noteq> [] \<and> tp_known_hosts tp (s_known_hosts srv) = Inr cb
    \<and> tp_read_file tp (s_ssh_key srv) = Inr bytes \<and> tp_parse_key tp bytes = Inr key
    \<and> tp_handshake tp (ssh_addr srv) (s_user srv) key cb = None"
  using assms by (auto simp: dialSSH_def Let_def split: if_splits sum.splits option.splits)

text \<open>Shutting the SSH client closes the TCP connection below it.\<close>

fun shuts :: "handle \<Rightarrow> handle \<Rightarrow> bool" where
  "shuts Ssh_client h = (h = Ssh_client \<or> h = Tcp_conn)"
| "shuts k h = (h = k)"

definition held :: "handle_event list \<Rightarrow> handle set" where
  "held evs = {h. Opened h \<in> set evs \<and> (\<forall>k. Shut k \<in> set evs \<longrightarrow> \<not> shuts k h)}"

lemma failed_dial_holds_nothing: "dialSSH tp srv = (Inl e, evs) \<Longrightarrow> held evs = {}"
  by (auto simp: dialSSH_def held_def Let_def split: if_splits sum.splits option.splits)

lemma Close_releases_all: "dialSSH tp srv = (Inr u, evs) \<Longrightarrow> held (evs @ snd (Close True True err)) = {}"
  by (auto simp: dialSSH_def held_def Close_def Let_def split: if_splits sum.splits option.splits)

lemma dialed_phase1:
  assumes "phase1_target L cfg rm req i name sl0 = (sl, evs)" and "evs \<noteq> []"
  shows "\<exists>srv. map_of (c_servers cfg) name = Some srv \<and> rm_dial rm i srv = None"
  using assms by (auto simp: phase1_target_def Let_def split: option.splits prod.splits)

lemma uploaded_in_log1:
  assumes "Deploy L cfg ce rm req = (res, err, log)" and "Uploaded i tmp content \<in> set log"
  shows "i < length (rq_targets req) \<and> Uploaded i tmp content \<in> set (events_of i (log1 L cfg rm req))"
proof -
  have only1: "Uploaded i tmp content \<notin> set (cleanup rm sls)" "Uploaded i tmp content \<notin> set (closeAll sls)" for sls
    by (auto simp: cleanup_def cleanup_target_def closeAll_def split: if_splits)
  have not23: "Uploaded i tmp content \<notin> set (log23 L cfg rm req)"
    by (auto simp: log23_def run_phase_def phase2_target_def phase3_target_def Let_def
        split: prod.splits option.splits if_splits)
  from assms have "Uploaded i tmp content \<in> set (log1 L cfg rm req)"
    by (cases rule: Deploy_cases) (use assms(2) only1 not23 in auto)
  then have "Uploaded i tmp content \<in> set (events_of i (log1 L cfg rm req))"
    by (simp add: events_of_def)
  with log1_outside [of i req L cfg rm] show ?thesis by (metis empty_iff list.set(1))
qed

text \<open>
  C19: Host-key pinning: Deploy uploads to a target only after the handshake with the configured
  address, user and key succeeded under the callback read from the known_hosts file of that
  server, which is configured.
\<close>
theorem uploads_go_to_pinned_hosts:
  assumes "Deploy L cfg ce (ssh_remote L ep random) req = (res, err, log)"
    and "Uploaded i tmp content \<in> set log"
  shows "\<exists>srv cb key bytes. map_of (c_servers cfg) (rq_targets req ! i) = Some srv \<and> s_known_hosts srv \<noteq> []
    \<and> tp_known_hosts (ep_transport (ep i)) (s_known_hosts srv) = Inr cb
    \<and> tp_read_file (ep_transport (ep i)) (s_ssh_key srv) = Inr bytes
    \<and> tp_parse_key (ep_transport (ep i)) bytes = Inr key
    \<and> tp_handshake (ep_transport (ep i)) (ssh_addr srv) (s_user srv) key cb = None"
proof -
  let ?rm = "ssh_remote L ep random"
  from uploaded_in_log1 [OF assms] have i: "i < length (rq_targets req)"
    and up: "Uploaded i tmp content \<in> set (events_of i (log1 L cfg ?rm req))" by auto
  from slots1_nth [OF i] up obtain srv where srv: "map_of (c_servers cfg) (rq_targets req ! i) = Some srv"
      "rm_dial ?rm i srv = None"
    using dialed_phase1 by (metis empty_iff list.set(1))
  then obtain u evs where "dialSSH (ep_transport (ep i)) srv = (Inr u, evs)"
    by (cases "dialSSH (ep_transport (ep i)) srv") (auto simp: ssh_remote_def split: sum.splits)
  from dialSSH_ok [OF this] srv(1) show ?thesis by blast
qed


subsection \<open>What a staged file and a verified server are\<close>

text \<open>What the protocol promises of the four calls, for \<open>view\<close> the files of the server with their permissions:
  a call that succeeds does its part to the file, and none touches another file.\<close>

definition sftp_laws :: "'s sftp \<Rightarrow> ('s \<Rightarrow> string \<Rightarrow> (string \<times> nat) option) \<Rightarrow> bool" where
  "sftp_laws c view \<longleftrightarrow>
     (\<forall>p s s'. sf_open c p s = (None, s') \<longrightarrow> (\<exists>m. view s' p = Some ([], m)))
   \<and> (\<forall>p d s s' old m. sf_write c p d s = (None, s') \<longrightarrow> view s p = Some (old, m) \<longrightarrow> view s' p = Some (old @ d, m))
   \<and> (\<forall>p s s'. sf_close c p s = (None, s') \<longrightarrow> view s' p = view s p)
   \<and> (\<forall>p n s s' d m. sf_chmod c p n s = (None, s') \<longrightarrow> view s p = Some (d, m) \<longrightarrow> view s' p = Some (d, n))
   \<and> (\<forall>p q s r s'. q \<noteq> p \<longrightarrow> sf_open c p s = (r, s') \<longrightarrow> view s' q = view s q)
   \<and> (\<forall>p q d s r s'. q \<noteq> p \<longrightarrow> sf_write c p d s = (r, s') \<longrightarrow> view s' q = view s q)
   \<and> (\<forall>p q s r s'. q \<noteq> p \<longrightarrow> sf_close c p s = (r, s') \<longrightarrow> view s' q = view s q)
   \<and> (\<forall>p q n s r s'. q \<noteq> p \<longrightarrow> sf_chmod c p n s = (r, s') \<longrightarrow> view s' q = view s q)"

lemma sftp_lawsD:
  assumes "sftp_laws c view"
  shows "sf_open c p s = (None, s') \<Longrightarrow> \<exists>m. view s' p = Some ([], m)"
    and "sf_write c p d s = (None, s') \<Longrightarrow> view s p = Some (old, m) \<Longrightarrow> view s' p = Some (old @ d, m)"
    and "sf_close c p s = (None, s') \<Longrightarrow> view s' p = view s p"
    and "sf_chmod c p n s = (None, s') \<Longrightarrow> view s p = Some (d, m) \<Longrightarrow> view s' p = Some (d, n)"
    and "q \<noteq> p \<Longrightarrow> sf_open c p s = (r, s') \<Longrightarrow> view s' q = view s q"
    and "q \<noteq> p \<Longrightarrow> sf_write c p d s = (r, s') \<Longrightarrow> view s' q = view s q"
    and "q \<noteq> p \<Longrightarrow> sf_close c p s = (r, s') \<Longrightarrow> view s' q = view s q"
    and "q \<noteq> p \<Longrightarrow> sf_chmod c p n s = (r, s') \<Longrightarrow> view s' q = view s q"
  using assms unfolding sftp_laws_def by simp_all

lemma Upload_ok:
  assumes "Upload c path content perm s = (None, s')" and laws: "sftp_laws c view"
  shows "view s' path = Some (content, perm)"
proof -
  from assms(1) obtain s1 s2 s3 where o1: "sf_open c path s = (None, s1)" and w: "sf_write c path content s1 = (None, s2)"
    and cl: "sf_close c path s2 = (None, s3)" and ch: "sf_chmod c path perm s3 = (None, s')"
    by (auto simp: Upload_def split: prod.splits option.splits)
  from sftp_lawsD(1) [OF laws o1] obtain m where "view s1 path = Some ([], m)" ..
  from sftp_lawsD(2) [OF laws w this] have "view s2 path = Some (content, m)" by simp
  with sftp_lawsD(3) [OF laws cl] have "view s3 path = Some (content, m)" by simp
  then show ?thesis by (rule sftp_lawsD(4) [OF laws ch])
qed

lemma Upload_frame:
  assumes "Upload c path content perm s = (r, s')" and "sftp_laws c view" and "q \<noteq> path"
  shows "view s' q = view s q"
  using assms(1)
  by (auto simp: Upload_def split: prod.splits option.splits
      dest!: sftp_lawsD(5-8) [OF assms(2,3)])

lemma staged_phase1:
  assumes "phase1_target L cfg rm req i name sl0 = (sl, evs)" and "\<not> sr_staged (sl_result sl0)"
    and "sr_staged (sl_result sl)"
  shows "\<exists>tmp. rm_upload rm i tmp (rq_content req) = None \<and> Uploaded i tmp (rq_content req) \<in> set evs"
  using assms by (auto simp: phase1_target_def Let_def split: option.splits prod.splits)

lemma checked_phase1:
  assumes "phase1_target L cfg rm req i name zero_slot = (sl, evs)" and "sr_checked (sl_result sl)"
  shows "\<exists>srv. map_of (c_servers cfg) name = Some srv"
  using assms by (auto simp: phase1_target_def Let_def split: option.splits)

lemma staged_later:
  "sr_staged (sl_result (fst (phase2_target cfg rm req i name sl))) = sr_staged (sl_result sl)"
  "sr_staged (sl_result (fst (phase3_target cfg rm req i name sl))) = sr_staged (sl_result sl)"
  by (auto simp: phase2_target_def phase3_target_def Let_def split: option.splits prod.splits sum.splits)

lemma verified_phase2:
  "sr_verified (sl_result (fst (phase2_target cfg rm req i name sl))) = sr_verified (sl_result sl)"
  by (auto simp: phase2_target_def Let_def split: option.splits prod.splits)

lemma verified_phase1:
  "sr_verified (sl_result (fst (phase1_target L cfg rm req i name sl))) = sr_verified (sl_result sl)"
  by (auto simp: phase1_target_def Let_def split: option.splits prod.splits)

lemma verified_phase3:
  "sr_verified (sl_result (fst (phase3_target cfg rm req i name sl))) \<Longrightarrow> \<not> sr_verified (sl_result sl) \<Longrightarrow>
     rm_verify rm i (s_host (server_of cfg name)) (rq_zone req) = Inr (rq_new_serial req)"
  by (auto simp: phase3_target_def split: if_splits sum.splits)

lemma staged_slots:
  assumes "i < length (rq_targets req)"
  shows "sr_staged (sl_result (slots3 L cfg rm req ! i)) = sr_staged (sl_result (slots1 L cfg rm req ! i))"
  by (simp add: slots2_nth slots3_nth assms staged_later)

lemma verified_slots:
  assumes "i < length (rq_targets req)"
  shows "\<not> sr_verified (sl_result (slots1 L cfg rm req ! i))"
    and "\<not> sr_verified (sl_result (slots2 L cfg rm req ! i))"
proof -
  show s1: "\<not> sr_verified (sl_result (slots1 L cfg rm req ! i))"
    using verified_phase1 [of L cfg rm req i "rq_targets req ! i" zero_slot] slots1_nth [OF assms, of L cfg rm]
    by simp
  then show "\<not> sr_verified (sl_result (slots2 L cfg rm req ! i))"
    by (simp add: slots2_nth assms verified_phase2)
qed

text \<open>
  C22: When the SFTP calls keep the promises of the protocol, a target reported as staged has the
  whole content of the request, with mode 0644, in the temporary file, and its upload touched no
  other file.
\<close>
theorem staged_file_is_the_content:
  assumes "Deploy L cfg ce (ssh_remote L ep random) req = (res, err, log)" and "i < length (dr_servers res)"
    and "sr_staged (dr_servers res ! i)" and "sftp_laws (ep_sftp (ep i)) view"
  shows "\<exists>tmp files. Uploaded i tmp (rq_content req) \<in> set log
    \<and> Upload (ep_sftp (ep i)) tmp (rq_content req) 420 (ep_files (ep i)) = (None, files)
    \<and> view files tmp = Some (rq_content req, 420) \<and> (\<forall>q. q \<noteq> tmp \<longrightarrow> view files q = view (ep_files (ep i)) q)"
proof -
  let ?rm = "ssh_remote L ep random"
  have "i < length (rq_targets req) \<and> sr_staged (sl_result (slots1 L cfg ?rm req ! i))
      \<and> set (log1 L cfg ?rm req) \<subseteq> set log"
    using assms(1)
    by (cases rule: Deploy_cases) (use assms(2,3) staged_slots [of i req L cfg ?rm] in \<open>auto simp: base_result_def\<close>)
  then have i: "i < length (rq_targets req)" and st: "sr_staged (sl_result (slots1 L cfg ?rm req ! i))"
    and log: "set (log1 L cfg ?rm req) \<subseteq> set log" by auto
  from staged_phase1 [OF slots1_nth [OF i, of L cfg ?rm] _ st] obtain tmp where
    up: "rm_upload ?rm i tmp (rq_content req) = None"
    and ev: "Uploaded i tmp (rq_content req) \<in> set (events_of i (log1 L cfg ?rm req))" by auto
  obtain files where f: "Upload (ep_sftp (ep i)) tmp (rq_content req) 420 (ep_files (ep i)) = (None, files)"
    using up by (cases "Upload (ep_sftp (ep i)) tmp (rq_content req) 420 (ep_files (ep i))") (simp add: ssh_remote_def)
  have "Uploaded i tmp (rq_content req) \<in> set log" using ev log by (auto simp: events_of_def)
  with f Upload_ok [OF f assms(4)] Upload_frame [OF f assms(4)] show ?thesis by blast
qed

text \<open>
  C23: A target reported as verified answered the SOA query for the zone at its port 53, and the
  first SOA record of the answer has the new serial.
\<close>
theorem verified_servers_answer_new_serial:
  assumes "Deploy L cfg ce (ssh_remote L ep random) req = (res, err, log)" and "i < length (dr_servers res)"
    and "sr_verified (dr_servers res ! i)"
  shows "\<exists>srv answer. map_of (c_servers cfg) (rq_targets req ! i) = Some srv
    \<and> ep_exchange (ep i) (dns_fqdn L (rq_zone req)) (JoinHostPort (s_host srv) ''53'') = Inr answer
    \<and> first_soa answer = Some (rq_new_serial req)"
  using assms(1)
proof (cases rule: Deploy_cases)
  case (refused e)
  with assms(2) show ?thesis by (simp add: base_result_def)
next
  case abandoned
  with assms(2) have "i < length (rq_targets req)" by simp
  with abandoned(4) assms(3) verified_slots(1) [of i req L cfg "ssh_remote L ep random"] show ?thesis by simp
next
  case committed
  let ?rm = "ssh_remote L ep random"
  from assms(2) committed(4) have i: "i < length (rq_targets req)" by simp
  with assms(3) committed(4) have "sr_verified (sl_result (slots3 L cfg ?rm req ! i))" by simp
  then have v: "rm_verify ?rm i (s_host (server_of cfg (rq_targets req ! i))) (rq_zone req) = Inr (rq_new_serial req)"
    using verified_slots(2) [OF i] verified_phase3 by (metis slots3_nth [OF i])
  have acc: "sr_checked (sl_result (slots1 L cfg ?rm req ! i))" by (rule accepted_target(1) [OF committed(3) i])
  from checked_phase1 [OF slots1_nth [OF i] acc]
  obtain srv where srv: "map_of (c_servers cfg) (rq_targets req ! i) = Some srv" by blast
  then have "server_of cfg (rq_targets req ! i) = srv" by (simp add: server_of_def)
  with v srv show ?thesis
    by (auto simp: ssh_remote_def dnsVerifySerial_def split: sum.splits option.splits)
qed

end
