(* ===== verification/Command_Line.thy ===== *)
theory Command_Line
  imports Web_Concurrency
begin

section \<open>The command line\<close>

text \<open>
  \<open>cmd/mrdns\<close>: the flags, \<open>mrdns import\<close> (\<open>runImport\<close> of \<open>import.go\<close>), and the start of the server (\<open>run\<close> of
  \<open>main.go\<close>) up to the moment it listens. Files, the environment and the database on disk are given.
\<close>


subsection \<open>Flags\<close>

text \<open>\<open>FlagSet.Parse\<close> of the standard library for a set of string flags: the values in the order they were
  set, the last one counts, and the arguments left over.\<close>

datatype flag_error = Bad_syntax string | Help | Not_defined string | Needs_argument string

definition flag_name :: "string \<Rightarrow> string" where
  "flag_name s = (if take 2 s = ''--'' then drop 2 s else drop 1 s)"

fun parse_flags :: "string list \<Rightarrow> string list \<Rightarrow> flag_error + (string \<times> string) list \<times> string list" where
  "parse_flags names [] = Inr ([], [])"
| "parse_flags names (s # args) =
     (if length s < 2 \<or> hd s \<noteq> CHR ''-'' then Inr ([], s # args)
      else if s = ''--'' then Inr ([], args)
      else
        let name = flag_name s in
        if name = [] \<or> hd name = CHR ''-'' \<or> hd name = CHR ''='' then Inl (Bad_syntax s)
        else
          case str_cut (CHR ''='') name of
            Some (n, v) \<Rightarrow>
              if n \<notin> set names then Inl (if n = ''help'' \<or> n = ''h'' then Help else Not_defined n)
              else map_sum id (\<lambda>(fs, rest). ((n, v) # fs, rest)) (parse_flags names args)
          | None \<Rightarrow>
              if name \<notin> set names then Inl (if name = ''help'' \<or> name = ''h'' then Help else Not_defined name)
              else (case args of
                  [] \<Rightarrow> Inl (Needs_argument name)
                | v # args' \<Rightarrow> map_sum id (\<lambda>(fs, rest). ((name, v) # fs, rest)) (parse_flags names args')))"

definition flag_value :: "(string \<times> string) list \<Rightarrow> string \<Rightarrow> string \<Rightarrow> string" where
  "flag_value fs name d = (case map_of (rev fs) name of None \<Rightarrow> d | Some v \<Rightarrow> v)"

definition DefaultConfigPath :: string where "DefaultConfigPath = ''/opt/mrdns/etc/mrdns.yaml''"


subsection \<open>\<open>mrdns import\<close>\<close>

datatype import_error =
    Flags flag_error
  | Expected_zone_and_file
  | Config_error config_error
  | Unknown_target string string
  | Read_file string
  | Mkdir string
  | Open_store store_error
  | Import_zone store_error

record host_env =
  ho_read_file :: "string \<Rightarrow> string + string"
  ho_yaml :: "string \<Rightarrow> string + config"
  ho_mkdir :: "string \<Rightarrow> string option"
  ho_faults :: "string option list"
  ho_now :: string

text \<open>The targets of the flag: trimmed, empty ones left out, each one configured.\<close>

fun import_targets :: "config \<Rightarrow> string \<Rightarrow> string list \<Rightarrow> import_error + string list" where
  "import_targets cfg path [] = Inr []"
| "import_targets cfg path (t0 # ts) =
     (let t = trim_space t0 in
      if t = [] then import_targets cfg path ts
      else if map_of (c_servers cfg) t = None then Inl (Unknown_target t path)
      else map_sum id (\<lambda>us. t # us) (import_targets cfg path ts))"

definition imported_line :: "string \<Rightarrow> nat \<Rightarrow> string list \<Rightarrow> string" where
  "imported_line zone n targets =
     ''imported '' @ zone @ '': '' @ dec n @ '' records'' @
     (if targets \<noteq> [] then '' (targets: '' @ join_str '', '' targets @ '')'' else []) @ [newline]"

text \<open>The tables on disk before and after; what is printed, or the error.\<close>

definition runImport :: "'r dns_lib \<Rightarrow> host_env \<Rightarrow> string list \<Rightarrow> db \<Rightarrow> (import_error + string) \<times> db" where
  "runImport L h args d =
     (case parse_flags [''config'', ''targets''] args of
        Inl e \<Rightarrow> (Inl (Flags e), d)
      | Inr (fs, rest) \<Rightarrow>
       (case rest of
          [zoneName, file] \<Rightarrow>
            let configPath = flag_value fs ''config'' DefaultConfigPath in
            (case LoadNoSecrets (ho_read_file h) (ho_yaml h) configPath of
               Inl e \<Rightarrow> (Inl (Config_error e), d)
             | Inr cfg \<Rightarrow>
              (case import_targets cfg configPath (split_on (CHR '','') (flag_value fs ''targets'' [])) of
                 Inl e \<Rightarrow> (Inl e, d)
               | Inr targets \<Rightarrow>
                (case ho_read_file h file of
                   Inl e \<Rightarrow> (Inl (Read_file e), d)
                 | Inr content \<Rightarrow>
                  (case ho_mkdir h (c_data_dir cfg) of
                     Some e \<Rightarrow> (Inl (Mkdir e), d)
                   | None \<Rightarrow>
                    (case OpenStore (c_backup_keep cfg) d (ho_faults h) of
                       Inl e \<Rightarrow> (Inl (Open_store e), d)
                     | Inr st \<Rightarrow>
                      (case ImportZone L zoneName content targets (ho_now h) st of
                         (Inl e, st') \<Rightarrow> (Inl (Import_zone e), st_db st')
                       | (Inr n, st') \<Rightarrow> (Inr (imported_line zoneName n targets), st_db st')))))))
        | _ \<Rightarrow> (Inl Expected_zone_and_file, d)))"


subsection \<open>Starting the server\<close>

datatype start_error =
    Start_flags flag_error
  | Start_config config_error
  | Start_audit string
  | Start_mkdir string
  | Start_store store_error
  | Start_templates string

record ('r) start_env =
  sv_host_env :: host_env
  sv_getenv :: "string \<Rightarrow> string"
  sv_rand_err :: "string option"
  sv_rand_byte :: "nat \<Rightarrow> char"
  sv_open_append :: "string \<Rightarrow> string option"
  sv_templates :: "string option"
  sv_hmac :: "string \<Rightarrow> string \<Rightarrow> string"
  sv_lib :: "'r dns_lib"
  sv_check :: check_env
  sv_remote :: remote

text \<open>\<open>run\<close> up to \<open>ListenAndServe\<close>: the server it starts with, and its state.\<close>

definition start_server :: "'r start_env \<Rightarrow> string list \<Rightarrow> db \<Rightarrow> start_error + 'r web_server \<times> server_state" where
  "start_server v args d =
     (let h = sv_host_env v in
      case parse_flags [''config''] args of
        Inl e \<Rightarrow> Inl (Start_flags e)
      | Inr (fs, rest) \<Rightarrow>
       (case Load (ho_read_file h) (ho_yaml h) (sv_getenv v) (sv_rand_err v) (sv_rand_byte v)
               (flag_value fs ''config'' DefaultConfigPath) of
          Inl e \<Rightarrow> Inl (Start_config e)
        | Inr cfg \<Rightarrow>
         (case newAudit (ho_mkdir h) (sv_open_append v) (c_audit_log cfg) of
            Inl e \<Rightarrow> Inl (Start_audit e)
          | Inr aud \<Rightarrow>
           (case ho_mkdir h (c_data_dir cfg) of
              Some e \<Rightarrow> Inl (Start_mkdir e)
            | None \<Rightarrow>
             (case OpenStore (c_backup_keep cfg) d (ho_faults h) of
                Inl e \<Rightarrow> Inl (Start_store e)
              | Inr st \<Rightarrow>
               (case sv_templates v of
                  Some e \<Rightarrow> Inl (Start_templates e)
                | None \<Rightarrow>
                    Inr (\<lparr>ws_cfg = cfg, ws_lib = sv_lib v, ws_hmac = sv_hmac v (c_cookie_key cfg), ws_audit = aud,
                          ws_deploy = pipeline_deploy (sv_lib v) cfg (sv_check v) (sv_remote v)\<rparr>,
                         new_server_state st)))))))"


text \<open>What arrives at a running server.\<close>

type_synonym incoming = "(http_env \<times> string list \<times> http_request) happening"

definition received :: "'r web_server \<Rightarrow> incoming \<Rightarrow> 'r served happening" where
  "received w = map_happening (\<lambda>(e, path, r). (w, e, path, r))"


subsection \<open>The process\<close>

text \<open>How the server ends: \<open>ListenAndServe\<close> fails, or a signal arrives and \<open>Shutdown\<close> returns an error or none.\<close>

datatype ending = Listen_failed string | Signalled "string option"

record 'r process =
  pr_env :: "'r start_env"
  pr_args :: "string list"
  pr_requests :: "incoming list"
  pr_ending :: ending

definition is_import :: "string list \<Rightarrow> string list option" where
  "is_import args = (case args of a # rest \<Rightarrow> if a = ''import'' then Some rest else None | [] \<Rightarrow> None)"

text \<open>\<open>main\<close>: the exit code, and the tables the process leaves. \<open>flag.Parse\<close> of the standard library exits with 2
  on an error and with 0 after printing the help.\<close>

definition mrdns :: "'r process \<Rightarrow> db \<Rightarrow> nat \<times> db" where
  "mrdns p d =
     (case is_import (pr_args p) of
        Some rest \<Rightarrow>
          (case runImport (sv_lib (pr_env p)) (sv_host_env (pr_env p)) rest d of
             (Inl e, d') \<Rightarrow> (1, d')
           | (Inr out, d') \<Rightarrow> (0, d'))
      | None \<Rightarrow>
          (case start_server (pr_env p) (pr_args p) d of
             Inl (Start_flags Help) \<Rightarrow> (0, d)
           | Inl (Start_flags e) \<Rightarrow> (2, d)
           | Inl e \<Rightarrow> (1, d)
           | Inr (w, st) \<Rightarrow>
               (case pr_ending p of Signalled None \<Rightarrow> 0 | _ \<Rightarrow> 1,
                ss_db (fst (fold conc_step (map (received w) (pr_requests p)) (st, []))))))"


subsection \<open>What an import from the command line does\<close>

lemma OpenStore_ok:
  "OpenStore keep d faults = Inr st \<Longrightarrow> st_db st = d \<and> st_keep st = (if keep \<le> 0 then 20 else keep)"
  by (auto simp: OpenStore_def Let_def bindE_def split: prod.splits sum.splits dest!: driver_result)

lemma map_sum_Inr: "map_sum f g s = Inr y \<longleftrightarrow> (\<exists>x. s = Inr x \<and> y = g x)"
  by (cases s) auto

lemma import_targets_ok:
  "import_targets cfg path ts = Inr us \<Longrightarrow> us = filter (\<lambda>t. t \<noteq> []) (map trim_space ts)
     \<and> (\<forall>t\<in>set us. map_of (c_servers cfg) t \<noteq> None)"
  by (induction ts arbitrary: us) (auto simp: Let_def map_sum_Inr split: if_splits)

lemma runImport_cases:
  assumes "runImport L h args d = (res, d')"
  obtains (early) e where "res = Inl e" and "d' = d"
  | (store) fs zoneName fname cfg targets content st r st' where
      "parse_flags [''config'', ''targets''] args = Inr (fs, [zoneName, fname])"
      and "LoadNoSecrets (ho_read_file h) (ho_yaml h) (flag_value fs ''config'' DefaultConfigPath) = Inr cfg"
      and "import_targets cfg (flag_value fs ''config'' DefaultConfigPath)
             (split_on (CHR '','') (flag_value fs ''targets'' [])) = Inr targets"
      and "ho_read_file h fname = Inr content"
      and "OpenStore (c_backup_keep cfg) d (ho_faults h) = Inr st"
      and "ImportZone L zoneName content targets (ho_now h) st = (r, st')" and "d' = st_db st'"
      and "res = map_sum Import_zone (\<lambda>n. imported_line zoneName n targets) r"
  using assms unfolding runImport_def Let_def
  by (auto split: sum.splits list.splits option.splits prod.splits)

text \<open>
  C27: The import command either ends with an error and leaves the tables as they were, or has
  imported a zone that was not there: its settings from the SOA of the file and the targets of the
  flag, all of them configured servers, and its records exactly those of the file.
\<close>
theorem import_command_all_or_nothing:
  assumes run: "runImport L h args d = (res, d')" and inv: "db_inv d"
  shows "(is_ok res = False \<and> d' = d) \<or>
    (\<exists>fs zoneName fname cfg targets content z soa.
        parse_flags [''config'', ''targets''] args = Inr (fs, [zoneName, fname])
        \<and> LoadNoSecrets (ho_read_file h) (ho_yaml h) (flag_value fs ''config'' DefaultConfigPath) = Inr cfg
        \<and> targets = filter (\<lambda>t. t \<noteq> []) (map trim_space (split_on (CHR '','') (flag_value fs ''targets'' [])))
        \<and> (\<forall>t\<in>set targets. map_of (c_servers cfg) t \<noteq> None)
        \<and> ho_read_file h fname = Inr content \<and> Parse L content zoneName = Inr z \<and> SOA z = Inr soa
        \<and> zoneName \<notin> set (zone_names d)
        \<and> res = Inr (imported_line zoneName (length (DataRecords L z)) targets)
        \<and> zone_row_of zoneName d' = Some (zone_to_row (zone_defaults (zone_of_soa zoneName soa targets)) (ho_now h))
        \<and> mset (map (snd \<circ> scanRecord) (records_of zoneName d')) = mset (map as_stored (DataRecords L z)))"
  using run
proof (cases rule: runImport_cases)
  case (early e)
  then show ?thesis by simp
next
  case (store fs zoneName fname cfg targets content st r st')
  from OpenStore_ok [OF store(5)] inv have inv': "db_inv (st_db st)" and d: "st_db st = d" by simp_all
  from import_targets_ok [OF store(3)] have t: "targets = filter (\<lambda>t. t \<noteq> []) (map trim_space
      (split_on (CHR '','') (flag_value fs ''targets'' [])))" "\<forall>t\<in>set targets. map_of (c_servers cfg) t \<noteq> None"
    by simp_all
  from store(6) inv' show ?thesis
  proof (cases rule: ImportZone_cases)
    case (nothing e)
    with store(7,8) d show ?thesis by simp
  next
    case (imported z soa)
    then show ?thesis using store(1,2,4,7,8) t d by auto
  qed
qed


subsection \<open>What the server starts with\<close>

lemma start_server_parts:
  assumes "start_server v args d = Inr (w, st)"
  obtains path s where "Load (ho_read_file (sv_host_env v)) (ho_yaml (sv_host_env v)) (sv_getenv v) (sv_rand_err v)
      (sv_rand_byte v) path = Inr (ws_cfg w)"
    and "newAudit (ho_mkdir (sv_host_env v)) (sv_open_append v) (c_audit_log (ws_cfg w)) = Inr (ws_audit w)"
    and "ws_hmac w = sv_hmac v (c_cookie_key (ws_cfg w))"
    and "ws_deploy w = pipeline_deploy (ws_lib w) (ws_cfg w) (sv_check v) (sv_remote v)"
    and "st = new_server_state s" and "st_db s = d" and "st_keep s = c_backup_keep (ws_cfg w)"
proof -
  from assms obtain path cfg aud s where
    load: "Load (ho_read_file (sv_host_env v)) (ho_yaml (sv_host_env v)) (sv_getenv v) (sv_rand_err v)
      (sv_rand_byte v) path = Inr cfg"
    and aud: "newAudit (ho_mkdir (sv_host_env v)) (sv_open_append v) (c_audit_log cfg) = Inr aud"
    and s: "OpenStore (c_backup_keep cfg) d (ho_faults (sv_host_env v)) = Inr s"
    and w: "w = \<lparr>ws_cfg = cfg, ws_lib = sv_lib v, ws_hmac = sv_hmac v (c_cookie_key cfg), ws_audit = aud,
                ws_deploy = pipeline_deploy (sv_lib v) cfg (sv_check v) (sv_remote v)\<rparr>"
    and st: "st = new_server_state s"
    unfolding start_server_def Let_def by (auto split: sum.splits prod.splits option.splits)
  from Load_valid [OF load] have "0 < c_backup_keep cfg" by simp
  with OpenStore_ok [OF s] have "st_db s = d" "st_keep s = c_backup_keep cfg" by auto
  with that [of path s] load aud w st show thesis by simp
qed

text \<open>
  C18: A server that starts, on tables with integrity, has an access token, a cookie key of at
  least 32 bytes that it signs with, one of the three serial policies and complete server entries,
  writes an audit log exactly when one is configured, and keeps the integrity of the tables and
  the bounds of the limiter whatever requests arrive and however their steps interleave.
\<close>
theorem started_server_stays_sound:
  assumes start: "start_server v args d = Inr (w, st)" and inv: "db_inv d"
  shows "server_inv (fst (fold conc_step (map (received w) ins) (st, [])))
    \<and> ws_hmac w = sv_hmac v (c_cookie_key (ws_cfg w)) \<and> 32 \<le> length (c_cookie_key (ws_cfg w))
    \<and> c_auth_token (ws_cfg w) \<noteq> [] \<and> c_serial_policy (ws_cfg w) \<in> {''date'', ''unixtime'', ''increment''}
    \<and> (\<forall>p\<in>set (c_servers (ws_cfg w)). server_ok (snd p))
    \<and> (ws_audit w = Writer \<longleftrightarrow> c_audit_log (ws_cfg w) \<noteq> [])"
  using start
proof (cases rule: start_server_parts)
  case (1 path s)
  have "server_inv (fst (fold conc_step (map (received w) ins) (st, [])))"
    using interleaved_requests_keep_integrity [of s] 1 inv by simp
  moreover have "ws_audit w = Writer \<longleftrightarrow> c_audit_log (ws_cfg w) \<noteq> []"
    using 1(2) by (auto simp: newAudit_def split: if_splits option.splits)
  ultimately show ?thesis using Load_valid [OF 1(1)] 1 by auto
qed


subsection \<open>The process, and one after the other\<close>

lemma runImport_keeps_integrity:
  assumes "runImport L h args d = (res, d')" and "db_inv d"
  shows "db_inv d'"
  using assms(1)
proof (cases rule: runImport_cases)
  case (early e)
  with assms(2) show ?thesis by simp
next
  case (store fs zoneName fname cfg targets content st r st')
  have "db_inv (st_db st)" using OpenStore_ok [OF store(5)] assms(2) by simp
  with store(6,7) keep_ImportZone [OF zone_stmts_keep_inv parses_to_any] show ?thesis
    by (metis preservesD snd_conv)
qed

lemma mrdns_keeps_integrity: "db_inv d \<Longrightarrow> db_inv (snd (mrdns p d))"
proof -
  assume inv: "db_inv d"
  consider (imp) rest where "pr_args p = ''import'' # rest" | (run) "\<And>rest. pr_args p \<noteq> ''import'' # rest" by blast
  then show ?thesis
  proof cases
    case imp
    obtain res d' where "runImport (sv_lib (pr_env p)) (sv_host_env (pr_env p)) rest d = (res, d')" by fastforce
    with imp runImport_keeps_integrity [OF this inv] show ?thesis
      by (simp add: mrdns_def is_import_def split: sum.split)
  next
    case run
    have not_import: "is_import (pr_args p) = None" using run by (cases "pr_args p") (auto simp: is_import_def)
    show ?thesis
    proof (cases "start_server (pr_env p) (pr_args p) d")
      case (Inl e)
      with not_import inv show ?thesis by (cases e rule: start_error.exhaust) (auto simp: mrdns_def split: flag_error.split)
    next
      case (Inr x)
      obtain w st where x: "x = (w, st)" by (cases x)
      obtain s where "st = new_server_state s" and "st_db s = d" using Inr x by (auto elim: start_server_parts)
      with interleaved_requests_keep_integrity [of s "map (received w) (pr_requests p)"] inv not_import Inr x
      show ?thesis by (simp add: mrdns_def server_inv_def)
    qed
  qed
qed

interpretation life: inv_machine "\<lambda>p d. snd (mrdns p d)" db_inv
  by unfold_locales (rule mrdns_keeps_integrity)

text \<open>
  C16: However often mrdns is run on a database that was empty at first, as a server with any
  requests in any interleaving, cut off at any step, or as the import command, and whatever fails,
  the tables keep their integrity.
\<close>
theorem database_always_sound:
  "db_inv (fold (\<lambda>p d. snd (mrdns p d)) processes empty_db)"
  using db_inv_empty by (rule life.inv_run)

end
