(* ===== verification/Example_Start.thy ===== *)
theory Example_Start
  imports Example_Overlap Ssh_Transport Command_Line
begin

section \<open>The transport and the command line at concrete inputs\<close>

text \<open>
  Closed instances for the theorems on the SSH transport and on the command line: servers whose files are a map,
  a deploy to two of them, an import of one zone and the start of the server.
\<close>

subsection \<open>A deploy over SFTP\<close>

type_synonym ex_files = "string \<rightharpoonup> string \<times> nat"

definition ex_transport :: "(nat, string) transport" where
  "ex_transport = \<lparr>tp_known_hosts = (\<lambda>p. if p = ''hosts'' then Inr 1 else Inl ''no file''),
     tp_read_file = (\<lambda>p. if p = ''key'' then Inr ''pem'' else Inl ''no file''), tp_parse_key = Inr,
     tp_tcp = (\<lambda>_. None),
     tp_handshake = (\<lambda>addr user key cb. if addr = ''10.0.0.1:22'' \<and> key = ''pem'' then None else Some ''refused''),
     tp_sftp = None\<rparr>"

definition ex_sftp :: "ex_files sftp" where
  "ex_sftp = \<lparr>sf_open = (\<lambda>p s. (None, s(p \<mapsto> ([], 384)))),
     sf_write = (\<lambda>p d s. case s p of None \<Rightarrow> (Some ''no file'', s) | Some (c, m) \<Rightarrow> (None, s(p \<mapsto> (c @ d, m)))),
     sf_close = (\<lambda>_ s. (None, s)),
     sf_chmod = (\<lambda>p n s. case s p of None \<Rightarrow> (Some ''no file'', s) | Some (c, m) \<Rightarrow> (None, s(p \<mapsto> (c, n))))\<rparr>"

lemma ex_sftp_laws: "sftp_laws ex_sftp (\<lambda>s. s)"
  by (auto simp: sftp_laws_def ex_sftp_def split: option.splits)

definition ex_answer :: "string rr list" where
  "ex_answer = [SOA_rr \<lparr>h_name = ''a.'', h_rrtype = 6, h_class = 1, h_ttl = 60\<rparr>
     \<lparr>soa_ns = ''ns1.a.'', soa_mbox = ''adm.a.'', soa_serial = 8, soa_refresh = 1, soa_retry = 1, soa_expire = 1,
      soa_minttl = 1\<rparr>]"

definition ex_endpoint :: "nat \<Rightarrow> (nat, string, ex_files, string) endpoint" where
  "ex_endpoint i = \<lparr>ep_transport = ex_transport, ep_sftp = ex_sftp, ep_files = Map.empty,
     ep_run = (\<lambda>_ _. \<lparr>ro_session = None, ro_start = None, ro_wait = (''ok'', None), ro_cancelled = None\<rparr>),
     ep_exchange = (\<lambda>name addr. if name = ''a.'' \<and> addr = ''10.0.0.1:53'' then Inr ex_answer else Inl ''timeout'')\<rparr>"

definition ex_ssh_srv :: server where
  "ex_ssh_srv = ex_srv\<lparr>s_host := ''10.0.0.1'', s_known_hosts := ''hosts'', s_ssh_key := ''key''\<rparr>"

definition ex_ssh_cfg :: config where
  "ex_ssh_cfg = ex_cfg\<lparr>c_servers := [(''s1'', ex_ssh_srv), (''s2'', ex_ssh_srv)]\<rparr>"

abbreviation ex_ssh :: remote where
  "ex_ssh \<equiv> ssh_remote ex_lib ex_endpoint (\<lambda>i j. of_nat (16 * i + j))"

lemma ex_ssh_outcome:
  "(case Deploy ex_lib ex_ssh_cfg ex_check ex_ssh ex_request of (res, err, log) \<Rightarrow>
      length (dr_servers res) = 2 \<and> list_all (\<lambda>s. sr_staged s \<and> sr_verified s) (dr_servers res)
      \<and> list_ex is_upload log)"
  by code_simp

lemma ex_ssh_run:
  obtains res err log tmp content where "Deploy ex_lib ex_ssh_cfg ex_check ex_ssh ex_request = (res, err, log)"
    and "1 < length (dr_servers res)" and "sr_staged (dr_servers res ! 1)" and "sr_verified (dr_servers res ! 1)"
    and "Uploaded 0 tmp content \<in> set log"
proof -
  obtain res err log where d: "Deploy ex_lib ex_ssh_cfg ex_check ex_ssh ex_request = (res, err, log)"
    by (cases "Deploy ex_lib ex_ssh_cfg ex_check ex_ssh ex_request")
  with ex_ssh_outcome obtain e where "e \<in> set log" "is_upload e" by (auto simp: list_ex_iff)
  with is_uploadD [of e] d ex_ssh_outcome that show thesis by (auto simp: list_all_length)
qed

theorem uploads_go_to_pinned_hosts_witness:
  "\<exists>res err log cb key. Deploy ex_lib ex_ssh_cfg ex_check ex_ssh ex_request = (res, err, log)
     \<and> tp_handshake ex_transport ''10.0.0.1:22'' (s_user ex_ssh_srv) key cb = None"
proof -
  obtain res err log tmp content where d: "Deploy ex_lib ex_ssh_cfg ex_check ex_ssh ex_request = (res, err, log)"
    and up: "Uploaded 0 tmp content \<in> set log"
    by (rule ex_ssh_run)
  from uploads_go_to_pinned_hosts [OF d up] obtain srv cb key where
    srv: "map_of (c_servers ex_ssh_cfg) ''s1'' = Some srv"
    and h: "tp_handshake ex_transport (ssh_addr srv) (s_user srv) key cb = None"
    by (auto simp: ex_request_def ex_endpoint_def)
  have "srv = ex_ssh_srv" using srv by (simp add: ex_ssh_cfg_def)
  moreover have "ssh_addr ex_ssh_srv = ''10.0.0.1:22''" by code_simp
  ultimately show ?thesis using h d by auto
qed

theorem staged_file_is_the_content_witness:
  "\<exists>tmp files. Upload ex_sftp tmp ''text'' 420 Map.empty = (None, files) \<and> files tmp = Some (''text'', 420)"
proof -
  obtain res err log where d: "Deploy ex_lib ex_ssh_cfg ex_check ex_ssh ex_request = (res, err, log)"
    "1 < length (dr_servers res)" "sr_staged (dr_servers res ! 1)"
    by (rule ex_ssh_run)
  have "sftp_laws (ep_sftp (ex_endpoint 1)) (\<lambda>s. s)" by (simp add: ex_endpoint_def ex_sftp_laws)
  from staged_file_is_the_content [OF d this] show ?thesis
    unfolding ex_endpoint_def ex_request_def by (simp only: endpoint.simps request.simps) blast
qed

theorem verified_servers_answer_new_serial_witness:
  "\<exists>answer. ep_exchange (ex_endpoint 1) ''a.'' ''10.0.0.1:53'' = Inr answer \<and> first_soa answer = Some 8"
proof -
  obtain res err log where d: "Deploy ex_lib ex_ssh_cfg ex_check ex_ssh ex_request = (res, err, log)"
    "1 < length (dr_servers res)" "sr_verified (dr_servers res ! 1)"
    by (rule ex_ssh_run)
  from verified_servers_answer_new_serial [OF d] obtain srv answer where
    srv: "map_of (c_servers ex_ssh_cfg) ''s2'' = Some srv"
    and ans: "ep_exchange (ex_endpoint 1) (dns_fqdn ex_lib ''a'') (JoinHostPort (s_host srv) ''53'') = Inr answer"
      "first_soa answer = Some 8"
    by (auto simp: ex_request_def)
  have "srv = ex_ssh_srv" using srv by (simp add: ex_ssh_cfg_def)
  moreover have "JoinHostPort (s_host ex_ssh_srv) ''53'' = ''10.0.0.1:53''" by code_simp
  moreover have "dns_fqdn ex_lib ''a'' = ''a.''" by code_simp
  ultimately show ?thesis using ans by auto
qed


subsection \<open>Import and start\<close>

definition ex_host :: host_env where
  "ex_host = \<lparr>ho_read_file = (\<lambda>p. if p = ''a.zone'' then Inr ex_import else Inr []),
     ho_yaml = (\<lambda>_. Inr ex_config), ho_mkdir = (\<lambda>_. None), ho_faults = [], ho_now = ''t''\<rparr>"

definition ex_args :: "string list" where
  "ex_args = [''-targets'', '' s1,, s2'', ''a'', ''a.zone'']"

theorem import_command_all_or_nothing_witness:
  "\<exists>res d'. runImport ex_lib ex_host ex_args empty_db = (res, d') \<and> zone_row_of ''a'' d' \<noteq> None"
proof -
  obtain res d' where run: "runImport ex_lib ex_host ex_args empty_db = (res, d')" by fastforce
  have ok: "is_ok (fst (runImport ex_lib ex_host ex_args empty_db))" by code_simp
  have "parse_flags [''config'', ''targets''] ex_args = Inr ([(''targets'', '' s1,, s2'')], [''a'', ''a.zone''])"
    by code_simp
  with import_command_all_or_nothing [OF run db_inv_empty] ok run show ?thesis by auto
qed

definition ex_start_env :: "string start_env" where
  "ex_start_env = \<lparr>sv_host_env = ex_host, sv_getenv = (\<lambda>v. if v = ''T'' then ''secret'' else []), sv_rand_err = None,
     sv_rand_byte = (\<lambda>_. CHR ''r''), sv_open_append = (\<lambda>_. None), sv_templates = None, sv_hmac = (\<lambda>k. rev),
     sv_lib = ex_lib, sv_check = ex_check, sv_remote = ex_remote\<rparr>"

theorem started_server_stays_sound_witness:
  "\<exists>w st. start_server ex_start_env [] empty_db = Inr (w, st)
     \<and> server_inv (fst (fold conc_step [Arrive (w, ex_env, [''login''], ex_login), Advance 0] (st, [])))"
proof -
  have "is_ok (start_server ex_start_env [] empty_db)" by code_simp
  then obtain w st where s: "start_server ex_start_env [] empty_db = Inr (w, st)"
    by (cases "start_server ex_start_env [] empty_db") auto
  from started_server_stays_sound [OF s db_inv_empty, of "[Arrive (ex_env, [''login''], ex_login), Advance 0]"] s
  show ?thesis by (auto simp: received_def)
qed

end
