(* ===== verification/Spec2Isabelle.thy ===== *)
theory Spec2Isabelle
  imports Example_Start
begin

text \<open>
  A verification library for mrdns, a service that edits DNS zones in an SQLite database through a web
  interface and deploys them as zone files to name servers over SSH.

  \<^bold>\<open>The program and its model.\<close> Definitions carry the names of the Go functions they translate. A Go
  function that returns a value and an error is a function to a sum, \<open>Inl\<close> of the error; one that also
  changes state returns the new state beside it (\<open>bindE\<close> of \<open>Prelude\<close> is the early return). Strings are
  byte strings, \<open>uint32\<close> is \<open>u32\<close> and wraps, \<open>int64\<close> is \<open>int\<close> with its bounds written out.

  \<^item> \<open>internal/zone\<close>: \<open>Serial\<close> (the serial policies), \<open>Zone_File\<close> (parse, render, build, edit; the parser
    and printer of miekg/dns are the parameter \<open>dns_lib\<close>), \<open>Pipeline\<close> (the local check).
  \<^item> \<open>internal/config\<close>: \<open>Config\<close>; file, YAML decoder, environment and random source are parameters.
  \<^item> \<open>internal/store\<close>: \<open>Sql_Tables\<close> (the tables with their constraints, one definition per SQL
    statement, and a schedule of driver faults, one entry per driver call), \<open>Store\<close> (each method as
    its sequence of statements).
  \<^item> \<open>internal/deploy\<close>: \<open>Ssh_Remote\<close> (remote paths and shell commands), \<open>Pipeline\<close> (the three phases of
    \<open>Deploy\<close> as maps over the targets), \<open>Pipeline_Interleaving\<close> (its goroutines as a step relation
    \<open>gstep\<close>, one step per remote call), both over a parameter \<open>remote\<close>, what the servers answer;
    \<open>Ssh_Transport\<close> (\<open>dialSSH\<close>, the methods of the connection, \<open>dnsVerifySerial\<close>) builds a \<open>remote\<close> from what
    x/crypto/ssh, pkg/sftp, miekg/dns and the network answer (\<open>transport\<close>, \<open>sftp\<close>, \<open>endpoint\<close>).
  \<^item> \<open>internal/web\<close>: \<open>Go_Encoding\<close>, \<open>Go_Json\<close> and \<open>Session\<close> (the signed session cookie), \<open>Rate_Limit\<close>,
    \<open>Line_Diff\<close>, \<open>Web_Request\<close> (what a handler reads and writes), \<open>Web_Handlers\<close> (login, dashboard,
    middleware), \<open>Web_Zones\<close> (the zone handlers), \<open>Web_Routes\<close> (the routing table and \<open>serve\<close>, the whole
    server as a function of one request and the \<open>server_state\<close>: store, audit log, metrics, limiter).
    \<open>Web_Steps\<close> gives the handlers of more than one statement again as programs of atomic steps (a statement or
    transaction on the one connection, an update under a mutex), and \<open>Web_Concurrency\<close> interleaves the programs
    of the requests in flight (\<open>conc_step\<close>); run without interruption they are the handlers of \<open>Web_Zones\<close>
    (\<open>request_alone\<close>, \<open>requests_in_turn_are_served\<close>). \<open>Web_History\<close> traces the snapshots back to requests.
  \<^item> \<open>internal/audit\<close>: \<open>Audit_Log\<close>; \<open>internal/metrics\<close>: \<open>Metrics\<close>.
  \<^item> \<open>cmd/mrdns\<close>: \<open>Command_Line\<close> (the flags, \<open>runImport\<close>, \<open>run\<close>, and \<open>mrdns\<close>: the whole process
    with its exit code, from the tables it finds to the tables it leaves).
  \<^item> \<open>Go_Strings\<close> and \<open>Go_Path\<close> hold the functions of the Go standard library that the source uses.

  \<^bold>\<open>How the parts interact.\<close> A handler reads the request and calls the store
  (\<open>on_store\<close>); \<open>handleDeploy\<close> builds the zone from the tables, advances its
  serial, hands the text to the pipeline through the interface \<open>Deployer\<close>
  (\<open>ws_deploy\<close>), and calls \<open>Publish\<close> when every target was moved. The interfaces
  are locales: \<open>inv_machine\<close> (operations that keep an invariant; interpreted for the store
  calls, the limiter, the HTTP server and the sequence of processes), \<open>evidence\<close> (what the next step of a
  handler may write, given the tables that the request has met since it arrived) and \<open>request_inv\<close> (requests
  whose every step keeps to that, so every interleaving does), both interpreted for the integrity of the
  tables and for the history, \<open>refinement\<close> (an implementation against a specification relation;
  interpreted for the store), \<open>deployer\<close> (what \<open>handleDeploy\<close> needs of the
  pipeline; interpreted for \<open>pipeline_deploy\<close>); \<open>id_table\<close> of
  \<open>Sql_Tables\<close> is the table with generated ids, interpreted for records and for snapshots.

  \<^bold>\<open>What the theorems show.\<close>
  \<^item> Deploy: nothing is moved or reloaded on any server before all of them accepted the file
    (\<open>no_change_unless_all_accept\<close>), under every interleaving of the goroutines, which end and agree with the
    sequential model; the status, \<open>AllMoved\<close> and the closing of connections; the shell reads the
    remote commands as intended, remote paths stay in the zone directory. \<open>Remote_Files\<close> gives the log its effect
    on the files of the servers (uploads, \<open>mv\<close>, \<open>rm\<close>): the live file is the whole text exactly where the move took
    effect and as before elsewhere, and a temporary file stays only where the command for it failed.
  \<^item> Store: integrity of the tables under every sequence of calls and faults; all-or-nothing import and
    rollback; history of snapshots; independence of zones; and a refinement: the store implements a map of
    zones (\<open>store_refines_zone_map\<close>).
  \<^item> Web: who can change a table (\<open>store_changes_are_authorized\<close>), who is given a session
    (\<open>signed_in_only_by_token\<close>), how often the token can be guessed (\<open>login_guesses_bounded\<close>), that each change
    is in the audit log (\<open>every_change_is_audited\<close>), that only what is live on all targets is recorded as
    published and that what is live is recorded (\<open>Web_Deploy\<close>).
  \<^item> Transport: a file is uploaded only after a handshake under the pinned host keys, a staged file has the
    content, a verified server answers the new serial (\<open>Ssh_Transport\<close>).
  \<^item> Command line: an import is all or nothing; a server that starts has a valid configuration and keeps
    its invariant (\<open>started_server_stays_sound\<close>), and so does the database over all runs of the program.
  \<^item> Overlapping requests: under every interleaving, a new snapshot of the history has the serial and the text
    that a signed-in deploy request prepared from the tables it read, and that its own run moved into place on
    all targets (\<open>history_holds_only_what_was_live\<close>); a deploy that is overtaken publishes what it
    had read, over what others published since (\<open>overtaken_deploy_takes_serial_back\<close>).
  \<^item> Serials, zone files, configuration, sessions, limiter, diff: functional behaviour, round trips, bounds; the zone
    file has one line per record exactly when no field has a newline (\<open>build_text_lines_iff\<close>).

  Theories \<open>Example_Library\<close>, \<open>Example_Runs\<close>, \<open>Example_Deploy\<close>, \<open>Example_Web\<close>, \<open>Example_Overlap\<close> and
  \<open>Example_Start\<close> instantiate the hypotheses of the theorems at closed inputs; \<open>ex_lib\<close> is a small parser and printer that satisfies what is asked of
  \<open>dns_lib\<close>.

  \<^bold>\<open>Bounds and recursion.\<close> No definition needs fuel: the loops of the source are structural recursions, or
  functions with a measure (splitting, JSON, goroutines). A row id above \<open>2 ^ 63 - 1\<close> makes an insert
  fail, as SQLite does.

  \<^bold>\<open>Not modelled.\<close> Inside the standard library and third-party code: TLS and HTTP parsing, the template
  engine (a page is its template with its data), HMAC-SHA256 (a function parameter), the SQL engine beyond the
  statements used, the SSH, SFTP and DNS protocols. One deploy sees one answer per remote call: that an SFTP
  server changes its files between the calls of two deploys is not followed, and a whole \<open>Deploy\<close> is one step
  beside the other requests. The parser of miekg/dns is not asked to keep newlines out of the records. Log
  lines, time stamps in results and closing at shutdown are left out, and so are contexts, except where \<open>Run\<close>
  waits for one: a request is never cancelled. The panic recovery is the identity: the one place where a
  handler could panic, \<open>handleDeploy\<close> on a missing result, is modelled as the reply 500 that the recovery
  sends, and the interpretation of \<open>deployer\<close> shows that the pipeline never returns such a result.
\<close>

end
